(* ===== verification/Metal_Prelude.thy ===== *)
theory Metal_Prelude
  imports Main "HOL-Library.Word" "HOL-Library.List_Lexorder" "HOL-Library.Monad_Syntax"
begin

text \<open>
  What every theory of the development shares: the machine integers of the C and C++ sources,
  byte strings with the order in which LMDB keeps its keys, the little-endian layout of integers
  in memory, the return codes of metal.h, and generic lemmas on them.

  A C function that returns an \<open>int\<close> code is a HOL function that returns an \<^typ>\<open>int\<close> beside its
  other results.  A value of type \<^typ>\<open>'a option\<close> is used where the C code may have no defined
  continuation (a failed \<open>assert\<close>, a dereferenced NULL pointer, a read of an indeterminate
  variable, a recursion that never returns): \<^term>\<open>None\<close> is that outcome.
\<close>

section \<open>Machine integers and byte strings\<close>

type_synonym u8 = "8 word"
type_synonym u16 = "16 word"
type_synonym u32 = "32 word"
type_synonym u64 = "64 word"
type_synonym bytes = "u8 list"

named_theorems unat_arith_simps \<open>exact values of 64-bit arithmetic that does not wrap\<close>
named_theorems codec \<open>lengths and round trips of the in-memory layouts\<close>

section \<open>Return codes (metal.h)\<close>

definition MTL_SUCCESS :: int where [simp]: "MTL_SUCCESS = 0"
definition MTL_COMPLETE :: int where [simp]: "MTL_COMPLETE = 1"
definition MTL_ERROR_NOENTRY :: int where [simp]: "MTL_ERROR_NOENTRY = 2"
definition MTL_ERROR_EXISTS :: int where [simp]: "MTL_ERROR_EXISTS = 17"
definition MTL_ERROR_NOTDIRECTORY :: int where [simp]: "MTL_ERROR_NOTDIRECTORY = 20"
definition MTL_ERROR_INVALID_ARGUMENT :: int where [simp]: "MTL_ERROR_INVALID_ARGUMENT = 22"
definition MTL_ERROR_NOTEMPTY :: int where [simp]: "MTL_ERROR_NOTEMPTY = 39"

section \<open>Little-endian layout\<close>

text \<open>
  The hosts the project targets (x86-64 and ppc64le) store integers least significant byte
  first, and the sources hand the memory of their integers and structs to LMDB as it is.
\<close>

primrec le_bytes :: "nat \<Rightarrow> nat \<Rightarrow> bytes" where
  "le_bytes 0 x = []"
| "le_bytes (Suc n) x = word_of_nat x # le_bytes n (x div 256)"

primrec le_val :: "bytes \<Rightarrow> nat" where
  "le_val [] = 0"
| "le_val (b # bs) = unat b + 256 * le_val bs"

definition enc64 :: "u64 \<Rightarrow> bytes" where
  "enc64 w = le_bytes 8 (unat w)"

definition dec64 :: "bytes \<Rightarrow> u64" where
  "dec64 bs = word_of_nat (le_val (take 8 bs))"

definition enc32 :: "u32 \<Rightarrow> bytes" where
  "enc32 w = le_bytes 4 (unat w)"

definition dec32 :: "bytes \<Rightarrow> u32" where
  "dec32 bs = word_of_nat (le_val (take 4 bs))"

lemma length_le_bytes [simp]: "length (le_bytes n x) = n"
  by (induction n arbitrary: x) auto

lemma le_bytes_numeral:
  "le_bytes (numeral n) x = word_of_nat x # le_bytes (pred_numeral n) (x div 256)"
  by (simp only: numeral_eq_Suc le_bytes.simps)

lemma le_val_le_bytes: "le_val (le_bytes n x) = x mod 256 ^ n"
proof (induction n arbitrary: x)
  case (Suc n)
  have "x mod 256 + 256 * (x div 256 mod 256 ^ n) = x mod (256 * 256 ^ n)"
    by (metis add.commute mod_mult2_eq)
  with Suc show ?case by (simp add: unat_of_nat)
qed simp

lemma le_val_bound: "le_val bs < 256 ^ length bs"
proof (induction bs)
  case (Cons b bs)
  have "unat b < 256" using unsigned_less [of b] by simp
  with Cons show ?case by simp
qed simp

lemma le_bytes_le_val: "le_bytes (length bs) (le_val bs) = bs"
proof (induction bs)
  case (Cons b bs)
  have b: "unat b < 256" using unsigned_less [of b] by simp
  have "word_of_nat (256 * le_val bs) = (0 :: u8)"
    by (simp only: word_of_nat_eq_0_iff) simp
  with b Cons show ?case by simp
qed simp

lemma length_enc64 [simp, codec]: "length (enc64 w) = 8"
  by (simp add: enc64_def)

lemma length_enc32 [simp, codec]: "length (enc32 w) = 4"
  by (simp add: enc32_def)

lemma dec64_enc64 [simp, codec]: "dec64 (enc64 w) = w"
proof -
  have "unat w < 256 ^ 8" using unsigned_less [of w] by simp
  then show ?thesis by (simp add: dec64_def enc64_def le_val_le_bytes)
qed

lemma dec64_enc64_append [simp, codec]: "dec64 (enc64 w @ bs) = w"
  using dec64_enc64 [of w] by (simp add: dec64_def)

lemma dec32_enc32 [simp, codec]: "dec32 (enc32 w) = w"
proof -
  have "unat w < 256 ^ 4" using unsigned_less [of w] by simp
  then show ?thesis by (simp add: dec32_def enc32_def le_val_le_bytes)
qed

lemma dec32_enc32_append [simp, codec]: "dec32 (enc32 w @ bs) = w"
  using dec32_enc32 [of w] by (simp add: dec32_def)

lemma enc64_inject [simp]: "enc64 a = enc64 b \<longleftrightarrow> a = b"
  by (metis dec64_enc64)

lemma enc64_dec64: "length bs = 8 \<Longrightarrow> enc64 (dec64 bs) = bs"
proof -
  assume l: "length bs = 8"
  then have "le_val bs < 2 ^ 64" using le_val_bound [of bs] by simp
  then have "unat (word_of_nat (le_val bs) :: u64) = le_val bs"
    by (simp add: unat_of_nat)
  with l show ?thesis using le_bytes_le_val [of bs] by (simp add: enc64_def dec64_def)
qed

text \<open>Byte order against numeric order: they agree below 256, and not beyond.\<close>

lemma le_bytes_zero: "le_bytes n 0 = replicate n 0"
  by (induction n) auto

lemma enc64_small: "unat w < 256 \<Longrightarrow> enc64 w = word_of_nat (unat w) # replicate 7 0"
proof -
  assume "unat w < 256"
  then have "unat w div 256 = 0" by simp
  moreover have "8 = Suc 7" by simp
  ultimately show ?thesis by (simp only: enc64_def le_bytes.simps le_bytes_zero)
qed

lemma word_of_nat_less_u8:
  "a < 256 \<Longrightarrow> b < 256 \<Longrightarrow> (word_of_nat a < (word_of_nat b :: u8)) \<longleftrightarrow> a < b"
  by (simp add: word_less_nat_alt unat_of_nat)

lemma enc64_less_small:
  assumes "unat a < 256" "unat b < 256"
  shows "enc64 a < enc64 b \<longleftrightarrow> a < b"
  using assms word_of_nat_less_u8 [of "unat a" "unat b"]
  by (simp only: enc64_small Cons_less_Cons word_less_nat_alt) simp

section \<open>64-bit arithmetic that does not wrap\<close>

lemma unat_add_exact [unat_arith_simps]:
  "unat a + unat b < 2 ^ 64 \<Longrightarrow> unat ((a :: u64) + b) = unat a + unat b"
  by (simp add: unat_word_ariths)

lemma unat_sub_exact [unat_arith_simps]:
  "unat b \<le> unat a \<Longrightarrow> unat ((a :: u64) - b) = unat a - unat b"
  by (simp add: unat_sub word_le_nat_alt)

lemma unat_mult_exact [unat_arith_simps]:
  "unat a * unat b < 2 ^ 64 \<Longrightarrow> unat ((a :: u64) * b) = unat a * unat b"
  by (simp add: unat_word_ariths)

lemma unat_u64_bound [simp]: "unat (a :: u64) < 18446744073709551616"
  using unsigned_less [of a] by simp

lemma word_of_nat_unat: "word_of_nat (unat w) = (w :: 'a::len word)"
  by simp

lemma unat_u32_bound: "unat (a :: u32) < 4294967296"
  using unsigned_less [of a] by simp

lemma unat_ucast_32_64 [simp]: "unat (ucast (w :: u32) :: u64) = unat w"
  using unat_u32_bound [of w] by (simp add: unsigned_ucast_eq take_bit_nat_eq_self)

lemma word_eq_unat: "(a :: u64) = b \<longleftrightarrow> unat a = unat b"
  by (simp add: word_unat_eq_iff)

lemma unat_pos_iff: "0 < unat (a :: u64) \<longleftrightarrow> a \<noteq> 0"
  by (simp add: unat_gt_0)

end
