(* ===== verification/Lmdb.thy ===== *)
theory Lmdb
  imports Metal_Prelude
begin

text \<open>
  The metadata store.  The file system keeps everything but file contents in LMDB, a library
  that is not part of the repository.  A transaction is a value of a type \<^typ>\<open>'t\<close> that nothing
  is known about, the LMDB calls the sources make are the fields of a record \<open>mdb_ops\<close>, which is
  an argument of every definition that uses the store, and the behaviour LMDB documents is the
  locale \<open>lmdb\<close>: keys are byte strings of 1 to 511 bytes, \<open>mdb_put\<close> stores or overwrites,
  \<open>mdb_del\<close> removes or reports \<open>MDB_NOTFOUND\<close>, the named databases are independent, and a cursor
  visits the keys in lexical order of their bytes, shorter keys first (no database of the sources
  asks for another comparison).  The values that \<open>mdb_get\<close> returns point into the database and are
  valid only until the next update; for the places where the sources read them later, what such a
  pointer then shows is a call of its own, \<open>mdb_reread\<close>, of which nothing is known but that it is the
  value as long as the transaction has not changed.  A write transaction is the value the writes return: committing
  keeps it, aborting goes back to the value the transaction began with.

  The last section is a store that satisfies the locale, for evaluating the model on concrete
  inputs, in two variants: updates go to a copy of the page, or to the page itself.
\<close>

section \<open>The calls\<close>

record 't mdb_ops =
  mdb_get :: "'t \<Rightarrow> string \<Rightarrow> bytes \<Rightarrow> bytes option"
    \<comment> \<open>\<^term>\<open>None\<close> is \<open>MDB_NOTFOUND\<close>\<close>
  mdb_put :: "'t \<Rightarrow> string \<Rightarrow> bytes \<Rightarrow> bytes \<Rightarrow> 't"
  mdb_del :: "'t \<Rightarrow> string \<Rightarrow> bytes \<Rightarrow> 't option"
    \<comment> \<open>\<^term>\<open>None\<close> is \<open>MDB_NOTFOUND\<close>\<close>
  mdb_cursor_first :: "'t \<Rightarrow> string \<Rightarrow> (bytes \<times> bytes) option"
    \<comment> \<open>\<open>mdb_cursor_get\<close> with \<open>MDB_FIRST\<close> on a fresh cursor\<close>
  mdb_cursor_last :: "'t \<Rightarrow> string \<Rightarrow> (bytes \<times> bytes) option"
    \<comment> \<open>\<open>mdb_cursor_get\<close> with \<open>MDB_LAST\<close> on a fresh cursor\<close>
  mdb_cursor_next :: "'t \<Rightarrow> string \<Rightarrow> bytes \<Rightarrow> (bytes \<times> bytes) option"
    \<comment> \<open>\<open>MDB_NEXT\<close> on a cursor that \<open>MDB_SET\<close> has placed on the given key\<close>
  mdb_reread :: "'t \<Rightarrow> 't \<Rightarrow> string \<Rightarrow> bytes \<Rightarrow> bytes"
    \<comment> \<open>the memory that \<open>mdb_get\<close> returned for a key in the first transaction, read in the second,
      which the first one has become by updates\<close>

definition mdb_key_ok :: "bytes \<Rightarrow> bool" where
  "mdb_key_ok k \<longleftrightarrow> 0 < length k \<and> length k \<le> 511"

text \<open>\<open>mdb_cursor_del\<close> on a cursor placed on the given key.\<close>

definition mdb_cursor_del :: "'t mdb_ops \<Rightarrow> 't \<Rightarrow> string \<Rightarrow> bytes \<Rightarrow> 't" where
  "mdb_cursor_del L t db k = (case mdb_del L t db k of None \<Rightarrow> t | Some t' \<Rightarrow> t')"

section \<open>The documented behaviour\<close>

locale lmdb =
  fixes L :: "'t mdb_ops"
  assumes get_put: "mdb_key_ok k \<Longrightarrow>
      mdb_get L (mdb_put L t db k v) db' k' =
        (if db' = db \<and> k' = k then Some v else mdb_get L t db' k')"
    and del_None: "mdb_del L t db k = None \<longleftrightarrow> mdb_get L t db k = None"
    and get_del: "mdb_del L t db k = Some t' \<Longrightarrow>
      mdb_get L t' db' k' = (if db' = db \<and> k' = k then None else mdb_get L t db' k')"
    and first_None: "mdb_cursor_first L t db = None \<longleftrightarrow> (\<forall>k. mdb_get L t db k = None)"
    and first_Some: "mdb_cursor_first L t db = Some (k, v) \<Longrightarrow>
      mdb_get L t db k = Some v \<and> (\<forall>k'. mdb_get L t db k' \<noteq> None \<longrightarrow> k \<le> k')"
    and last_None: "mdb_cursor_last L t db = None \<longleftrightarrow> (\<forall>k. mdb_get L t db k = None)"
    and last_Some: "mdb_cursor_last L t db = Some (k, v) \<Longrightarrow>
      mdb_get L t db k = Some v \<and> (\<forall>k'. mdb_get L t db k' \<noteq> None \<longrightarrow> k' \<le> k)"
    and next_None: "mdb_get L t db k \<noteq> None \<Longrightarrow>
      mdb_cursor_next L t db k = None \<longleftrightarrow> (\<forall>k'. mdb_get L t db k' \<noteq> None \<longrightarrow> k' \<le> k)"
    and next_Some: "mdb_get L t db k \<noteq> None \<Longrightarrow> mdb_cursor_next L t db k = Some (k', v') \<Longrightarrow>
      mdb_get L t db k' = Some v' \<and> k < k' \<and>
      (\<forall>k''. mdb_get L t db k'' \<noteq> None \<longrightarrow> k < k'' \<longrightarrow> k' \<le> k'')"
    and reread_same: "mdb_get L t db k = Some v \<Longrightarrow> mdb_reread L t t db k = v"
begin

lemma del_Some: "mdb_get L t db k \<noteq> None \<Longrightarrow> \<exists>t'. mdb_del L t db k = Some t'"
  using del_None [of t db k] by auto

lemma get_cursor_del:
  "mdb_get L (mdb_cursor_del L t db k) db' k' =
     (if db' = db \<and> k' = k then None else mdb_get L t db' k')"
  using get_del [of t db k] del_None [of t db k]
  by (auto simp: mdb_cursor_del_def split: option.splits)

lemma cursor_next_unique:
  assumes "mdb_get L t db k \<noteq> None" "mdb_get L t db k' = Some v'" "k < k'"
    and "\<And>k''. mdb_get L t db k'' \<noteq> None \<Longrightarrow> k < k'' \<Longrightarrow> k' \<le> k''"
  shows "mdb_cursor_next L t db k = Some (k', v')"
proof (cases "mdb_cursor_next L t db k")
  case None
  then have "k' \<le> k" using next_None [OF assms(1)] assms(2) by auto
  with assms(3) show ?thesis by simp
next
  case (Some p)
  obtain k2 v2 where p: "p = (k2, v2)" by (cases p)
  note n = next_Some [OF assms(1) Some [unfolded p]]
  have "k2 = k'"
    using n assms(2,3) assms(4) [of k2] by (metis antisym option.discI)
  with n assms(2) Some p show ?thesis by simp
qed

lemma cursor_last_max:
  assumes "mdb_get L t db k = Some v" "\<And>k'. mdb_get L t db k' \<noteq> None \<Longrightarrow> k' \<le> k"
  shows "mdb_cursor_last L t db = Some (k, v)"
proof (cases "mdb_cursor_last L t db")
  case None
  then show ?thesis using last_None [of t db] assms(1) by auto
next
  case (Some p)
  obtain k2 v2 where p: "p = (k2, v2)" by (cases p)
  note n = last_Some [OF Some [unfolded p]]
  have "k2 = k" using n assms by (metis antisym option.discI)
  with n assms(1) Some p show ?thesis by simp
qed

end

section \<open>A store that satisfies it\<close>

type_synonym ref_db = "((string \<times> bytes) \<times> bytes) list"

definition ref_get :: "ref_db \<Rightarrow> string \<Rightarrow> bytes \<Rightarrow> bytes option" where
  "ref_get t db k = map_of t (db, k)"

definition ref_put :: "ref_db \<Rightarrow> string \<Rightarrow> bytes \<Rightarrow> bytes \<Rightarrow> ref_db" where
  "ref_put t db k v = ((db, k), v) # filter (\<lambda>p. fst p \<noteq> (db, k)) t"

definition ref_del :: "ref_db \<Rightarrow> string \<Rightarrow> bytes \<Rightarrow> ref_db option" where
  "ref_del t db k =
     (case ref_get t db k of None \<Rightarrow> None | Some v \<Rightarrow> Some (filter (\<lambda>p. fst p \<noteq> (db, k)) t))"

definition ref_keys :: "ref_db \<Rightarrow> string \<Rightarrow> bytes list" where
  "ref_keys t db = map (snd \<circ> fst) (filter (\<lambda>p. fst (fst p) = db) t)"

definition ref_at :: "ref_db \<Rightarrow> string \<Rightarrow> (bytes set \<Rightarrow> bytes) \<Rightarrow> bytes list \<Rightarrow> (bytes \<times> bytes) option"
where
  "ref_at t db pick ks =
     (if ks = [] then None
      else let k = pick (set ks) in map_option (Pair k) (ref_get t db k))"

definition ref_ops :: "ref_db mdb_ops" where
  "ref_ops = \<lparr>mdb_get = ref_get, mdb_put = ref_put, mdb_del = ref_del,
     mdb_cursor_first = (\<lambda>t db. ref_at t db Min (ref_keys t db)),
     mdb_cursor_last = (\<lambda>t db. ref_at t db Max (ref_keys t db)),
     mdb_cursor_next = (\<lambda>t db k. ref_at t db Min (filter (\<lambda>k'. k < k') (ref_keys t db))),
     mdb_reread = (\<lambda>t0 t1 db k. case ref_get t0 db k of None \<Rightarrow> [] | Some v \<Rightarrow> v)\<rparr>"

text \<open>The variant in which an update overwrites the memory that was returned before.\<close>

definition inplace_ops :: "ref_db mdb_ops" where
  "inplace_ops = ref_ops\<lparr>mdb_reread := (\<lambda>t0 t1 db k. case ref_get t1 db k of None \<Rightarrow> [] | Some v \<Rightarrow> v)\<rparr>"

lemma map_of_filter_neq:
  "map_of (filter (\<lambda>p. fst p \<noteq> x) t) y = (if y = x then None else map_of t y)"
  by (induction t) auto

lemma set_ref_keys: "k \<in> set (ref_keys t db) \<longleftrightarrow> ref_get t db k \<noteq> None"
  by (force simp: ref_keys_def ref_get_def image_iff map_of_eq_None_iff)

lemma ref_keys_Nil: "ref_keys t db = [] \<longleftrightarrow> (\<forall>k. ref_get t db k = None)"
  using set_ref_keys [of _ t db] by (metis list.set_intros(1) neq_Nil_conv list.set(1) empty_iff)

lemma ref_get_put:
  "ref_get (ref_put t db k v) db' k' = (if db' = db \<and> k' = k then Some v else ref_get t db' k')"
  by (auto simp: ref_get_def ref_put_def map_of_filter_neq)

lemma ref_get_del:
  "ref_del t db k = Some t' \<Longrightarrow>
     ref_get t' db' k' = (if db' = db \<and> k' = k then None else ref_get t db' k')"
  by (auto simp: ref_get_def ref_del_def map_of_filter_neq split: option.splits)

lemma ref_at_None:
  assumes "pick = Min \<or> pick = Max" "set ks \<subseteq> set (ref_keys t db)"
  shows "ref_at t db pick ks = None \<longleftrightarrow> ks = []"
proof (cases "ks = []")
  case False
  then have "Min (set ks) \<in> set ks" "Max (set ks) \<in> set ks" by auto
  with assms have "pick (set ks) \<in> set (ref_keys t db)" by blast
  with False show ?thesis by (simp add: ref_at_def set_ref_keys Let_def)
qed (simp add: ref_at_def)

lemma ref_at_Some:
  assumes "ref_at t db pick ks = Some (k, v)"
  shows "ref_get t db k = Some v" "k = pick (set ks)" "ks \<noteq> []"
  using assms by (auto simp: ref_at_def Let_def split: if_splits)

lemma ref_next_None:
  "ref_at t db Min (filter (\<lambda>k'. k < k') (ref_keys t db)) = None \<longleftrightarrow>
     (\<forall>k'. ref_get t db k' \<noteq> None \<longrightarrow> k' \<le> k)"
proof -
  let ?ks = "filter (\<lambda>k'. k < k') (ref_keys t db)"
  have "ref_at t db Min ?ks = None \<longleftrightarrow> ?ks = []"
    by (rule ref_at_None) auto
  also have "\<dots> \<longleftrightarrow> (\<forall>k' \<in> set (ref_keys t db). k' \<le> k)"
    by (simp add: filter_empty_conv not_less)
  also have "\<dots> \<longleftrightarrow> (\<forall>k'. ref_get t db k' \<noteq> None \<longrightarrow> k' \<le> k)"
    by (simp add: Ball_def set_ref_keys)
  finally show ?thesis .
qed

lemma ref_first_Some:
  assumes "ref_at t db Min (ref_keys t db) = Some (k, v)"
  shows "ref_get t db k = Some v \<and> (\<forall>k'. ref_get t db k' \<noteq> None \<longrightarrow> k \<le> k')"
  using ref_at_Some [OF assms] set_ref_keys [of _ t db]
  by (metis List.finite_set Min_le)

lemma ref_last_Some:
  assumes "ref_at t db Max (ref_keys t db) = Some (k, v)"
  shows "ref_get t db k = Some v \<and> (\<forall>k'. ref_get t db k' \<noteq> None \<longrightarrow> k' \<le> k)"
  using ref_at_Some [OF assms] set_ref_keys [of _ t db]
  by (metis List.finite_set Max_ge)

lemma ref_next_Some:
  assumes "ref_at t db Min (filter (\<lambda>k'. k < k') (ref_keys t db)) = Some (k', v')"
  shows "ref_get t db k' = Some v' \<and> k < k' \<and>
      (\<forall>k''. ref_get t db k'' \<noteq> None \<longrightarrow> k < k'' \<longrightarrow> k' \<le> k'')"
proof -
  let ?A = "set (filter (\<lambda>k'. k < k') (ref_keys t db))"
  have k': "k' = Min ?A" and "?A \<noteq> {}" and get: "ref_get t db k' = Some v'"
    using ref_at_Some [OF assms] by (simp_all flip: set_empty)
  then have "k' \<in> ?A" using Min_in [of ?A] by simp
  moreover have "k' \<le> k''" if "ref_get t db k'' \<noteq> None" "k < k''" for k''
  proof -
    have "k'' \<in> ?A" using that set_ref_keys [of k'' t db] by simp
    with k' show ?thesis using Min_le [of ?A k''] by simp
  qed
  ultimately show ?thesis using get by simp
qed

interpretation ref: lmdb ref_ops
proof
  fix t db db' k k' v v' t'
  show "mdb_key_ok k \<Longrightarrow> mdb_get ref_ops (mdb_put ref_ops t db k v) db' k' =
      (if db' = db \<and> k' = k then Some v else mdb_get ref_ops t db' k')"
    by (simp add: ref_ops_def ref_get_put)
  show "mdb_del ref_ops t db k = None \<longleftrightarrow> mdb_get ref_ops t db k = None"
    by (simp add: ref_ops_def ref_del_def split: option.splits)
  show "mdb_del ref_ops t db k = Some t' \<Longrightarrow>
      mdb_get ref_ops t' db' k' = (if db' = db \<and> k' = k then None else mdb_get ref_ops t db' k')"
    by (simp add: ref_ops_def ref_get_del)
  show "mdb_cursor_first ref_ops t db = None \<longleftrightarrow> (\<forall>k. mdb_get ref_ops t db k = None)"
    by (simp add: ref_ops_def ref_at_None ref_keys_Nil)
  show "mdb_cursor_last ref_ops t db = None \<longleftrightarrow> (\<forall>k. mdb_get ref_ops t db k = None)"
    by (simp add: ref_ops_def ref_at_None ref_keys_Nil)
  show "mdb_cursor_first ref_ops t db = Some (k, v) \<Longrightarrow> mdb_get ref_ops t db k = Some v \<and>
      (\<forall>k'. mdb_get ref_ops t db k' \<noteq> None \<longrightarrow> k \<le> k')"
    using ref_first_Some [of t db k v] by (simp add: ref_ops_def)
  show "mdb_cursor_last ref_ops t db = Some (k, v) \<Longrightarrow> mdb_get ref_ops t db k = Some v \<and>
      (\<forall>k'. mdb_get ref_ops t db k' \<noteq> None \<longrightarrow> k' \<le> k)"
    using ref_last_Some [of t db k v] by (simp add: ref_ops_def)
  show "mdb_get ref_ops t db k \<noteq> None \<Longrightarrow> mdb_cursor_next ref_ops t db k = None \<longleftrightarrow>
      (\<forall>k'. mdb_get ref_ops t db k' \<noteq> None \<longrightarrow> k' \<le> k)"
    using ref_next_None [of t db k] by (simp add: ref_ops_def)
  show "mdb_get ref_ops t db k \<noteq> None \<Longrightarrow> mdb_cursor_next ref_ops t db k = Some (k', v') \<Longrightarrow>
      mdb_get ref_ops t db k' = Some v' \<and> k < k' \<and>
      (\<forall>k''. mdb_get ref_ops t db k'' \<noteq> None \<longrightarrow> k < k'' \<longrightarrow> k' \<le> k'')"
    using ref_next_Some [of t db k k' v'] by (simp add: ref_ops_def)
  show "mdb_get ref_ops t db k = Some v \<Longrightarrow> mdb_reread ref_ops t t db k = v"
    by (simp add: ref_ops_def)
qed

lemma reread_ref: "mdb_get ref_ops t0 db k = Some v \<Longrightarrow> mdb_reread ref_ops t0 t1 db k = v"
  by (simp add: ref_ops_def)

lemma reread_inplace: "mdb_get ref_ops t1 db k = Some v \<Longrightarrow> mdb_reread inplace_ops t0 t1 db k = v"
  by (simp add: ref_ops_def inplace_ops_def)

text \<open>The documented behaviour of a store does not depend on what outdated pointers show.\<close>

lemma inplace_ops_simps [simp]:
  "mdb_get inplace_ops = mdb_get ref_ops" "mdb_put inplace_ops = mdb_put ref_ops"
  "mdb_del inplace_ops = mdb_del ref_ops" "mdb_cursor_first inplace_ops = mdb_cursor_first ref_ops"
  "mdb_cursor_last inplace_ops = mdb_cursor_last ref_ops" "mdb_cursor_next inplace_ops = mdb_cursor_next ref_ops"
  by (simp_all add: inplace_ops_def)

interpretation inplace: lmdb inplace_ops
proof
  show "mdb_get inplace_ops t db k = Some v \<Longrightarrow> mdb_reread inplace_ops t t db k = v" for t db k v
    by (simp add: inplace_ops_def ref_ops_def)
qed (unfold inplace_ops_simps, (fact ref.get_put ref.del_None ref.get_del ref.first_None ref.first_Some
  ref.last_None ref.last_Some ref.next_None ref.next_Some)+)

end
