(* ===== verification/Heap.thy ===== *)
theory Heap
  imports Lmdb
begin

text \<open>
  The priority queue of free extents, \<open>src/metal-filesystem/src/heap.c\<close>.  The queue is the LMDB
  database \<open>heap\<close>: a node \<open>{k, v}\<close> is stored under the 16 bytes of the struct, with \<open>v\<close> as its
  value, and the maximum is the last key of the database.
\<close>

section \<open>Data\<close>

record mtl_heap_node_id =
  node_k :: u64
  node_v :: u64

definition INVALID_NODE :: mtl_heap_node_id where
  "INVALID_NODE = \<lparr>node_k = 0, node_v = 0\<rparr>"

definition HEAP_DB_NAME :: string where
  "HEAP_DB_NAME = ''heap''"

definition enc_node_id :: "mtl_heap_node_id \<Rightarrow> bytes" where
  "enc_node_id n = enc64 (node_k n) @ enc64 (node_v n)"

definition dec_node_id :: "bytes \<Rightarrow> mtl_heap_node_id" where
  "dec_node_id bs = \<lparr>node_k = dec64 bs, node_v = dec64 (drop 8 bs)\<rparr>"

section \<open>Operations\<close>

definition mtl_heap_insert ::
  "'t mdb_ops \<Rightarrow> 't \<Rightarrow> u64 \<Rightarrow> u64 \<Rightarrow> int \<times> 't \<times> mtl_heap_node_id" where
  "mtl_heap_insert L t key val =
     (let id = \<lparr>node_k = key, node_v = val\<rparr>
      in (MTL_SUCCESS, mdb_put L t HEAP_DB_NAME (enc_node_id id) (enc64 val), id))"

definition mtl_heap_delete :: "'t mdb_ops \<Rightarrow> 't \<Rightarrow> mtl_heap_node_id \<Rightarrow> int \<times> 't" where
  "mtl_heap_delete L t node_id =
     (case mdb_del L t HEAP_DB_NAME (enc_node_id node_id) of
        None \<Rightarrow> (MTL_ERROR_INVALID_ARGUMENT, t)
      | Some t' \<Rightarrow> (MTL_SUCCESS, t'))"

text \<open>The second component is \<open>*max_value\<close>, \<^term>\<open>None\<close> where the call leaves it unwritten.\<close>

definition mtl_heap_extract_max :: "'t mdb_ops \<Rightarrow> 't \<Rightarrow> int \<times> u64 option \<times> 't" where
  "mtl_heap_extract_max L t =
     (case mdb_cursor_last L t HEAP_DB_NAME of
        None \<Rightarrow> (MTL_ERROR_NOENTRY, None, t)
      | Some (key, val) \<Rightarrow>
          let max_value = dec64 val; (res, t') = mtl_heap_delete L t (dec_node_id key)
          in (res, Some max_value, t'))"

text \<open>The third component is \<open>*updated_node_id\<close>, \<^term>\<open>None\<close> where it is left unwritten.\<close>

definition mtl_heap_increase_key ::
  "'t mdb_ops \<Rightarrow> 't \<Rightarrow> mtl_heap_node_id \<Rightarrow> u64 \<Rightarrow> int \<times> 't \<times> mtl_heap_node_id option" where
  "mtl_heap_increase_key L t node_id key =
     (let (res, t') = mtl_heap_delete L t node_id
      in if res \<noteq> MTL_SUCCESS then (res, t', None)
         else let (res', t'', id) = mtl_heap_insert L t' key 0 in (res', t'', Some id))"

section \<open>Abstract view\<close>

definition heap_nodes :: "'t mdb_ops \<Rightarrow> 't \<Rightarrow> mtl_heap_node_id set" where
  "heap_nodes L t = {n. mdb_get L t HEAP_DB_NAME (enc_node_id n) \<noteq> None}"

text \<open>Every key is the image of a node, and its value is the node's \<open>v\<close>.\<close>

definition heap_wf :: "'t mdb_ops \<Rightarrow> 't \<Rightarrow> bool" where
  "heap_wf L t \<longleftrightarrow> (\<forall>k v. mdb_get L t HEAP_DB_NAME k = Some v \<longrightarrow>
     (\<exists>n. k = enc_node_id n \<and> v = enc64 (node_v n)))"

text \<open>What the heap does not touch: the other databases of the environment.\<close>

definition beside_heap :: "'t mdb_ops \<Rightarrow> 't \<Rightarrow> string \<Rightarrow> bytes \<Rightarrow> bytes option" where
  "beside_heap L t db k = (if db = HEAP_DB_NAME then None else mdb_get L t db k)"

lemma length_enc_node_id [simp, codec]: "length (enc_node_id n) = 16"
  by (simp add: enc_node_id_def)

lemma dec_node_id_enc [simp, codec]: "dec_node_id (enc_node_id n) = n"
  by (simp add: dec_node_id_def enc_node_id_def)

lemma enc_node_id_inject [simp]: "enc_node_id a = enc_node_id b \<longleftrightarrow> a = b"
  by (metis dec_node_id_enc)

lemma mdb_key_ok_enc_node_id [simp]: "mdb_key_ok (enc_node_id n)"
  by (simp add: mdb_key_ok_def)

lemma append_less_same_length:
  "length a = length b \<Longrightarrow> (a @ c < b @ d) \<longleftrightarrow> a < b \<or> a = b \<and> c < (d :: 'a :: linorder list)"
  by (induction a b rule: list_induct2) auto

section \<open>The contract the extent allocator relies on\<close>

locale heap_contract =
  fixes wf :: "'t \<Rightarrow> bool"
    and nodes :: "'t \<Rightarrow> mtl_heap_node_id set"
    and beside :: "'t \<Rightarrow> string \<Rightarrow> bytes \<Rightarrow> bytes option"
    and ins :: "'t \<Rightarrow> u64 \<Rightarrow> u64 \<Rightarrow> int \<times> 't \<times> mtl_heap_node_id"
    and del :: "'t \<Rightarrow> mtl_heap_node_id \<Rightarrow> int \<times> 't"
    and xmax :: "'t \<Rightarrow> int \<times> u64 option \<times> 't"
  assumes ins: "ins t k v = (r, t', n) \<Longrightarrow>
      r = MTL_SUCCESS \<and> n = \<lparr>node_k = k, node_v = v\<rparr> \<and> nodes t' = insert n (nodes t) \<and>
      (wf t \<longrightarrow> wf t') \<and> beside t' = beside t"
    and del: "del t n = (r, t') \<Longrightarrow>
      r = (if n \<in> nodes t then MTL_SUCCESS else MTL_ERROR_INVALID_ARGUMENT) \<and>
      nodes t' = nodes t - {n} \<and> (wf t \<longrightarrow> wf t') \<and> beside t' = beside t"
    and xmax_empty: "wf t \<Longrightarrow> nodes t = {} \<Longrightarrow> xmax t = (MTL_ERROR_NOENTRY, None, t)"
    and xmax: "wf t \<Longrightarrow> nodes t \<noteq> {} \<Longrightarrow> xmax t = (r, mv, t') \<Longrightarrow>
      r = MTL_SUCCESS \<and> wf t' \<and> beside t' = beside t \<and>
      (\<exists>n \<in> nodes t. mv = Some (node_v n) \<and> nodes t' = nodes t - {n})"
begin

text \<open>What one puts into an empty queue comes out again.\<close>

lemma xmax_ins_empty:
  assumes "wf t" "nodes t = {}" "ins t k v = (r, t', n)" "xmax t' = (r', mv, t'')"
  shows "r' = MTL_SUCCESS \<and> mv = Some v \<and> nodes t'' = {}"
  using ins [OF assms(3)] xmax [OF _ _ assms(4)] assms(1,2) by auto

text \<open>A node that was inserted can be deleted, once.\<close>

lemma del_ins:
  assumes "\<lparr>node_k = k, node_v = v\<rparr> \<notin> nodes t" "ins t k v = (r, t', m)" "del t' m = (r', t'')"
  shows "r' = MTL_SUCCESS \<and> nodes t'' = nodes t"
  using ins [OF assms(2)] del [OF assms(3)] assms(1) by auto

end

context lmdb
begin

lemma heap_insert_get:
  "mtl_heap_insert L t k v = (r, t', n) \<Longrightarrow>
     mdb_get L t' db k' =
       (if db = HEAP_DB_NAME \<and> k' = enc_node_id n then Some (enc64 v) else mdb_get L t db k')"
  by (auto simp: mtl_heap_insert_def Let_def get_put)

lemma heap_insert_ids:
  "mtl_heap_insert L t k v = (r, t', n) \<Longrightarrow> r = MTL_SUCCESS \<and> n = \<lparr>node_k = k, node_v = v\<rparr>"
  by (auto simp: mtl_heap_insert_def Let_def)

lemma heap_delete_get:
  "mtl_heap_delete L t n = (r, t') \<Longrightarrow>
     mdb_get L t' db k' =
       (if db = HEAP_DB_NAME \<and> k' = enc_node_id n then None else mdb_get L t db k')"
  using get_del [of t HEAP_DB_NAME "enc_node_id n"] del_None [of t HEAP_DB_NAME "enc_node_id n"]
  by (auto simp: mtl_heap_delete_def split: option.splits)

lemma heap_delete_res:
  "mtl_heap_delete L t n = (r, t') \<Longrightarrow>
     r = (if n \<in> heap_nodes L t then MTL_SUCCESS else MTL_ERROR_INVALID_ARGUMENT)"
  using del_None [of t HEAP_DB_NAME "enc_node_id n"]
  by (auto simp: mtl_heap_delete_def heap_nodes_def split: option.splits)

lemma heap_wf_nodes:
  "heap_wf L t \<Longrightarrow> mdb_get L t HEAP_DB_NAME k = Some v \<Longrightarrow>
     \<exists>n \<in> heap_nodes L t. k = enc_node_id n \<and> v = enc64 (node_v n)"
  unfolding heap_wf_def heap_nodes_def by blast

lemma heap_empty_iff:
  "heap_wf L t \<Longrightarrow> heap_nodes L t = {} \<longleftrightarrow> mdb_cursor_last L t HEAP_DB_NAME = None"
  unfolding last_None heap_nodes_def heap_wf_def by (auto simp del: not_None_eq) (metis not_None_eq)

text \<open>Extraction takes the node whose bytes are largest.\<close>

lemma heap_extract_max_spec:
  assumes "heap_wf L t" "heap_nodes L t \<noteq> {}" "mtl_heap_extract_max L t = (r, mv, t')"
  shows "\<exists>n \<in> heap_nodes L t. r = MTL_SUCCESS \<and> mv = Some (node_v n) \<and>
      mtl_heap_delete L t n = (MTL_SUCCESS, t') \<and>
      (\<forall>m \<in> heap_nodes L t. enc_node_id m \<le> enc_node_id n)"
proof -
  obtain k v where kv: "mdb_cursor_last L t HEAP_DB_NAME = Some (k, v)"
    using assms(1,2) heap_empty_iff by fastforce
  note last = last_Some [OF kv]
  obtain n where n: "n \<in> heap_nodes L t" "k = enc_node_id n" "v = enc64 (node_v n)"
    using heap_wf_nodes [OF assms(1)] last by blast
  obtain r' t'' where d: "mtl_heap_delete L t n = (r', t'')" by fastforce
  have "r' = MTL_SUCCESS" using heap_delete_res [OF d] n(1) by simp
  moreover have "r = r'" "mv = Some (node_v n)" "t' = t''"
    using assms(3) kv n(2,3) d by (auto simp: mtl_heap_extract_max_def)
  ultimately show ?thesis using n(1,2) d last by (auto simp: heap_nodes_def)
qed

lemma heap_nodes_insert:
  "mtl_heap_insert L t k v = (r, t', n) \<Longrightarrow> heap_nodes L t' = insert n (heap_nodes L t)"
  by (auto simp: heap_nodes_def heap_insert_get)

lemma heap_nodes_delete:
  "mtl_heap_delete L t n = (r, t') \<Longrightarrow> heap_nodes L t' = heap_nodes L t - {n}"
  by (auto simp: heap_nodes_def heap_delete_get split: if_splits)

lemma heap_wf_insert:
  assumes "mtl_heap_insert L t k v = (r, t', n)" "heap_wf L t"
  shows "heap_wf L t'"
  using assms(2) heap_insert_ids [OF assms(1)]
  by (auto simp: heap_wf_def heap_insert_get [OF assms(1)])

lemma heap_wf_delete:
  assumes "mtl_heap_delete L t n = (r, t')" "heap_wf L t"
  shows "heap_wf L t'"
  using assms(2) by (auto simp: heap_wf_def heap_delete_get [OF assms(1)])

end

sublocale lmdb \<subseteq> heap: heap_contract "heap_wf L" "heap_nodes L" "beside_heap L"
  "mtl_heap_insert L" "mtl_heap_delete L" "mtl_heap_extract_max L"
proof
  fix t k v r t' n mv
  show "mtl_heap_insert L t k v = (r, t', n) \<Longrightarrow>
      r = MTL_SUCCESS \<and> n = \<lparr>node_k = k, node_v = v\<rparr> \<and>
      heap_nodes L t' = insert n (heap_nodes L t) \<and> (heap_wf L t \<longrightarrow> heap_wf L t') \<and>
      beside_heap L t' = beside_heap L t"
    using heap_insert_ids heap_nodes_insert heap_wf_insert
    by (auto simp: beside_heap_def fun_eq_iff heap_insert_get)
  show "mtl_heap_delete L t n = (r, t') \<Longrightarrow>
      r = (if n \<in> heap_nodes L t then MTL_SUCCESS else MTL_ERROR_INVALID_ARGUMENT) \<and>
      heap_nodes L t' = heap_nodes L t - {n} \<and> (heap_wf L t \<longrightarrow> heap_wf L t') \<and>
      beside_heap L t' = beside_heap L t"
    using heap_delete_res heap_nodes_delete heap_wf_delete
    by (auto simp: beside_heap_def fun_eq_iff heap_delete_get)
  show "heap_wf L t \<Longrightarrow> heap_nodes L t = {} \<Longrightarrow>
      mtl_heap_extract_max L t = (MTL_ERROR_NOENTRY, None, t)"
    by (simp add: heap_empty_iff mtl_heap_extract_max_def)
  show "heap_wf L t \<Longrightarrow> heap_nodes L t \<noteq> {} \<Longrightarrow> mtl_heap_extract_max L t = (r, mv, t') \<Longrightarrow>
      r = MTL_SUCCESS \<and> heap_wf L t' \<and> beside_heap L t' = beside_heap L t \<and>
      (\<exists>n \<in> heap_nodes L t. mv = Some (node_v n) \<and> heap_nodes L t' = heap_nodes L t - {n})"
    by (frule (2) heap_extract_max_spec)
      (auto simp: beside_heap_def fun_eq_iff heap_delete_get heap_nodes_delete heap_wf_delete)
qed

section \<open>Properties\<close>

lemma enc_node_id_le_small:
  assumes "enc_node_id m \<le> enc_node_id n" "unat (node_k m) < 256" "unat (node_k n) < 256"
  shows "node_k m \<le> node_k n"
proof (rule ccontr)
  assume "\<not> node_k m \<le> node_k n"
  then have "enc64 (node_k n) < enc64 (node_k m)"
    using assms(2,3) by (simp add: enc64_less_small)
  then have "enc_node_id n < enc_node_id m"
    by (simp add: enc_node_id_def append_less_same_length)
  with assms(1) show False by simp
qed

lemma enc64_256: "enc64 256 = [0, 1, 0, 0, 0, 0, 0, 0]"
  by (simp add: enc64_def le_bytes_numeral)

lemma enc64_1: "enc64 1 = [1, 0, 0, 0, 0, 0, 0, 0]"
  by (simp add: enc64_def le_bytes_numeral)

lemma ref_empty: "mdb_get ref_ops [] db k = None"
  by (simp add: ref_ops_def ref_get_def)

lemma ref_empty_heap: "heap_wf ref_ops []" "heap_nodes ref_ops [] = {}"
  by (simp_all add: heap_wf_def heap_nodes_def ref_empty)

text \<open>
  C27: \<open>mtl_heap_extract_max\<close> is a correct extract-max as long as every priority fits in one
  byte: it succeeds on a non-empty heap, removes exactly one node, reports that node's value, and
  no other node of the heap has a larger priority.
\<close>

theorem heap_extract_max_is_max:
  assumes "lmdb L" "heap_wf L t" "heap_nodes L t \<noteq> {}"
    and "\<forall>n \<in> heap_nodes L t. unat (node_k n) < 256"
    and "mtl_heap_extract_max L t = (r, mv, t')"
  shows "\<exists>n \<in> heap_nodes L t. r = MTL_SUCCESS \<and> mv = Some (node_v n) \<and>
      heap_nodes L t' = heap_nodes L t - {n} \<and> heap_wf L t' \<and>
      (\<forall>m \<in> heap_nodes L t. node_k m \<le> node_k n)"
proof -
  obtain n where n: "n \<in> heap_nodes L t" "r = MTL_SUCCESS" "mv = Some (node_v n)"
      "mtl_heap_delete L t n = (MTL_SUCCESS, t')"
    and max: "\<forall>m \<in> heap_nodes L t. enc_node_id m \<le> enc_node_id n"
    using lmdb.heap_extract_max_spec [OF assms(1,2,3,5)] by blast
  show ?thesis
    using n max assms(4) lmdb.heap_nodes_delete [OF assms(1) n(4)]
      lmdb.heap_wf_delete [OF assms(1) n(4) assms(2)] enc_node_id_le_small
    by blast
qed

definition two_node_heap :: ref_db where
  "two_node_heap = fst (snd (mtl_heap_insert ref_ops
     (fst (snd (mtl_heap_insert ref_ops [] 5 50))) 3 30))"

lemma two_node_heap_nodes:
  "heap_nodes ref_ops two_node_heap = {\<lparr>node_k = 3, node_v = 30\<rparr>, \<lparr>node_k = 5, node_v = 50\<rparr>}"
  and two_node_heap_wf: "heap_wf ref_ops two_node_heap"
proof -
  obtain r t n where 1: "mtl_heap_insert ref_ops [] 5 50 = (r, t, n)" by (cases "mtl_heap_insert ref_ops [] 5 50")
  obtain r' t' n' where 2: "mtl_heap_insert ref_ops t 3 30 = (r', t', n')" by (cases "mtl_heap_insert ref_ops t 3 30")
  have t': "two_node_heap = t'" by (simp add: two_node_heap_def 1 2)
  show "heap_nodes ref_ops two_node_heap = {\<lparr>node_k = 3, node_v = 30\<rparr>, \<lparr>node_k = 5, node_v = 50\<rparr>}"
    and "heap_wf ref_ops two_node_heap"
    using ref.heap.ins [OF 1] ref.heap.ins [OF 2] by (simp_all add: t' ref_empty_heap)
qed

theorem heap_extract_max_is_max_witness:
  "\<exists>r mv t'. mtl_heap_extract_max ref_ops two_node_heap = (r, mv, t') \<and>
     r = MTL_SUCCESS \<and> mv = Some 50"
proof -
  obtain r mv t' where x: "mtl_heap_extract_max ref_ops two_node_heap = (r, mv, t')"
    by (cases "mtl_heap_extract_max ref_ops two_node_heap")
  show ?thesis
    using heap_extract_max_is_max [OF ref.lmdb_axioms two_node_heap_wf _ _ x] x
    by (auto simp: two_node_heap_nodes)
qed

text \<open>
  Beyond one byte the heap is not a max-heap.  Keys are compared as little-endian byte
  strings, so from a heap that holds the priorities 256 and 1 the priority 1 is extracted first.
\<close>

theorem heap_extract_max_byte_order:
  assumes "lmdb L" "heap_wf L t" "heap_nodes L t = {}"
    and "mtl_heap_insert L t 256 a = (r1, t1, n1)" "mtl_heap_insert L t1 1 b = (r2, t2, n2)"
    and "mtl_heap_extract_max L t2 = (r3, mv, t3)"
  shows "r3 = MTL_SUCCESS \<and> mv = Some b \<and> heap_nodes L t3 = {n1}"
proof -
  have n: "n1 = \<lparr>node_k = 256, node_v = a\<rparr>" "n2 = \<lparr>node_k = 1, node_v = b\<rparr>"
      "heap_wf L t2" "heap_nodes L t2 = {n1, n2}"
    using assms(2,3) lmdb.heap_insert_ids [OF assms(1) assms(4)]
      lmdb.heap_insert_ids [OF assms(1) assms(5)] lmdb.heap_nodes_insert [OF assms(1) assms(4)]
      lmdb.heap_nodes_insert [OF assms(1) assms(5)] lmdb.heap_wf_insert [OF assms(1) assms(4)]
      lmdb.heap_wf_insert [OF assms(1) assms(5)]
    by auto
  have less: "enc_node_id n1 < enc_node_id n2"
    by (simp add: n(1,2) enc_node_id_def append_less_same_length enc64_256 enc64_1)
  obtain m where m: "m \<in> {n1, n2}" "r3 = MTL_SUCCESS" "mv = Some (node_v m)"
      "mtl_heap_delete L t2 m = (MTL_SUCCESS, t3)" "enc_node_id n2 \<le> enc_node_id m"
    using lmdb.heap_extract_max_spec [OF assms(1) n(3) _ assms(6)] n(4) by auto
  then have "m = n2" using less by auto
  moreover have "n1 \<noteq> n2" using less by auto
  ultimately show ?thesis
    using m(2,3) n(2,4) lmdb.heap_nodes_delete [OF assms(1) m(4)] by auto
qed

theorem heap_extract_max_byte_order_witness:
  "\<exists>r1 t1 n1 r2 t2 n2 r3 t3.
     mtl_heap_insert ref_ops [] 256 7 = (r1, t1, n1) \<and>
     mtl_heap_insert ref_ops t1 1 9 = (r2, t2, n2) \<and>
     mtl_heap_extract_max ref_ops t2 = (r3, Some 9, t3)"
proof -
  obtain r1 t1 n1 where 1: "mtl_heap_insert ref_ops [] 256 7 = (r1, t1, n1)"
    by (cases "mtl_heap_insert ref_ops [] 256 7")
  obtain r2 t2 n2 where 2: "mtl_heap_insert ref_ops t1 1 9 = (r2, t2, n2)"
    by (cases "mtl_heap_insert ref_ops t1 1 9")
  obtain r3 mv t3 where 3: "mtl_heap_extract_max ref_ops t2 = (r3, mv, t3)"
    by (cases "mtl_heap_extract_max ref_ops t2")
  show ?thesis
    using heap_extract_max_byte_order [OF ref.lmdb_axioms ref_empty_heap 1 2 3] 1 2 3 by blast
qed

text \<open>
  \<open>mtl_heap_increase_key\<close> on a node of the heap replaces it by a node with the new priority
  whose value is 0, whatever the value of the node was; on any other node it fails and changes
  nothing.
\<close>

theorem heap_increase_key_spec:
  assumes "lmdb L" "mtl_heap_increase_key L t n key = (r, t', n')"
  shows "if n \<in> heap_nodes L t
    then r = MTL_SUCCESS \<and> n' = Some \<lparr>node_k = key, node_v = 0\<rparr> \<and>
      heap_nodes L t' = insert \<lparr>node_k = key, node_v = 0\<rparr> (heap_nodes L t - {n})
    else r = MTL_ERROR_INVALID_ARGUMENT \<and> n' = None \<and> heap_nodes L t' = heap_nodes L t"
proof -
  obtain rd td where d: "mtl_heap_delete L t n = (rd, td)" by (cases "mtl_heap_delete L t n")
  obtain ri ti ni where i: "mtl_heap_insert L td key 0 = (ri, ti, ni)"
    by (cases "mtl_heap_insert L td key 0")
  show ?thesis
    using assms(2) d i lmdb.heap_delete_res [OF assms(1) d] lmdb.heap_nodes_delete [OF assms(1) d]
      lmdb.heap_insert_ids [OF assms(1) i] lmdb.heap_nodes_insert [OF assms(1) i]
    by (auto simp: mtl_heap_increase_key_def split: if_splits)
qed

theorem heap_increase_key_spec_witness:
  "\<exists>t'. mtl_heap_increase_key ref_ops two_node_heap \<lparr>node_k = 3, node_v = 30\<rparr> 9 =
     (MTL_SUCCESS, t', Some \<lparr>node_k = 9, node_v = 0\<rparr>)"
proof -
  obtain r t' n' where
    x: "mtl_heap_increase_key ref_ops two_node_heap \<lparr>node_k = 3, node_v = 30\<rparr> 9 = (r, t', n')"
    by (cases "mtl_heap_increase_key ref_ops two_node_heap \<lparr>node_k = 3, node_v = 30\<rparr> 9")
  show ?thesis
    using heap_increase_key_spec [OF ref.lmdb_axioms x] x by (simp add: two_node_heap_nodes)
qed

end
