(* ===== verification/Tiling.thy ===== *)
theory Tiling
  imports Main
begin

text \<open>
  The abstract view of block allocation: a set of tiles, each an offset and a length in blocks,
  that together cover a storage of \<open>n\<close> blocks, every block exactly once.
\<close>

type_synonym tile = "nat \<times> nat"

definition covers :: "tile \<Rightarrow> nat \<Rightarrow> bool" where
  "covers p b \<longleftrightarrow> fst p \<le> b \<and> b < fst p + snd p"

definition tiles :: "nat \<Rightarrow> tile set \<Rightarrow> bool" where
  "tiles n T \<longleftrightarrow>
     (\<forall>p \<in> T. 0 < snd p \<and> fst p + snd p \<le> n) \<and>
     (\<forall>b < n. \<exists>p \<in> T. covers p b) \<and>
     (\<forall>p \<in> T. \<forall>q \<in> T. \<forall>b. covers p b \<longrightarrow> covers q b \<longrightarrow> p = q)"

lemma tilesI:
  assumes "\<And>p. p \<in> T \<Longrightarrow> 0 < snd p \<and> fst p + snd p \<le> n"
    and "\<And>b. b < n \<Longrightarrow> \<exists>p \<in> T. covers p b"
    and "\<And>p q b. p \<in> T \<Longrightarrow> q \<in> T \<Longrightarrow> covers p b \<Longrightarrow> covers q b \<Longrightarrow> p = q"
  shows "tiles n T"
  using assms unfolding tiles_def by blast

lemma tiles_bound: "tiles n T \<Longrightarrow> p \<in> T \<Longrightarrow> 0 < snd p \<and> fst p + snd p \<le> n"
  by (simp add: tiles_def)

lemma tiles_cover: "tiles n T \<Longrightarrow> b < n \<Longrightarrow> \<exists>p \<in> T. covers p b"
  by (simp add: tiles_def)

lemma tiles_disjoint: "tiles n T \<Longrightarrow> p \<in> T \<Longrightarrow> q \<in> T \<Longrightarrow> covers p b \<Longrightarrow> covers q b \<Longrightarrow> p = q"
  unfolding tiles_def by blast

lemma covers_start: "0 < l \<Longrightarrow> covers (a, l) a"
  by (simp add: covers_def)

lemma tiles_offset_unique: "tiles n T \<Longrightarrow> (a, l) \<in> T \<Longrightarrow> (a, l') \<in> T \<Longrightarrow> l = l'"
  using tiles_bound [of n T "(a, l)"] tiles_bound [of n T "(a, l')"]
    tiles_disjoint [of n T "(a, l)" "(a, l')" a] by (simp add: covers_def)

lemma tiles_single: "0 < n \<Longrightarrow> tiles n {(0, n)}"
  by (rule tilesI) (auto simp: covers_def)

text \<open>No tile starts inside another one.\<close>

lemma tiles_inside:
  assumes "tiles n T" "(a, l) \<in> T" "(b, k) \<in> T" "a < b" "b < a + l"
  shows False
proof -
  have "0 < k" using tiles_bound [OF assms(1,3)] by simp
  then have "covers (b, k) b" "covers (a, l) b" using assms(4,5) by (auto simp: covers_def)
  then have "(a, l) = (b, k)" using tiles_disjoint [OF assms(1-3)] by blast
  with assms(4) show False by simp
qed

text \<open>The tile after a tile starts where that one ends.\<close>

lemma tiles_next:
  assumes "tiles n T" "(a, l) \<in> T" "a + l < n"
  shows "\<exists>k. (a + l, k) \<in> T"
proof -
  obtain b k where bk: "(b, k) \<in> T" "covers (b, k) (a + l)"
    using tiles_cover [OF assms(1,3)] by auto
  have "0 < l" using tiles_bound [OF assms(1,2)] by simp
  have "b = a + l"
  proof (rule ccontr)
    assume "b \<noteq> a + l"
    then have "covers (b, k) (a + l - 1)" using bk(2) \<open>0 < l\<close> by (auto simp: covers_def)
    moreover have "covers (a, l) (a + l - 1)" using \<open>0 < l\<close> by (auto simp: covers_def)
    ultimately have "(b, k) = (a, l)" using tiles_disjoint [OF assms(1) bk(1) assms(2)] by blast
    with bk(2) show False by (simp add: covers_def)
  qed
  with bk(1) show ?thesis by blast
qed

lemma tiles_split:
  assumes "tiles n T" "(a, l + k) \<in> T" "0 < l" "0 < k"
  shows "tiles n (insert (a, l) (insert (a + l, k) (T - {(a, l + k)})))"
proof (rule tilesI)
  fix p assume "p \<in> insert (a, l) (insert (a + l, k) (T - {(a, l + k)}))"
  then show "0 < snd p \<and> fst p + snd p \<le> n"
    using tiles_bound [OF assms(1)] assms(2-4) by fastforce
next
  fix b assume "b < n"
  then obtain p where "p \<in> T" "covers p b" using tiles_cover [OF assms(1)] by blast
  then show "\<exists>p \<in> insert (a, l) (insert (a + l, k) (T - {(a, l + k)})). covers p b"
    by (cases "p = (a, l + k)") (auto simp: covers_def)
next
  fix p q b
  assume p: "p \<in> insert (a, l) (insert (a + l, k) (T - {(a, l + k)}))" "covers p b"
    and q: "q \<in> insert (a, l) (insert (a + l, k) (T - {(a, l + k)}))" "covers q b"
  have new: "covers (a, l) b \<Longrightarrow> covers (a, l + k) b" "covers (a + l, k) b \<Longrightarrow> covers (a, l + k) b"
    "\<not> (covers (a, l) b \<and> covers (a + l, k) b)" by (auto simp: covers_def)
  have old: "r = (a, l + k)" if "r \<in> T" "covers r b" "covers (a, l + k) b" for r
    using tiles_disjoint [OF assms(1) that(1) assms(2)] that(2,3) by blast
  show "p = q"
    using p q new old tiles_disjoint [OF assms(1), of p q b] by blast
qed

lemma tiles_merge:
  assumes "tiles n T" "(a, l) \<in> T" "(a + l, k) \<in> T"
  shows "tiles n (insert (a, l + k) (T - {(a, l), (a + l, k)}))"
proof (rule tilesI)
  fix p assume "p \<in> insert (a, l + k) (T - {(a, l), (a + l, k)})"
  then show "0 < snd p \<and> fst p + snd p \<le> n"
    using tiles_bound [OF assms(1)] assms(2,3) by fastforce
next
  fix b assume "b < n"
  then obtain p where "p \<in> T" "covers p b" using tiles_cover [OF assms(1)] by blast
  then show "\<exists>p \<in> insert (a, l + k) (T - {(a, l), (a + l, k)}). covers p b"
    by (cases "p = (a, l) \<or> p = (a + l, k)") (auto simp: covers_def)
next
  fix p q b
  assume p: "p \<in> insert (a, l + k) (T - {(a, l), (a + l, k)})" "covers p b"
    and q: "q \<in> insert (a, l + k) (T - {(a, l), (a + l, k)})" "covers q b"
  have new: "covers (a, l + k) b \<Longrightarrow> covers (a, l) b \<or> covers (a + l, k) b"
    by (auto simp: covers_def)
  have old: "r = (a, l) \<or> r = (a + l, k)" if "r \<in> T" "covers r b" "covers (a, l + k) b" for r
    using tiles_disjoint [OF assms(1) that(1) assms(2)] tiles_disjoint [OF assms(1) that(1) assms(3)]
      new [OF that(3)] that(2) by blast
  show "p = q"
    using p q old tiles_disjoint [OF assms(1), of p q b] by blast
qed

end
