(* ===== verification/Extent.thy ===== *)
theory Extent
  imports Heap Tiling
begin

text \<open>
  The extent allocator, \<open>src/metal-filesystem/src/extent.c\<close>.  The storage is divided into extents,
  runs of blocks that are free, reserved or committed; the database \<open>extents\<close> maps the offset of
  an extent to its description, and every free extent is also a node of the heap, with its length
  as priority.
\<close>

section \<open>Data\<close>

datatype mtl_extent_status = MTL_FREE | MTL_RESERVED | MTL_COMMITTED

record mtl_extent =
  ext_length :: u64
  ext_status :: mtl_extent_status
  pq_node :: mtl_heap_node_id

text \<open>\<open>mtl_file_extent\<close> of storage.h: a run of blocks of a file.\<close>

record mtl_file_extent =
  fe_offset :: u64
  fe_length :: u64

definition EXTENTS_DB_NAME :: string where
  "EXTENTS_DB_NAME = ''extents''"

text \<open>The values of the C enumeration; the sources only ever compare with \<open>MTL_FREE\<close>.\<close>

definition enc_status :: "mtl_extent_status \<Rightarrow> u32" where
  "enc_status s = (case s of MTL_FREE \<Rightarrow> 0 | MTL_RESERVED \<Rightarrow> 1 | MTL_COMMITTED \<Rightarrow> 2)"

definition dec_status :: "u32 \<Rightarrow> mtl_extent_status" where
  "dec_status n = (if n = 0 then MTL_FREE else if n = 1 then MTL_RESERVED else MTL_COMMITTED)"

text \<open>The layout of the struct: 8 bytes, 4 bytes, 4 bytes of padding, 16 bytes.\<close>

definition enc_extent :: "mtl_extent \<Rightarrow> bytes" where
  "enc_extent e = enc64 (ext_length e) @ enc32 (enc_status (ext_status e)) @ replicate 4 0 @
     enc_node_id (pq_node e)"

definition dec_extent :: "bytes \<Rightarrow> mtl_extent" where
  "dec_extent bs = \<lparr>ext_length = dec64 bs, ext_status = dec_status (dec32 (drop 8 bs)),
     pq_node = dec_node_id (drop 16 bs)\<rparr>"

section \<open>Operations\<close>

text \<open>The second component is \<open>*extent\<close>, \<^term>\<open>None\<close> where the call leaves it unwritten.\<close>

definition mtl_load_extent :: "'t mdb_ops \<Rightarrow> 't \<Rightarrow> u64 \<Rightarrow> int \<times> mtl_extent option" where
  "mtl_load_extent L t offset =
     (case mdb_get L t EXTENTS_DB_NAME (enc64 offset) of
        None \<Rightarrow> (MTL_ERROR_NOENTRY, None)
      | Some val \<Rightarrow> (MTL_SUCCESS, Some (dec_extent val)))"

definition mtl_put_extent :: "'t mdb_ops \<Rightarrow> 't \<Rightarrow> u64 \<Rightarrow> mtl_extent \<Rightarrow> int \<times> 't" where
  "mtl_put_extent L t offset extent =
     (MTL_SUCCESS, mdb_put L t EXTENTS_DB_NAME (enc64 offset) (enc_extent extent))"

definition mtl_initialize_extents :: "'t mdb_ops \<Rightarrow> 't \<Rightarrow> u64 \<Rightarrow> int \<times> 't" where
  "mtl_initialize_extents L t blocks =
     (if fst (mtl_load_extent L t 0) = MTL_ERROR_NOENTRY then
        let (_, t1, node) = mtl_heap_insert L t blocks 0;
            (_, t2) = mtl_put_extent L t1 0
              \<lparr>ext_length = blocks, ext_status = MTL_FREE, pq_node = node\<rparr>
        in (MTL_SUCCESS, t2)
      else (MTL_SUCCESS, t))"

text \<open>
  \<open>mtl_reserve_extent\<close> in its three stages.  The first two yield the selected extent as its
  offset, its description, \<open>original_extent_length\<close> and \<open>append_extent_length\<close>, or \<^term>\<open>None\<close> where
  the C variable \<open>extent\<close> is still NULL; the outer \<^typ>\<open>'a option\<close> is a failed \<open>assert\<close>.
\<close>

type_synonym selection = "u64 \<times> mtl_extent \<times> u64 \<times> u64"

definition reserve_extend_last ::
  "'t mdb_ops \<Rightarrow> 't \<Rightarrow> mtl_file_extent option \<Rightarrow> (selection option \<times> 't) option" where
  "reserve_extend_last L t last_extent =
     (case last_extent of
        None \<Rightarrow> Some (None, t)
      | Some le \<Rightarrow>
          let next_extent_offset = fe_offset le + fe_length le
          in case mtl_load_extent L t next_extent_offset of
               (_, None) \<Rightarrow> Some (None, t)
             | (_, Some next_extent) \<Rightarrow>
                 if ext_status next_extent = MTL_FREE then
                   let (res, t1) = mtl_heap_delete L t (pq_node next_extent)
                   in if res \<noteq> MTL_SUCCESS then None
                      else do {
                        t2 \<leftarrow> mdb_del L t1 EXTENTS_DB_NAME (enc64 next_extent_offset);
                        extent \<leftarrow> snd (mtl_load_extent L t2 (fe_offset le));
                        Some (Some (fe_offset le, extent, ext_length extent,
                                    ext_length next_extent), t2)
                      }
                 else Some (None, t))"

definition reserve_pop_heap :: "'t mdb_ops \<Rightarrow> 't \<Rightarrow> (selection option \<times> 't) option" where
  "reserve_pop_heap L t =
     (let (res, max_value, t1) = mtl_heap_extract_max L t
      in if res = MTL_ERROR_NOENTRY then Some (None, t1)
         else do {
           extent_offset \<leftarrow> max_value;
           extent \<leftarrow> snd (mtl_load_extent L t1 extent_offset);
           Some (Some (extent_offset, extent, 0, 0), t1)
         })"

definition reserve_take ::
  "'t mdb_ops \<Rightarrow> 't \<Rightarrow> selection \<Rightarrow> u64 \<Rightarrow> bool \<Rightarrow> u64 \<times> u64 \<times> 't" where
  "reserve_take L t sel sz commit =
     (let (extent_offset, extent, original_extent_length, append_extent_length) = sel;
          extent_length = ext_length extent + append_extent_length;
          total_needed_size = original_extent_length + sz;
          (t1, updated_length, extent_length') =
            (if total_needed_size < extent_length then
               let remaining_extent_offset = extent_offset + total_needed_size;
                   remaining_extent_length = extent_length - total_needed_size;
                   (_, t0, node) = mtl_heap_insert L t remaining_extent_length remaining_extent_offset;
                   (_, t0') = mtl_put_extent L t0 remaining_extent_offset
                     \<lparr>ext_length = remaining_extent_length, ext_status = MTL_FREE, pq_node = node\<rparr>
               in (t0', total_needed_size, total_needed_size)
             else (t, ext_length extent, extent_length));
          (_, t2) = mtl_put_extent L t1 extent_offset
            (extent\<lparr>ext_length := updated_length,
                    ext_status := (if commit then MTL_COMMITTED else MTL_RESERVED)\<rparr>)
      in (extent_length' - original_extent_length, extent_offset, t2))"

text \<open>
  The result is the number of new blocks, \<open>*offset\<close> (\<^term>\<open>None\<close> where it is left unwritten) and
  the transaction.
\<close>

definition mtl_reserve_extent ::
  "'t mdb_ops \<Rightarrow> 't \<Rightarrow> u64 \<Rightarrow> mtl_file_extent option \<Rightarrow> bool \<Rightarrow> (u64 \<times> u64 option \<times> 't) option" where
  "mtl_reserve_extent L t sz last_extent commit = do {
     (sel, t1) \<leftarrow> reserve_extend_last L t last_extent;
     (sel', t2) \<leftarrow> (case sel of None \<Rightarrow> reserve_pop_heap L t1 | Some s \<Rightarrow> Some (Some s, t1));
     case sel' of
       None \<Rightarrow> Some (0, None, t2)
     | Some s \<Rightarrow>
         let (n, offset, t3) = reserve_take L t2 s sz commit
         in Some (n, Some offset, t3)
   }"

text \<open>
  \<open>mtl_free_extent\<close> in its three stages: the two neighbour checks, each of which places the cursor
  on the extent with \<open>MDB_SET\<close> and reads \<open>MDB_NEXT\<close>, and the update of heap and database.
\<close>

definition free_merge_next :: "'t mdb_ops \<Rightarrow> 't \<Rightarrow> u64 \<Rightarrow> u64 \<Rightarrow> u64 \<times> 't" where
  "free_merge_next L t offset extent_size =
     (case mdb_cursor_next L t EXTENTS_DB_NAME (enc64 offset) of
        None \<Rightarrow> (extent_size, t)
      | Some (next_key, val) \<Rightarrow>
          let next_extent = dec_extent val
          in if ext_status next_extent = MTL_FREE then
               let (_, t1) = mtl_heap_delete L t (pq_node next_extent)
               in (extent_size + ext_length next_extent,
                   mdb_cursor_del L t1 EXTENTS_DB_NAME next_key)
             else (extent_size, t))"

definition free_merge_previous ::
  "'t mdb_ops \<Rightarrow> 't \<Rightarrow> u64 \<Rightarrow> u64 \<Rightarrow> u64 \<times> u64 \<times> mtl_heap_node_id \<times> 't" where
  "free_merge_previous L t offset extent_size =
     (case mdb_cursor_next L t EXTENTS_DB_NAME (enc64 offset) of
        None \<Rightarrow> (offset, extent_size, INVALID_NODE, t)
      | Some (previous_key, val) \<Rightarrow>
          let previous_extent = dec_extent val
          in if ext_status previous_extent = MTL_FREE then
               (dec64 previous_key, extent_size + ext_length previous_extent,
                pq_node previous_extent, mdb_cursor_del L t EXTENTS_DB_NAME (enc64 offset))
             else (offset, extent_size, INVALID_NODE, t))"

definition free_finish ::
  "'t mdb_ops \<Rightarrow> 't \<Rightarrow> u64 \<Rightarrow> u64 \<Rightarrow> mtl_heap_node_id \<Rightarrow> 't" where
  "free_finish L t extent_offset extent_size pq =
     (let (t1, node) =
            (if pq \<noteq> INVALID_NODE then
               let (_, t', updated) = mtl_heap_increase_key L t pq extent_size
               in (t', case updated of None \<Rightarrow> pq | Some n \<Rightarrow> n)
             else let (_, t', n) = mtl_heap_insert L t extent_size extent_offset in (t', n))
      in snd (mtl_put_extent L t1 extent_offset
           \<lparr>ext_length = extent_size, ext_status = MTL_FREE, pq_node = node\<rparr>))"

text \<open>\<^term>\<open>None\<close>: there is no extent at the offset, and the code dereferences NULL.\<close>

definition mtl_free_extent :: "'t mdb_ops \<Rightarrow> 't \<Rightarrow> u64 \<Rightarrow> (int \<times> 't) option" where
  "mtl_free_extent L t offset = do {
     extent \<leftarrow> snd (mtl_load_extent L t offset);
     let (size1, t1) = free_merge_next L t offset (ext_length extent);
         (extent_offset, size2, pq, t2) = free_merge_previous L t1 offset size1
     in Some (MTL_SUCCESS, free_finish L t2 extent_offset size2 pq)
   }"

text \<open>
  The length of the extent is read through the pointer from \<open>mdb_get\<close> after the extent has been
  updated, when LMDB no longer vouches for that memory.
\<close>

definition mtl_truncate_extent :: "'t mdb_ops \<Rightarrow> 't \<Rightarrow> u64 \<Rightarrow> u64 \<Rightarrow> (int \<times> 't) option" where
  "mtl_truncate_extent L t offset len =
     (if len = 0 then mtl_free_extent L t offset
      else do {
        extent \<leftarrow> snd (mtl_load_extent L t offset);
        let (_, t1) = mtl_put_extent L t offset
              (extent\<lparr>ext_status := MTL_COMMITTED, ext_length := len\<rparr>);
            outdated = dec_extent (mdb_reread L t t1 EXTENTS_DB_NAME (enc64 offset))
        in if len < ext_length outdated then
             let (_, t2) = mtl_put_extent L t1 (offset + len)
                   \<lparr>ext_length = ext_length outdated - len, ext_status = MTL_RESERVED,
                    pq_node = INVALID_NODE\<rparr>
             in mtl_free_extent L t2 (offset + len)
           else Some (MTL_SUCCESS, t1)
      })"

section \<open>Abstract view\<close>

definition extents_of :: "'t mdb_ops \<Rightarrow> 't \<Rightarrow> u64 \<Rightarrow> mtl_extent option" where
  "extents_of L t offset = snd (mtl_load_extent L t offset)"

definition extent_keys_wf :: "'t mdb_ops \<Rightarrow> 't \<Rightarrow> bool" where
  "extent_keys_wf L t \<longleftrightarrow> (\<forall>k. mdb_get L t EXTENTS_DB_NAME k \<noteq> None \<longrightarrow> length k = 8)"

definition ext_tiles :: "(u64 \<rightharpoonup> mtl_extent) \<Rightarrow> tile set" where
  "ext_tiles M = {(unat a, unat (ext_length e)) | a e. M a = Some e}"

definition free_nodes :: "(u64 \<rightharpoonup> mtl_extent) \<Rightarrow> mtl_heap_node_id set" where
  "free_nodes M = {\<lparr>node_k = ext_length e, node_v = a\<rparr> | a e.
     M a = Some e \<and> ext_status e = MTL_FREE}"

text \<open>
  The allocator's invariant on an extent map and a heap: the extents tile the storage, a free
  extent knows its heap node, and the heap holds the nodes of the free extents and no others.
\<close>

definition alloc_inv :: "nat \<Rightarrow> (u64 \<rightharpoonup> mtl_extent) \<Rightarrow> mtl_heap_node_id set \<Rightarrow> bool" where
  "alloc_inv n M H \<longleftrightarrow> n < 2 ^ 64 \<and> tiles n (ext_tiles M) \<and> H = free_nodes M \<and>
     (\<forall>a e. M a = Some e \<longrightarrow> ext_status e = MTL_FREE \<longrightarrow>
        pq_node e = \<lparr>node_k = ext_length e, node_v = a\<rparr>)"

definition extents_inv :: "'t mdb_ops \<Rightarrow> nat \<Rightarrow> 't \<Rightarrow> bool" where
  "extents_inv L n t \<longleftrightarrow> heap_wf L t \<and> extent_keys_wf L t \<and>
     alloc_inv n (extents_of L t) (heap_nodes L t)"

text \<open>No two free extents touch.\<close>

definition no_adjacent_free :: "(u64 \<rightharpoonup> mtl_extent) \<Rightarrow> bool" where
  "no_adjacent_free M \<longleftrightarrow> (\<forall>a e e'. M a = Some e \<longrightarrow> M (a + ext_length e) = Some e' \<longrightarrow>
     \<not> (ext_status e = MTL_FREE \<and> ext_status e' = MTL_FREE))"

text \<open>The number of blocks in free extents.\<close>

definition free_blocks :: "(u64 \<rightharpoonup> mtl_extent) \<Rightarrow> nat set" where
  "free_blocks M = {b. \<exists>a e. M a = Some e \<and> ext_status e = MTL_FREE \<and>
     covers (unat a, unat (ext_length e)) b}"


text \<open>What the allocator does not touch.\<close>

definition beside_extents :: "'t mdb_ops \<Rightarrow> 't \<Rightarrow> string \<Rightarrow> bytes \<Rightarrow> bytes option" where
  "beside_extents L t db k =
     (if db = HEAP_DB_NAME \<or> db = EXTENTS_DB_NAME then None else mdb_get L t db k)"

section \<open>Lemmas on the layout\<close>

lemma db_names [simp]: "HEAP_DB_NAME \<noteq> EXTENTS_DB_NAME" "EXTENTS_DB_NAME \<noteq> HEAP_DB_NAME"
  by (simp_all add: HEAP_DB_NAME_def EXTENTS_DB_NAME_def)

lemma dec_status_enc [simp, codec]: "dec_status (enc_status s) = s"
  by (cases s) (simp_all add: enc_status_def dec_status_def)

lemma length_enc_extent [simp, codec]: "length (enc_extent e) = 32"
  by (simp add: enc_extent_def)

lemma dec_extent_enc [simp, codec]: "dec_extent (enc_extent e) = e"
  by (simp add: dec_extent_def enc_extent_def)

lemma mdb_key_ok_enc64 [simp]: "mdb_key_ok (enc64 a)"
  by (simp add: mdb_key_ok_def)

section \<open>Lemmas on extent maps\<close>

lemma ext_tiles_insert:
  "ext_tiles (M(a \<mapsto> e)) = insert (unat a, unat (ext_length e)) (ext_tiles (M(a := None)))"
  by (auto simp: ext_tiles_def split: if_splits)

lemma ext_tiles_remove:
  "M a = Some e \<Longrightarrow> ext_tiles (M(a := None)) = ext_tiles M - {(unat a, unat (ext_length e))}"
  unfolding ext_tiles_def
  by (auto simp: word_eq_unat [symmetric] split: if_splits) (metis option.inject)

lemma ext_tiles_remove_None: "M a = None \<Longrightarrow> M(a := None) = M"
  by auto

lemma free_nodes_insert:
  "free_nodes (M(a \<mapsto> e)) =
     (if ext_status e = MTL_FREE then insert \<lparr>node_k = ext_length e, node_v = a\<rparr> else id)
       (free_nodes (M(a := None)))"
  by (auto simp: free_nodes_def split: if_splits)

lemma free_nodes_remove: "free_nodes (M(a := None)) = {n \<in> free_nodes M. node_v n \<noteq> a}"
  by (auto simp: free_nodes_def)

lemma free_nodesD: "n \<in> free_nodes M \<Longrightarrow>
    \<exists>e. M (node_v n) = Some e \<and> ext_status e = MTL_FREE \<and> node_k n = ext_length e"
  by (auto simp: free_nodes_def)

lemma free_nodes_iff: "n \<in> free_nodes M \<longleftrightarrow>
    (\<exists>e. M (node_v n) = Some e \<and> ext_status e = MTL_FREE \<and> node_k n = ext_length e)"
proof
  assume "\<exists>e. M (node_v n) = Some e \<and> ext_status e = MTL_FREE \<and> node_k n = ext_length e"
  then show "n \<in> free_nodes M" unfolding free_nodes_def by (cases n) force
qed (rule free_nodesD)

lemma node_eq_iff: "n = \<lparr>node_k = k, node_v = v\<rparr> \<longleftrightarrow> node_k n = k \<and> node_v n = v"
  by (cases n) auto

lemma free_nodes_not_free:
  "M a = Some e \<Longrightarrow> ext_status e \<noteq> MTL_FREE \<Longrightarrow> n \<in> free_nodes M \<Longrightarrow> node_v n \<noteq> a"
  by (auto simp: free_nodes_def)

lemma free_nodes_single:
  "M a = Some e \<Longrightarrow> ext_status e = MTL_FREE \<Longrightarrow>
     {n \<in> free_nodes M. node_v n \<noteq> a} = free_nodes M - {\<lparr>node_k = ext_length e, node_v = a\<rparr>}"
  by (auto simp: free_nodes_def)

lemma ext_tiles_mem: "M a = Some e \<Longrightarrow> (unat a, unat (ext_length e)) \<in> ext_tiles M"
  by (auto simp: ext_tiles_def)

lemma ext_tilesE:
  assumes "(x, y) \<in> ext_tiles M"
  obtains a e where "M a = Some e" "x = unat a" "y = unat (ext_length e)"
  using assms by (auto simp: ext_tiles_def)

lemma alloc_inv_bound:
  assumes "alloc_inv n M H" "M a = Some e"
  shows "0 < unat (ext_length e)" "unat a + unat (ext_length e) \<le> n"
    "unat a + unat (ext_length e) < 2 ^ 64"
    "unat (a + ext_length e) = unat a + unat (ext_length e)"
proof -
  have "0 < unat (ext_length e) \<and> unat a + unat (ext_length e) \<le> n"
    using assms(1) tiles_bound [of n "ext_tiles M" "(unat a, unat (ext_length e))"]
      ext_tiles_mem [of M a e] assms(2) by (simp add: alloc_inv_def)
  then show "0 < unat (ext_length e)" "unat a + unat (ext_length e) \<le> n"
    "unat a + unat (ext_length e) < 2 ^ 64"
    "unat (a + ext_length e) = unat a + unat (ext_length e)"
    using assms(1) by (auto simp: alloc_inv_def unat_add_exact)
qed

text \<open>Inside an extent no other one begins.\<close>

lemma alloc_inv_inside:
  assumes "alloc_inv n M H" "M a = Some e" "0 < unat l" "unat l < unat (ext_length e)"
  shows "unat (a + l) = unat a + unat l" "M (a + l) = None"
proof -
  show u: "unat (a + l) = unat a + unat l"
    using alloc_inv_bound(3) [of n M H a e] assms(1,2) assms(4) by (simp add: unat_add_exact)
  show "M (a + l) = None"
  proof (rule ccontr)
    assume "M (a + l) \<noteq> None"
    then obtain e' where "M (a + l) = Some e'" by auto
    then have "(unat a + unat l, unat (ext_length e')) \<in> ext_tiles M"
      using ext_tiles_mem [of M "a + l" e'] u by simp
    then show False
      using tiles_inside [of n "ext_tiles M" "unat a" "unat (ext_length e)" "unat a + unat l"
          "unat (ext_length e')"] assms ext_tiles_mem [of M a e] by (simp add: alloc_inv_def)
  qed
qed

text \<open>Marking an extent, with a description of the same length, keeps the tiling.\<close>

lemma alloc_inv_mark:
  assumes "alloc_inv n M H" "M a = Some e" "ext_length e' = ext_length e"
    and "ext_status e' = MTL_FREE \<longrightarrow> pq_node e' = \<lparr>node_k = ext_length e', node_v = a\<rparr>"
  shows "alloc_inv n (M(a \<mapsto> e')) (free_nodes (M(a \<mapsto> e')))"
  using assms ext_tiles_mem [of M a e]
  by (auto simp: alloc_inv_def ext_tiles_insert ext_tiles_remove insert_absorb)

text \<open>Splitting an extent in two.\<close>

lemma alloc_inv_split:
  assumes "alloc_inv n M H" "M a = Some e" "0 < unat l" "unat l < unat (ext_length e)"
    and "ext_length e1 = l" "ext_length e2 = ext_length e - l"
    and "ext_status e1 = MTL_FREE \<longrightarrow> pq_node e1 = \<lparr>node_k = ext_length e1, node_v = a\<rparr>"
    and "ext_status e2 = MTL_FREE \<longrightarrow> pq_node e2 = \<lparr>node_k = ext_length e2, node_v = a + l\<rparr>"
  shows "alloc_inv n (M(a + l \<mapsto> e2, a \<mapsto> e1)) (free_nodes (M(a + l \<mapsto> e2, a \<mapsto> e1)))"
proof -
  note ins = alloc_inv_inside [of n M H a e l, OF assms(1-4)]
  have ne: "a + l \<noteq> a" using ins(1) assms(3) by auto
  have len2: "unat (ext_length e2) = unat (ext_length e) - unat l"
    using assms(4,6) by (simp add: unat_sub_exact)
  have "ext_tiles (M(a + l \<mapsto> e2, a \<mapsto> e1)) =
      insert (unat a, unat l) (insert (unat a + unat l, unat (ext_length e) - unat l)
        (ext_tiles M - {(unat a, unat (ext_length e))}))"
    using ne ins assms(2,5) len2
    by (simp add: ext_tiles_insert fun_upd_twist [OF ne] ext_tiles_remove [of M a e]
        ext_tiles_remove_None insert_commute)
  moreover have "tiles n \<dots>"
    using tiles_split [of n "ext_tiles M" "unat a" "unat l" "unat (ext_length e) - unat l"]
      assms(1-4) ext_tiles_mem [of M a e] by (simp add: alloc_inv_def)
  ultimately show ?thesis using assms(1,7,8) by (auto simp: alloc_inv_def)
qed

text \<open>Joining an extent with the one that begins where it ends.\<close>

lemma alloc_inv_join:
  assumes "alloc_inv n M H" "M a = Some e" "M (a + ext_length e) = Some e'"
    and "ext_length e1 = ext_length e + ext_length e'"
    and "ext_status e1 = MTL_FREE \<longrightarrow> pq_node e1 = \<lparr>node_k = ext_length e1, node_v = a\<rparr>"
  shows "alloc_inv n (M(a + ext_length e := None, a \<mapsto> e1))
      (free_nodes (M(a + ext_length e := None, a \<mapsto> e1)))"
proof -
  let ?b = "a + ext_length e"
  note b1 = alloc_inv_bound [of n M H a e, OF assms(1,2)]
    and b2 = alloc_inv_bound [of n M H ?b e', OF assms(1,3)]
  have ne: "?b \<noteq> a" using b1(1,4) by auto
  have len: "unat (ext_length e1) = unat (ext_length e) + unat (ext_length e')"
    using b1(4) b2(2) assms(1,4) by (simp add: alloc_inv_def unat_add_exact)
  have Mb: "(M(a := None)) ?b = Some e'" using ne assms(3) by simp
  have twist: "M(?b := None, a := None) = M(a := None, ?b := None)" using ne by auto
  have "ext_tiles (M(?b := None, a \<mapsto> e1)) =
      insert (unat a, unat (ext_length e) + unat (ext_length e'))
        (ext_tiles M - {(unat a, unat (ext_length e)),
          (unat a + unat (ext_length e), unat (ext_length e'))})"
    using len b1(4) ext_tiles_remove [of "M(a := None)" ?b e', OF Mb]
      ext_tiles_remove [of M a e, OF assms(2)]
    by (simp add: ext_tiles_insert twist) auto
  moreover have "tiles n \<dots>"
    using tiles_merge [of n "ext_tiles M" "unat a" "unat (ext_length e)" "unat (ext_length e')"]
      assms(1-3) ext_tiles_mem [of M a e] ext_tiles_mem [of M ?b e'] b1(4)
    by (simp add: alloc_inv_def)
  ultimately show ?thesis using assms(1,5) by (auto simp: alloc_inv_def)
qed

text \<open>Whether the extent that follows the given file extent is free.\<close>

definition extendable :: "(u64 \<rightharpoonup> mtl_extent) \<Rightarrow> mtl_file_extent option \<Rightarrow> bool" where
  "extendable M last_extent \<longleftrightarrow> (\<exists>le e. last_extent = Some le \<and>
     M (fe_offset le + fe_length le) = Some e \<and> ext_status e = MTL_FREE)"

text \<open>The first \<open>k\<close> blocks of the extent at \<open>a\<close> are taken, what is left of it stays free.\<close>

definition take_front ::
  "(u64 \<rightharpoonup> mtl_extent) \<Rightarrow> u64 \<Rightarrow> mtl_extent \<Rightarrow> u64 \<Rightarrow> bool \<Rightarrow> (u64 \<rightharpoonup> mtl_extent)" where
  "take_front M a e k commit =
     (let e' = e\<lparr>ext_length := k, ext_status := (if commit then MTL_COMMITTED else MTL_RESERVED)\<rparr>;
          rest = \<lparr>ext_length = ext_length e - k, ext_status = MTL_FREE,
            pq_node = \<lparr>node_k = ext_length e - k, node_v = a + k\<rparr>\<rparr>
      in if k < ext_length e then M(a + k \<mapsto> rest, a \<mapsto> e') else M(a \<mapsto> e'))"

lemma take_front_inv:
  assumes "alloc_inv n M H" "M a = Some e" "ext_status e = MTL_FREE"
    and "0 < unat k" "k \<le> ext_length e"
  shows "alloc_inv n (take_front M a e k commit) (free_nodes (take_front M a e k commit))"
proof (cases "k < ext_length e")
  case True
  then show ?thesis
    using alloc_inv_split [of n M H a e k] assms
    by (simp add: take_front_def Let_def word_less_nat_alt)
next
  case False
  then have "k = ext_length e" using assms(5) by simp
  then show ?thesis
    using alloc_inv_mark [of n M H a e] assms by (simp add: take_front_def Let_def)
qed

lemma take_front_nodes:
  assumes "alloc_inv n M H" "M a = Some e" "ext_status e = MTL_FREE" "0 < unat k"
  shows "free_nodes (take_front M a e k commit) =
     (if k < ext_length e
      then insert \<lparr>node_k = ext_length e - k, node_v = a + k\<rparr>
        (free_nodes M - {\<lparr>node_k = ext_length e, node_v = a\<rparr>})
      else free_nodes M - {\<lparr>node_k = ext_length e, node_v = a\<rparr>})"
proof -
  have "M (a + k) = None \<and> a + k \<noteq> a" if "k < ext_length e"
    using alloc_inv_inside [of n M H a e k] assms that by (auto simp: word_less_nat_alt)
  then show ?thesis
    using assms(2,3)
    by (intro set_eqI) (auto simp: take_front_def Let_def free_nodes_iff node_eq_iff)
qed

text \<open>The extent at \<open>a\<close> grows by the first \<open>k\<close> blocks of the free extent that follows it.\<close>

definition grow_into_next ::
  "(u64 \<rightharpoonup> mtl_extent) \<Rightarrow> u64 \<Rightarrow> mtl_extent \<Rightarrow> mtl_extent \<Rightarrow> u64 \<Rightarrow> bool \<Rightarrow> (u64 \<rightharpoonup> mtl_extent)"
where
  "grow_into_next M a e nx k commit =
     M(a + ext_length e := None,
       a + (ext_length e + k) \<mapsto> \<lparr>ext_length = ext_length nx - k, ext_status = MTL_FREE,
         pq_node = \<lparr>node_k = ext_length nx - k, node_v = a + (ext_length e + k)\<rparr>\<rparr>,
       a \<mapsto> e\<lparr>ext_length := ext_length e + k,
             ext_status := (if commit then MTL_COMMITTED else MTL_RESERVED)\<rparr>)"

lemma grow_into_next_inv:
  assumes "alloc_inv n M H" "M a = Some e" "ext_status e \<noteq> MTL_FREE"
    and "M (a + ext_length e) = Some nx" "ext_status nx = MTL_FREE"
    and "0 < unat k" "unat k < unat (ext_length nx)"
  shows "alloc_inv n (grow_into_next M a e nx k commit)
      (free_nodes (grow_into_next M a e nx k commit))"
    and "free_nodes (grow_into_next M a e nx k commit) =
      insert \<lparr>node_k = ext_length nx - k, node_v = a + (ext_length e + k)\<rparr>
        (free_nodes M - {\<lparr>node_k = ext_length nx, node_v = a + ext_length e\<rparr>})"
proof -
  let ?b = "a + ext_length e" and ?st = "if commit then MTL_COMMITTED else MTL_RESERVED"
  let ?e1 = "e\<lparr>ext_length := ext_length e + ext_length nx, ext_status := ?st\<rparr>"
  let ?M1 = "M(?b := None, a \<mapsto> ?e1)"
  note b1 = alloc_inv_bound [of n M H a e, OF assms(1,2)]
    and b2 = alloc_inv_bound [of n M H ?b nx, OF assms(1,4)]
  have j: "alloc_inv n ?M1 (free_nodes ?M1)"
    using alloc_inv_join [of n M H a e nx ?e1] assms(1,2,4) by simp
  have len: "unat (ext_length e + ext_length nx) = unat (ext_length e) + unat (ext_length nx)"
    using b1(4) b2(3) by (simp add: unat_add_exact)
  have tot: "unat (ext_length e + k) = unat (ext_length e) + unat k"
    using len b1(4) b2(3) assms(7) by (simp add: unat_add_exact)
  have sub: "ext_length e + ext_length nx - (ext_length e + k) = ext_length nx - k" by simp
  have "0 < unat (ext_length e + k)" "unat (ext_length e + k) < unat (ext_length ?e1)"
    using tot len assms(6,7) by simp_all
  note inner = alloc_inv_inside [of n ?M1 _ a ?e1, OF j _ this]
  have ne: "?b \<noteq> a" "a + (ext_length e + k) \<noteq> a" "a + (ext_length e + k) \<noteq> ?b"
    using b1(1,4) inner(1) tot assms(6) by (auto simp: word_eq_unat)
  have "grow_into_next M a e nx k commit =
      ?M1(a + (ext_length e + k) \<mapsto> \<lparr>ext_length = ext_length nx - k, ext_status = MTL_FREE,
         pq_node = \<lparr>node_k = ext_length nx - k, node_v = a + (ext_length e + k)\<rparr>\<rparr>,
       a \<mapsto> e\<lparr>ext_length := ext_length e + k, ext_status := ?st\<rparr>)"
    using ne by (auto simp: grow_into_next_def)
  then show "alloc_inv n (grow_into_next M a e nx k commit)
      (free_nodes (grow_into_next M a e nx k commit))"
    using alloc_inv_split [of n ?M1 _ a ?e1 "ext_length e + k", OF j] tot len assms(6,7) by simp
  have "M (a + (ext_length e + k)) = None"
    using inner(2) ne by simp
  then show "free_nodes (grow_into_next M a e nx k commit) =
      insert \<lparr>node_k = ext_length nx - k, node_v = a + (ext_length e + k)\<rparr>
        (free_nodes M - {\<lparr>node_k = ext_length nx, node_v = ?b\<rparr>})"
    using ne assms(2-5)
    by (intro set_eqI) (auto simp: grow_into_next_def free_nodes_iff node_eq_iff)
qed

text \<open>
  The extent at \<open>b\<close> is the one a cursor finds after the extent at \<open>a\<close>: the next key in the order of
  the bytes, which need not be the next one in the order of the offsets.
\<close>

definition is_succ :: "(u64 \<rightharpoonup> mtl_extent) \<Rightarrow> u64 \<Rightarrow> u64 \<Rightarrow> bool" where
  "is_succ M a b \<longleftrightarrow> M b \<noteq> None \<and> enc64 a < enc64 b \<and>
     (\<forall>c. M c \<noteq> None \<longrightarrow> enc64 a < enc64 c \<longrightarrow> enc64 b \<le> enc64 c)"

definition byte_ordered :: "(u64 \<rightharpoonup> mtl_extent) \<Rightarrow> bool" where
  "byte_ordered M \<longleftrightarrow> (\<forall>a b. M a \<noteq> None \<longrightarrow> M b \<noteq> None \<longrightarrow> (enc64 a < enc64 b \<longleftrightarrow> a < b))"

definition succ_free :: "(u64 \<rightharpoonup> mtl_extent) \<Rightarrow> u64 \<Rightarrow> bool" where
  "succ_free M a \<longleftrightarrow> (\<exists>b e. is_succ M a b \<and> M b = Some e \<and> ext_status e = MTL_FREE)"

text \<open>The extent at \<open>a\<close> is free, with the given length.\<close>

definition free_ext :: "u64 \<Rightarrow> u64 \<Rightarrow> mtl_extent" where
  "free_ext a l = \<lparr>ext_length = l, ext_status = MTL_FREE, pq_node = \<lparr>node_k = l, node_v = a\<rparr>\<rparr>"

lemma free_ext_simps [simp]: "ext_length (free_ext a l) = l" "ext_status (free_ext a l) = MTL_FREE"
    "pq_node (free_ext a l) = \<lparr>node_k = l, node_v = a\<rparr>"
  by (simp_all add: free_ext_def)

lemma is_succ_unique: "is_succ M a b \<Longrightarrow> is_succ M a c \<Longrightarrow> b = c"
  by (meson antisym enc64_inject is_succ_def)

lemma is_succ_remove:
  assumes "is_succ M a b"
  shows "is_succ (M(b := None)) a c \<longleftrightarrow> is_succ M b c"
proof -
  have *: "enc64 a < enc64 d \<and> d \<noteq> b \<longleftrightarrow> enc64 b < enc64 d" if "M d \<noteq> None" for d
    using assms that unfolding is_succ_def
    by (metis enc64_inject less_le less_trans)
  show ?thesis
    unfolding is_succ_def using * by (auto simp: fun_upd_def)
qed

lemma small_byte_ordered: "alloc_inv n M H \<Longrightarrow> n \<le> 256 \<Longrightarrow> byte_ordered M"
proof -
  assume inv: "alloc_inv n M H" and n: "n \<le> 256"
  have "unat a < 256" if "M a \<noteq> None" for a
    using that alloc_inv_bound(1,2) [of n M H a, OF inv] n by fastforce
  then show "byte_ordered M" by (simp add: byte_ordered_def enc64_less_small)
qed

text \<open>Where the orders agree, the next key is that of the adjacent extent.\<close>

lemma is_succ_adjacent:
  assumes inv: "alloc_inv n M H" and ord: "byte_ordered M" and a: "M a = Some e"
  shows "is_succ M a b \<longleftrightarrow> b = a + ext_length e \<and> M b \<noteq> None"
proof -
  note bnd = alloc_inv_bound [of n M H a e, OF inv a]
  have after: "unat (a + ext_length e) \<le> unat c" if c: "M c = Some e'" "a < c" for c e'
  proof (rule ccontr)
    assume "\<not> unat (a + ext_length e) \<le> unat c"
    then show False
      using tiles_inside [of n "ext_tiles M" "unat a" "unat (ext_length e)" "unat c"
          "unat (ext_length e')"] inv c ext_tiles_mem [of M a e, OF a]
        ext_tiles_mem [of M c e', OF c(1)] bnd(4)
      by (simp add: alloc_inv_def word_less_nat_alt)
  qed
  have adj: "is_succ M a (a + ext_length e)" if "M (a + ext_length e) \<noteq> None"
  proof -
    have "enc64 (a + ext_length e) \<le> enc64 c" if "M c \<noteq> None" "enc64 a < enc64 c" for c
    proof -
      have "unat (a + ext_length e) \<le> unat c"
        using that after [of c] ord a by (auto simp: byte_ordered_def)
      then have "\<not> c < a + ext_length e" by (simp add: word_less_nat_alt)
      then show ?thesis
        using ord that(1) \<open>M (a + ext_length e) \<noteq> None\<close> by (simp add: byte_ordered_def not_less [symmetric])
    qed
    moreover have "enc64 a < enc64 (a + ext_length e)"
      using ord a that bnd(1,4) by (simp add: byte_ordered_def word_less_nat_alt)
    ultimately show ?thesis using that by (simp add: is_succ_def)
  qed
  have "M (a + ext_length e) \<noteq> None" if b: "is_succ M a b"
  proof -
    obtain e' where e': "M b = Some e'" "a < b"
      using b ord a by (auto simp: is_succ_def byte_ordered_def)
    have "unat a + unat (ext_length e) < n"
      using after [OF e'] alloc_inv_bound(1,2) [of n M H b e', OF inv e'(1)] bnd(4) by simp
    then obtain l where "(unat (a + ext_length e), l) \<in> ext_tiles M"
      using tiles_next [of n "ext_tiles M" "unat a" "unat (ext_length e)"] inv
        ext_tiles_mem [of M a e, OF a] bnd(4) by (auto simp: alloc_inv_def)
    then show ?thesis by (auto elim!: ext_tilesE simp: word_eq_unat [symmetric])
  qed
  then show ?thesis using adj is_succ_unique by blast
qed

section \<open>The operations on the abstract view\<close>

context lmdb
begin

lemma extents_of_get:
  "extents_of L t a = map_option dec_extent (mdb_get L t EXTENTS_DB_NAME (enc64 a))"
  by (simp add: extents_of_def mtl_load_extent_def split: option.splits)

lemma load_extent_eq:
  "mtl_load_extent L t a =
     (case extents_of L t a of None \<Rightarrow> (MTL_ERROR_NOENTRY, None) | Some e \<Rightarrow> (MTL_SUCCESS, Some e))"
  by (simp add: extents_of_def mtl_load_extent_def split: option.splits)

lemma put_extent:
  assumes "mtl_put_extent L t a e = (r, t')"
  shows "r = MTL_SUCCESS" "extents_of L t' = (extents_of L t)(a \<mapsto> e)"
    "heap_nodes L t' = heap_nodes L t" "heap_wf L t' \<longleftrightarrow> heap_wf L t"
    "extent_keys_wf L t \<Longrightarrow> extent_keys_wf L t'" "beside_extents L t' = beside_extents L t"
  using assms
  by (auto simp: mtl_put_extent_def extents_of_get get_put heap_nodes_def heap_wf_def
      extent_keys_wf_def beside_extents_def fun_eq_iff split: if_splits)

lemma del_extent:
  assumes "mdb_del L t EXTENTS_DB_NAME (enc64 a) = Some t'"
  shows "extents_of L t' = (extents_of L t)(a := None)"
    "heap_nodes L t' = heap_nodes L t" "heap_wf L t' \<longleftrightarrow> heap_wf L t"
    "extent_keys_wf L t \<Longrightarrow> extent_keys_wf L t'" "beside_extents L t' = beside_extents L t"
  using get_del [OF assms]
  by (auto simp: extents_of_get heap_nodes_def heap_wf_def extent_keys_wf_def beside_extents_def
      fun_eq_iff)

lemma beside_heap_extents:
  assumes "beside_heap L t' = beside_heap L t"
  shows "extents_of L t' = extents_of L t" "extent_keys_wf L t' \<longleftrightarrow> extent_keys_wf L t"
    "beside_extents L t' = beside_extents L t"
proof -
  have "mdb_get L t' db k = mdb_get L t db k" if "db \<noteq> HEAP_DB_NAME" for db k
    using assms that by (auto simp: beside_heap_def fun_eq_iff split: if_splits)
  then show "extents_of L t' = extents_of L t" "extent_keys_wf L t' \<longleftrightarrow> extent_keys_wf L t"
    "beside_extents L t' = beside_extents L t"
    by (auto simp: extents_of_get extent_keys_wf_def beside_extents_def fun_eq_iff)
qed

lemma heap_insert_view:
  assumes "mtl_heap_insert L t k v = (r, t', m)"
  shows "m = \<lparr>node_k = k, node_v = v\<rparr>" "heap_nodes L t' = insert m (heap_nodes L t)"
    "heap_wf L t \<Longrightarrow> heap_wf L t'" "extents_of L t' = extents_of L t"
    "extent_keys_wf L t' \<longleftrightarrow> extent_keys_wf L t" "beside_extents L t' = beside_extents L t"
  using heap.ins [OF assms] beside_heap_extents [of t' t] by auto

lemma heap_delete_view:
  assumes "mtl_heap_delete L t m = (r, t')"
  shows "m \<in> heap_nodes L t \<Longrightarrow> r = MTL_SUCCESS" "heap_nodes L t' = heap_nodes L t - {m}"
    "heap_wf L t \<Longrightarrow> heap_wf L t'" "extents_of L t' = extents_of L t"
    "extent_keys_wf L t' \<longleftrightarrow> extent_keys_wf L t" "beside_extents L t' = beside_extents L t"
  using heap.del [OF assms] beside_heap_extents [of t' t] by auto

lemma increase_key_view:
  assumes "mtl_heap_increase_key L t m k = (r, t', m')" "m \<in> heap_nodes L t"
  shows "m' = Some \<lparr>node_k = k, node_v = 0\<rparr>" "extents_of L t' = extents_of L t"
    "beside_extents L t' = beside_extents L t"
proof -
  obtain rd td where d: "mtl_heap_delete L t m = (rd, td)" by (cases "mtl_heap_delete L t m")
  obtain ri ti ni where i: "mtl_heap_insert L td k 0 = (ri, ti, ni)"
    by (cases "mtl_heap_insert L td k 0")
  show "m' = Some \<lparr>node_k = k, node_v = 0\<rparr>" "extents_of L t' = extents_of L t"
    "beside_extents L t' = beside_extents L t"
    using assms d i heap_delete_view [OF d] heap_insert_view [OF i]
    by (auto simp: mtl_heap_increase_key_def split: if_splits)
qed

lemma initialize_extents_beside:
  assumes "mtl_initialize_extents L t n = (r, t')"
  shows "beside_extents L t' = beside_extents L t"
proof -
  obtain r1 t1 m where i: "mtl_heap_insert L t n 0 = (r1, t1, m)" by (cases "mtl_heap_insert L t n 0")
  let ?e = "\<lparr>ext_length = n, ext_status = MTL_FREE, pq_node = m\<rparr>"
  obtain r2 t2 where p: "mtl_put_extent L t1 0 ?e = (r2, t2)" by (cases "mtl_put_extent L t1 0 ?e")
  show ?thesis
    using assms i p put_extent(6) [OF p] heap_insert_view(6) [OF i]
    by (auto simp: mtl_initialize_extents_def split: if_splits)
qed

text \<open>Taking blocks from an extent that has been selected but not yet been touched.\<close>

lemma reserve_take_view:
  assumes "reserve_take L t (a, e, ol, al) sz commit = (k, a', t')"
  defines "tot \<equiv> ol + sz" and "el \<equiv> ext_length e + al"
    and "st \<equiv> if commit then MTL_COMMITTED else MTL_RESERVED"
  defines "node \<equiv> \<lparr>node_k = el - tot, node_v = a + tot\<rparr>"
  shows "a' = a" "k = (if tot < el then tot else el) - ol"
    "extents_of L t' =
       (if tot < el
        then (extents_of L t)
          (a + tot \<mapsto> \<lparr>ext_length = el - tot, ext_status = MTL_FREE, pq_node = node\<rparr>,
           a \<mapsto> e\<lparr>ext_length := tot, ext_status := st\<rparr>)
        else (extents_of L t)(a \<mapsto> e\<lparr>ext_status := st\<rparr>))"
    "heap_nodes L t' = (if tot < el then insert node (heap_nodes L t) else heap_nodes L t)"
    "heap_wf L t \<Longrightarrow> heap_wf L t'" "extent_keys_wf L t \<Longrightarrow> extent_keys_wf L t'"
    "beside_extents L t' = beside_extents L t"
proof -
  obtain r1 t1 m where i: "mtl_heap_insert L t (el - tot) (a + tot) = (r1, t1, m)"
    by (cases "mtl_heap_insert L t (el - tot) (a + tot)")
  obtain r2 t2 where p: "mtl_put_extent L t1 (a + tot)
      \<lparr>ext_length = el - tot, ext_status = MTL_FREE, pq_node = m\<rparr> = (r2, t2)"
    by (cases "mtl_put_extent L t1 (a + tot)
      \<lparr>ext_length = el - tot, ext_status = MTL_FREE, pq_node = m\<rparr>")
  let ?s = "if tot < el then t2 else t"
  let ?e = "e\<lparr>ext_length := (if tot < el then tot else ext_length e), ext_status := st\<rparr>"
  obtain r3 t3 where q: "mtl_put_extent L ?s a ?e = (r3, t3)" by (cases "mtl_put_extent L ?s a ?e")
  have "a' = a \<and> k = (if tot < el then tot else el) - ol \<and> t' = t3"
    using assms(1) i p q
    by (auto simp: reserve_take_def tot_def el_def st_def Let_def split: if_splits)
  then show "a' = a" "k = (if tot < el then tot else el) - ol"
    "extents_of L t' =
       (if tot < el
        then (extents_of L t)
          (a + tot \<mapsto> \<lparr>ext_length = el - tot, ext_status = MTL_FREE, pq_node = node\<rparr>,
           a \<mapsto> e\<lparr>ext_length := tot, ext_status := st\<rparr>)
        else (extents_of L t)(a \<mapsto> e\<lparr>ext_status := st\<rparr>))"
    "heap_nodes L t' = (if tot < el then insert node (heap_nodes L t) else heap_nodes L t)"
    "heap_wf L t \<Longrightarrow> heap_wf L t'" "extent_keys_wf L t \<Longrightarrow> extent_keys_wf L t'"
    "beside_extents L t' = beside_extents L t"
    using put_extent [OF q] put_extent [OF p] heap_insert_view [OF i]
    by (auto simp: node_def)
qed

lemma reserve_not_extendable:
  assumes "\<not> extendable (extents_of L t) last_extent"
  shows "reserve_extend_last L t last_extent = Some (None, t)"
  using assms
  by (auto simp: extendable_def reserve_extend_last_def load_extent_eq Let_def
      split: option.splits)

lemma reserve_pop_heap_view:
  assumes inv: "extents_inv L n t" and ne: "heap_nodes L t \<noteq> {}"
  obtains a e t' where "reserve_pop_heap L t = Some (Some (a, e, 0, 0), t')"
    "extents_of L t a = Some e" "ext_status e = MTL_FREE"
    "extents_of L t' = extents_of L t"
    "heap_nodes L t' = heap_nodes L t - {\<lparr>node_k = ext_length e, node_v = a\<rparr>}"
    "heap_wf L t'" "extent_keys_wf L t'" "beside_extents L t' = beside_extents L t"
proof -
  have wf: "heap_wf L t" and kw: "extent_keys_wf L t"
    and H: "heap_nodes L t = free_nodes (extents_of L t)"
    using inv by (auto simp: extents_inv_def alloc_inv_def)
  obtain r mv t' where x: "mtl_heap_extract_max L t = (r, mv, t')"
    by (cases "mtl_heap_extract_max L t")
  note c = heap.xmax [OF wf ne x]
  then obtain m where m: "m \<in> heap_nodes L t" "mv = Some (node_v m)"
      "heap_nodes L t' = heap_nodes L t - {m}" by blast
  obtain e where e: "extents_of L t (node_v m) = Some e" "ext_status e = MTL_FREE"
      "node_k m = ext_length e"
    using free_nodesD [of m "extents_of L t"] m(1) H by auto
  have v: "extents_of L t' = extents_of L t" "extent_keys_wf L t'"
      "beside_extents L t' = beside_extents L t"
    using beside_heap_extents [of t' t] c kw by auto
  have "reserve_pop_heap L t = Some (Some (node_v m, e, 0, 0), t')"
    using x c m(2) e(1) v(1) by (simp add: reserve_pop_heap_def load_extent_eq)
  moreover have "m = \<lparr>node_k = ext_length e, node_v = node_v m\<rparr>" using e(3) by simp
  ultimately show ?thesis
    using that [of "node_v m" e t'] e(1,2) m(3) v c by metis
qed

lemma reserve_no_space:
  assumes "extents_inv L n t" "\<not> extendable (extents_of L t) last_extent" "heap_nodes L t = {}"
  shows "mtl_reserve_extent L t sz last_extent commit = Some (0, None, t)"
  using assms heap.xmax_empty [of t]
  by (simp add: mtl_reserve_extent_def reserve_not_extendable reserve_pop_heap_def extents_inv_def)

text \<open>
  The blocks come from one free extent: all of it, if it is not longer than asked for, otherwise
  its front, and the rest stays free.
\<close>

lemma reserve_from_heap:
  assumes inv: "extents_inv L n t" and nx: "\<not> extendable (extents_of L t) last_extent"
    and ne: "heap_nodes L t \<noteq> {}" and sz: "sz \<noteq> 0"
  obtains k a e t' where
    "mtl_reserve_extent L t sz last_extent commit = Some (k, Some a, t')"
    "extents_of L t a = Some e" "ext_status e = MTL_FREE"
    "unat k = min (unat sz) (unat (ext_length e))"
    "extents_of L t' = take_front (extents_of L t) a e k commit"
    "extents_inv L n t'" "beside_extents L t' = beside_extents L t"
proof -
  let ?M = "extents_of L t"
  have al: "alloc_inv n ?M (free_nodes ?M)" using inv by (simp add: extents_inv_def alloc_inv_def)
  obtain a e t1 where s: "reserve_pop_heap L t = Some (Some (a, e, 0, 0), t1)"
      "?M a = Some e" "ext_status e = MTL_FREE" "extents_of L t1 = ?M"
      "heap_nodes L t1 = heap_nodes L t - {\<lparr>node_k = ext_length e, node_v = a\<rparr>}"
      "heap_wf L t1" "extent_keys_wf L t1" "beside_extents L t1 = beside_extents L t"
    using reserve_pop_heap_view [OF inv ne] by metis
  obtain k a' t' where r: "reserve_take L t1 (a, e, 0, 0) sz commit = (k, a', t')"
    by (cases "reserve_take L t1 (a, e, 0, 0) sz commit")
  note v = reserve_take_view [OF r, simplified]
  have k: "k = (if sz < ext_length e then sz else ext_length e)" using v(2) by simp
  have res: "mtl_reserve_extent L t sz last_extent commit = Some (k, Some a, t')"
    using s(1) r v(1) by (simp add: mtl_reserve_extent_def reserve_not_extendable [OF nx])
  have map: "extents_of L t' = take_front ?M a e k commit"
    using v(3) s(4) by (auto simp: take_front_def k fun_eq_iff)
  have kp: "0 < unat k"
    using k sz alloc_inv_bound(1) [of n ?M _ a e, OF al s(2)] by (auto simp: unat_pos_iff)
  have nodes: "heap_nodes L t' = free_nodes (take_front ?M a e k commit)"
  proof -
    have "heap_nodes L t = free_nodes ?M" using inv by (simp add: extents_inv_def alloc_inv_def)
    then show ?thesis
      unfolding take_front_nodes [OF al s(2,3) kp, of commit]
      using v(4) s(5) k by (cases "sz < ext_length e") simp_all
  qed
  have "alloc_inv n (take_front ?M a e k commit) (free_nodes (take_front ?M a e k commit))"
    using k by (intro take_front_inv [OF al s(2,3) kp]) auto
  then have "extents_inv L n t'"
    using map nodes v(5,6) s(6,7) by (simp add: extents_inv_def)
  moreover have "unat k = min (unat sz) (unat (ext_length e))"
    by (simp add: k word_less_nat_alt min_def)
  ultimately show ?thesis using that [of k a t' e] res s(2,3,8) map v(7) by simp
qed

lemma reserve_extend_view:
  assumes inv: "extents_inv L n t"
    and e: "extents_of L t (fe_offset le) = Some e" "ext_length e = fe_length le"
    and nxt: "extents_of L t (fe_offset le + fe_length le) = Some nx" "ext_status nx = MTL_FREE"
  obtains t' where
    "reserve_extend_last L t (Some le) =
       Some (Some (fe_offset le, e, ext_length e, ext_length nx), t')"
    "extents_of L t' = (extents_of L t)(fe_offset le + ext_length e := None)"
    "heap_nodes L t' = heap_nodes L t -
       {\<lparr>node_k = ext_length nx, node_v = fe_offset le + ext_length e\<rparr>}"
    "heap_wf L t'" "extent_keys_wf L t'" "beside_extents L t' = beside_extents L t"
proof -
  let ?b = "fe_offset le + fe_length le"
  let ?m = "\<lparr>node_k = ext_length nx, node_v = ?b\<rparr>"
  have al: "alloc_inv n (extents_of L t) (heap_nodes L t)" and wf: "heap_wf L t" "extent_keys_wf L t"
    using inv by (auto simp: extents_inv_def)
  have pq: "pq_node nx = ?m" and m: "?m \<in> heap_nodes L t"
    using al nxt by (auto simp: alloc_inv_def free_nodes_iff)
  obtain r1 t1 where d: "mtl_heap_delete L t ?m = (r1, t1)" by (cases "mtl_heap_delete L t ?m")
  note v1 = heap_delete_view [OF d]
  have "extents_of L t1 ?b = Some nx" using nxt(1) v1(4) by simp
  then have "mdb_get L t1 EXTENTS_DB_NAME (enc64 ?b) \<noteq> None"
    by (auto simp: extents_of_get)
  then obtain t2 where x: "mdb_del L t1 EXTENTS_DB_NAME (enc64 ?b) = Some t2"
    using del_Some by blast
  note v2 = del_extent [OF x]
  have "?b \<noteq> fe_offset le"
    using alloc_inv_bound [of n "extents_of L t" _ "fe_offset le" e, OF al e(1)] e(2) by auto
  then have "extents_of L t2 (fe_offset le) = Some e" using v2(1) v1(4) e(1) by simp
  then have "reserve_extend_last L t (Some le) =
      Some (Some (fe_offset le, e, ext_length e, ext_length nx), t2)"
    using nxt pq d v1(1) [OF m] x by (simp add: reserve_extend_last_def load_extent_eq Let_def)
  then show ?thesis using that [of t2] v1 v2 wf e(2) by simp
qed

text \<open>The following free extent is longer than needed: its front is appended.\<close>

lemma reserve_extend:
  assumes inv: "extents_inv L n t"
    and e: "extents_of L t (fe_offset le) = Some e" "ext_length e = fe_length le"
      "ext_status e \<noteq> MTL_FREE"
    and nxt: "extents_of L t (fe_offset le + fe_length le) = Some nx" "ext_status nx = MTL_FREE"
    and sz: "sz \<noteq> 0" "sz < ext_length nx"
  obtains t' where
    "mtl_reserve_extent L t sz (Some le) commit = Some (sz, Some (fe_offset le), t')"
    "extents_of L t' = grow_into_next (extents_of L t) (fe_offset le) e nx sz commit"
    "extents_inv L n t'" "beside_extents L t' = beside_extents L t"
proof -
  let ?M = "extents_of L t" and ?a = "fe_offset le"
  obtain t1 where s: "reserve_extend_last L t (Some le) =
       Some (Some (?a, e, ext_length e, ext_length nx), t1)"
      "extents_of L t1 = ?M(?a + ext_length e := None)"
      "heap_nodes L t1 = heap_nodes L t - {\<lparr>node_k = ext_length nx, node_v = ?a + ext_length e\<rparr>}"
      "heap_wf L t1" "extent_keys_wf L t1" "beside_extents L t1 = beside_extents L t"
    using reserve_extend_view [OF inv e(1,2) nxt] by metis
  obtain k a' t' where r: "reserve_take L t1 (?a, e, ext_length e, ext_length nx) sz commit = (k, a', t')"
    by (cases "reserve_take L t1 (?a, e, ext_length e, ext_length nx) sz commit")
  have al: "alloc_inv n ?M (heap_nodes L t)" and H: "heap_nodes L t = free_nodes ?M"
    using inv by (auto simp: extents_inv_def alloc_inv_def)
  have nxt': "?M (?a + ext_length e) = Some nx" using nxt(1) e(2) by simp
  have bnd: "unat (ext_length e) + unat (ext_length nx) < 2 ^ 64"
    using alloc_inv_bound [of n ?M _ ?a e, OF al e(1)]
      alloc_inv_bound [of n ?M _ "?a + ext_length e" nx, OF al nxt'] by simp
  then have lt: "ext_length e + sz < ext_length e + ext_length nx"
    using sz(2) by (simp add: word_less_nat_alt unat_add_exact)
  note v = reserve_take_view [OF r, unfolded if_P [OF lt]]
  note g = grow_into_next_inv [of n ?M _ ?a e nx sz commit, OF al e(1,3) nxt' nxt(2)]
  have map: "extents_of L t' = grow_into_next ?M ?a e nx sz commit"
    using v(3) s(2) by (simp add: grow_into_next_def)
  have "heap_nodes L t' = free_nodes (grow_into_next ?M ?a e nx sz commit)"
    using v(4) s(3) H g(2) sz by (simp add: unat_pos_iff word_less_nat_alt)
  then have "extents_inv L n t'"
    using map v(5,6) s(4,5) g(1) sz by (simp add: extents_inv_def unat_pos_iff word_less_nat_alt)
  moreover have "mtl_reserve_extent L t sz (Some le) commit = Some (sz, Some ?a, t')"
    using s(1) r v(1,2) by (simp add: mtl_reserve_extent_def)
  ultimately show ?thesis using that [of t'] map v(7) s(6) by simp
qed

text \<open>
  The following free extent is not longer than needed: it is deleted from the database, but the
  extent that takes its blocks keeps its old length there.
\<close>

lemma reserve_extend_all:
  assumes inv: "extents_inv L n t"
    and e: "extents_of L t (fe_offset le) = Some e" "ext_length e = fe_length le"
      "ext_status e \<noteq> MTL_FREE"
    and nxt: "extents_of L t (fe_offset le + fe_length le) = Some nx" "ext_status nx = MTL_FREE"
    and sz: "ext_length nx \<le> sz" "unat (ext_length e) + unat sz < 2 ^ 64"
  obtains t' where
    "mtl_reserve_extent L t sz (Some le) commit = Some (ext_length nx, Some (fe_offset le), t')"
    "extents_of L t' = (extents_of L t)(fe_offset le + ext_length e := None,
       fe_offset le \<mapsto> e\<lparr>ext_status := (if commit then MTL_COMMITTED else MTL_RESERVED)\<rparr>)"
    "beside_extents L t' = beside_extents L t"
proof -
  let ?a = "fe_offset le"
  obtain t1 where s: "reserve_extend_last L t (Some le) =
       Some (Some (?a, e, ext_length e, ext_length nx), t1)"
      "extents_of L t1 = (extents_of L t)(?a + ext_length e := None)"
      "beside_extents L t1 = beside_extents L t"
    using reserve_extend_view [OF inv e(1,2) nxt] by metis
  obtain k a' t' where r: "reserve_take L t1 (?a, e, ext_length e, ext_length nx) sz commit = (k, a', t')"
    by (cases "reserve_take L t1 (?a, e, ext_length e, ext_length nx) sz commit")
  have nlt: "\<not> ext_length e + sz < ext_length e + ext_length nx"
    using sz by (simp add: word_less_nat_alt word_le_nat_alt unat_add_exact)
  note v = reserve_take_view [OF r, unfolded if_not_P [OF nlt]]
  have "mtl_reserve_extent L t sz (Some le) commit = Some (ext_length nx, Some ?a, t')"
    using s(1) r v(1,2) by (simp add: mtl_reserve_extent_def)
  then show ?thesis using that [of t'] v(3,7) s(2,3) by simp
qed

text \<open>The cursor after \<open>MDB_SET\<close> and \<open>MDB_NEXT\<close>.\<close>

lemma cursor_next_Some_view:
  assumes "extent_keys_wf L t" "extents_of L t a = Some e"
    and "mdb_cursor_next L t EXTENTS_DB_NAME (enc64 a) = Some (k, v)"
  obtains b where "k = enc64 b" "is_succ (extents_of L t) a b"
    "extents_of L t b = Some (dec_extent v)"
proof -
  have g: "mdb_get L t EXTENTS_DB_NAME (enc64 a) \<noteq> None"
    using assms(2) by (auto simp: extents_of_get)
  note n = next_Some [OF g assms(3)]
  then have k: "k = enc64 (dec64 k)" using assms(1) by (auto simp: extent_keys_wf_def enc64_dec64)
  then have "extents_of L t (dec64 k) = Some (dec_extent v)" using n by (simp add: extents_of_get)
  moreover have "is_succ (extents_of L t) a (dec64 k)"
    using n k by (auto simp: is_succ_def extents_of_get)
  ultimately show ?thesis using that k by blast
qed

lemma cursor_next_None_view:
  assumes "extents_of L t a = Some e" "mdb_cursor_next L t EXTENTS_DB_NAME (enc64 a) = None"
  shows "\<not> is_succ (extents_of L t) a b"
proof -
  have g: "mdb_get L t EXTENTS_DB_NAME (enc64 a) \<noteq> None"
    using assms(1) by (auto simp: extents_of_get)
  then show ?thesis using next_None [OF g] assms(2) by (auto simp: is_succ_def extents_of_get)
qed

lemma cursor_next_of_succ:
  assumes "extent_keys_wf L t" "extents_of L t a = Some e" "is_succ (extents_of L t) a b"
    "extents_of L t b = Some e'"
  obtains v where "mdb_cursor_next L t EXTENTS_DB_NAME (enc64 a) = Some (enc64 b, v)"
    "dec_extent v = e'"
proof (cases "mdb_cursor_next L t EXTENTS_DB_NAME (enc64 a)")
  case None
  then show ?thesis using cursor_next_None_view [OF assms(2)] assms(3) by blast
next
  case (Some p)
  obtain k v where p: "p = (k, v)" by (cases p)
  obtain c where c: "k = enc64 c" "is_succ (extents_of L t) a c"
      "extents_of L t c = Some (dec_extent v)"
    using cursor_next_Some_view [OF assms(1,2) Some [unfolded p]] .
  have "c = b" using is_succ_unique [OF c(2) assms(3)] .
  then show ?thesis using that [of v] Some p c assms(4) by simp
qed

text \<open>Neither check does anything if the extent the cursor finds is not free.\<close>

lemma cursor_next_not_free:
  assumes "extent_keys_wf L t" "extents_of L t a = Some e" "\<not> succ_free (extents_of L t) a"
    and "mdb_cursor_next L t EXTENTS_DB_NAME (enc64 a) = Some (k, v)"
  shows "ext_status (dec_extent v) \<noteq> MTL_FREE"
proof -
  obtain b where "is_succ (extents_of L t) a b" "extents_of L t b = Some (dec_extent v)"
    using cursor_next_Some_view [OF assms(1,2,4)] by blast
  then show ?thesis using assms(3) by (auto simp: succ_free_def)
qed

lemma free_merge_next_none:
  assumes "extent_keys_wf L t" "extents_of L t a = Some e" "\<not> succ_free (extents_of L t) a"
  shows "free_merge_next L t a s = (s, t)"
  using cursor_next_not_free [OF assms]
  by (auto simp: free_merge_next_def Let_def split: option.splits)

lemma free_merge_previous_none:
  assumes "extent_keys_wf L t" "extents_of L t a = Some e" "\<not> succ_free (extents_of L t) a"
  shows "free_merge_previous L t a s = (a, s, INVALID_NODE, t)"
  using cursor_next_not_free [OF assms]
  by (auto simp: free_merge_previous_def Let_def split: option.splits)

lemma free_merge_next_some:
  assumes inv: "heap_wf L t" "extent_keys_wf L t" and e: "extents_of L t a = Some e"
    and b: "is_succ (extents_of L t) a b" "extents_of L t b = Some e'" "ext_status e' = MTL_FREE"
  obtains t' where "free_merge_next L t a s = (s + ext_length e', t')"
    "extents_of L t' = (extents_of L t)(b := None)"
    "heap_nodes L t' = heap_nodes L t - {pq_node e'}" "heap_wf L t'" "extent_keys_wf L t'"
    "beside_extents L t' = beside_extents L t"
proof -
  obtain v where c: "mdb_cursor_next L t EXTENTS_DB_NAME (enc64 a) = Some (enc64 b, v)"
      "dec_extent v = e'"
    using cursor_next_of_succ [OF inv(2) e b(1,2)] .
  obtain r t1 where d: "mtl_heap_delete L t (pq_node e') = (r, t1)"
    by (cases "mtl_heap_delete L t (pq_node e')")
  note v1 = heap_delete_view [OF d]
  have "extents_of L t1 b = Some e'" using v1(4) b(2) by simp
  then have "mdb_get L t1 EXTENTS_DB_NAME (enc64 b) \<noteq> None" by (auto simp: extents_of_get)
  then obtain t2 where x: "mdb_del L t1 EXTENTS_DB_NAME (enc64 b) = Some t2" using del_Some by blast
  note v2 = del_extent [OF x]
  have "free_merge_next L t a s = (s + ext_length e', t2)"
    using c d x b(3) by (simp add: free_merge_next_def Let_def mdb_cursor_del_def)
  then show ?thesis using that [of t2] v1 v2 inv by simp
qed

text \<open>The second check finds a free extent: what the code takes for the previous one.\<close>

lemma free_merge_previous_some:
  assumes inv: "heap_wf L t" "extent_keys_wf L t" and e: "extents_of L t a = Some e"
    and b: "is_succ (extents_of L t) a b" "extents_of L t b = Some e'" "ext_status e' = MTL_FREE"
  obtains t' where "free_merge_previous L t a s = (b, s + ext_length e', pq_node e', t')"
    "extents_of L t' = (extents_of L t)(a := None)"
    "heap_nodes L t' = heap_nodes L t" "heap_wf L t'" "extent_keys_wf L t'"
    "beside_extents L t' = beside_extents L t"
proof -
  obtain v where c: "mdb_cursor_next L t EXTENTS_DB_NAME (enc64 a) = Some (enc64 b, v)"
      "dec_extent v = e'"
    using cursor_next_of_succ [OF inv(2) e b(1,2)] .
  have "mdb_get L t EXTENTS_DB_NAME (enc64 a) \<noteq> None" using e by (auto simp: extents_of_get)
  then obtain t2 where x: "mdb_del L t EXTENTS_DB_NAME (enc64 a) = Some t2" using del_Some by blast
  note v2 = del_extent [OF x]
  have "free_merge_previous L t a s = (b, s + ext_length e', pq_node e', t2)"
    using c x b(3) by (simp add: free_merge_previous_def Let_def mdb_cursor_del_def)
  then show ?thesis using that [of t2] v2 inv by simp
qed

lemma free_finish_insert:
  assumes "free_finish L t a s INVALID_NODE = t'"
  shows "extents_of L t' = (extents_of L t)(a \<mapsto> free_ext a s)"
    "heap_nodes L t' = insert \<lparr>node_k = s, node_v = a\<rparr> (heap_nodes L t)"
    "heap_wf L t \<Longrightarrow> heap_wf L t'" "extent_keys_wf L t \<Longrightarrow> extent_keys_wf L t'"
    "beside_extents L t' = beside_extents L t"
proof -
  obtain r t1 m where i: "mtl_heap_insert L t s a = (r, t1, m)" by (cases "mtl_heap_insert L t s a")
  note v1 = heap_insert_view [OF i]
  let ?e = "\<lparr>ext_length = s, ext_status = MTL_FREE, pq_node = m\<rparr>"
  obtain r2 t2 where p: "mtl_put_extent L t1 a ?e = (r2, t2)" by (cases "mtl_put_extent L t1 a ?e")
  have "t' = t2" using assms i p by (simp add: free_finish_def)
  then show "extents_of L t' = (extents_of L t)(a \<mapsto> free_ext a s)"
    "heap_nodes L t' = insert \<lparr>node_k = s, node_v = a\<rparr> (heap_nodes L t)"
    "heap_wf L t \<Longrightarrow> heap_wf L t'" "extent_keys_wf L t \<Longrightarrow> extent_keys_wf L t'"
    "beside_extents L t' = beside_extents L t"
    using put_extent [OF p] v1 by (simp_all add: free_ext_def)
qed

lemma extents_invD:
  assumes "extents_inv L n t"
  shows "heap_wf L t" "extent_keys_wf L t" "alloc_inv n (extents_of L t) (heap_nodes L t)"
    "heap_nodes L t = free_nodes (extents_of L t)"
  using assms by (auto simp: extents_inv_def alloc_inv_def)

text \<open>Freeing an extent whose successor is not free.\<close>

lemma free_alone:
  assumes inv: "extents_inv L n t" and e: "extents_of L t a = Some e" "ext_status e \<noteq> MTL_FREE"
    and ns: "\<not> succ_free (extents_of L t) a"
  obtains t' where "mtl_free_extent L t a = Some (MTL_SUCCESS, t')"
    "extents_of L t' = (extents_of L t)(a \<mapsto> free_ext a (ext_length e))"
    "extents_inv L n t'" "beside_extents L t' = beside_extents L t"
proof -
  note i = extents_invD [OF inv]
  let ?t' = "free_finish L t a (ext_length e) INVALID_NODE"
  let ?M' = "(extents_of L t)(a \<mapsto> free_ext a (ext_length e))"
  note f = free_finish_insert [of t a "ext_length e" ?t', OF refl]
  have r: "mtl_free_extent L t a = Some (MTL_SUCCESS, ?t')"
    using e(1) free_merge_next_none [OF i(2) e(1) ns] free_merge_previous_none [OF i(2) e(1) ns]
    by (simp add: mtl_free_extent_def load_extent_eq)
  have "heap_nodes L ?t' = free_nodes ?M'"
    using f(2) i(4) e by (intro set_eqI) (auto simp: free_nodes_iff node_eq_iff)
  moreover have "alloc_inv n ?M' (free_nodes ?M')"
    by (rule alloc_inv_mark [of n "extents_of L t" _ a e, OF i(3) e(1)]) simp_all
  ultimately have "extents_inv L n ?t'" using f i(1,2) by (simp add: extents_inv_def)
  then show ?thesis using that r f(1,5) by blast
qed

text \<open>Freeing an extent whose successor in the order of the keys is free, the one after it not.\<close>

lemma free_merged:
  assumes inv: "extents_inv L n t" and e: "extents_of L t a = Some e" "ext_status e \<noteq> MTL_FREE"
    and b: "is_succ (extents_of L t) a b" "extents_of L t b = Some e'" "ext_status e' = MTL_FREE"
    and ns: "\<not> succ_free (extents_of L t) b"
  defines "l \<equiv> ext_length e + ext_length e'"
  obtains t' where "mtl_free_extent L t a = Some (MTL_SUCCESS, t')"
    "extents_of L t' = (extents_of L t)(b := None, a \<mapsto> free_ext a l)"
    "heap_nodes L t' = insert \<lparr>node_k = l, node_v = a\<rparr> (heap_nodes L t - {pq_node e'})"
    "heap_wf L t'" "extent_keys_wf L t'" "beside_extents L t' = beside_extents L t"
proof -
  note i = extents_invD [OF inv]
  have ne: "b \<noteq> a" using b(1) by (auto simp: is_succ_def)
  obtain t1 where t1: "free_merge_next L t a (ext_length e) = (l, t1)"
      "extents_of L t1 = (extents_of L t)(b := None)"
      "heap_nodes L t1 = heap_nodes L t - {pq_node e'}" "heap_wf L t1" "extent_keys_wf L t1"
      "beside_extents L t1 = beside_extents L t"
    using free_merge_next_some [OF i(1,2) e(1) b, of "ext_length e"] unfolding l_def by blast
  have "extents_of L t1 a = Some e" "\<not> succ_free (extents_of L t1) a"
    using ne ns e(1) t1(2) is_succ_remove [OF b(1)]
    by (auto simp: succ_free_def split: if_splits)
  note p = free_merge_previous_none [OF t1(5) this, of l]
  let ?t' = "free_finish L t1 a l INVALID_NODE"
  note f = free_finish_insert [of t1 a l ?t', OF refl]
  have r: "mtl_free_extent L t a = Some (MTL_SUCCESS, ?t')"
    using e(1) t1(1) p by (simp add: mtl_free_extent_def load_extent_eq)
  show ?thesis by (rule that [OF r]) (use f t1 in simp_all)
qed

text \<open>If that successor begins where the freed extent ends, the extents still tile the storage.\<close>

lemma free_join:
  assumes inv: "extents_inv L n t" and e: "extents_of L t a = Some e" "ext_status e \<noteq> MTL_FREE"
    and b: "is_succ (extents_of L t) a (a + ext_length e)"
      "extents_of L t (a + ext_length e) = Some e'" "ext_status e' = MTL_FREE"
    and ns: "\<not> succ_free (extents_of L t) (a + ext_length e)"
  obtains t' where "mtl_free_extent L t a = Some (MTL_SUCCESS, t')"
    "extents_of L t' = (extents_of L t)
       (a + ext_length e := None, a \<mapsto> free_ext a (ext_length e + ext_length e'))"
    "extents_inv L n t'" "beside_extents L t' = beside_extents L t"
proof -
  note i = extents_invD [OF inv]
  let ?b = "a + ext_length e" and ?l = "ext_length e + ext_length e'"
  let ?M' = "(extents_of L t)(?b := None, a \<mapsto> free_ext a ?l)"
  have ne: "?b \<noteq> a" using b(1) by (auto simp: is_succ_def)
  have pq: "pq_node e' = \<lparr>node_k = ext_length e', node_v = ?b\<rparr>"
    using i(3) b(2,3) by (simp add: alloc_inv_def)
  obtain t' where t': "mtl_free_extent L t a = Some (MTL_SUCCESS, t')" "extents_of L t' = ?M'"
    "heap_nodes L t' = insert \<lparr>node_k = ?l, node_v = a\<rparr> (heap_nodes L t - {pq_node e'})"
    "heap_wf L t'" "extent_keys_wf L t'" "beside_extents L t' = beside_extents L t"
    using free_merged [OF inv e b ns] .
  have "heap_nodes L t' = free_nodes ?M'"
    using t'(3) i(4) e ne b(2,3)
    by (intro set_eqI) (auto simp: free_nodes_iff node_eq_iff pq)
  moreover have "alloc_inv n ?M' (free_nodes ?M')"
    by (rule alloc_inv_join [of n "extents_of L t" _ a e e', OF i(3) e(1) b(2)]) simp_all
  ultimately have "extents_inv L n t'" using t' by (simp add: extents_inv_def)
  then show ?thesis using that t' by blast
qed

text \<open>
  Freeing an extent that is followed by two free ones: the second is taken for the previous
  extent, and the sum of the three lengths is stored at its offset.
\<close>

lemma free_two:
  assumes inv: "extents_inv L n t" and e: "extents_of L t a = Some e" "ext_status e \<noteq> MTL_FREE"
    and b: "is_succ (extents_of L t) a b" "extents_of L t b = Some e'" "ext_status e' = MTL_FREE"
    and c: "is_succ (extents_of L t) b c" "extents_of L t c = Some e''" "ext_status e'' = MTL_FREE"
  defines "l \<equiv> ext_length e + ext_length e' + ext_length e''"
  obtains t' where "mtl_free_extent L t a = Some (MTL_SUCCESS, t')"
    "extents_of L t' = (extents_of L t)(b := None, a := None,
       c \<mapsto> \<lparr>ext_length = l, ext_status = MTL_FREE, pq_node = \<lparr>node_k = l, node_v = 0\<rparr>\<rparr>)"
    "beside_extents L t' = beside_extents L t"
proof -
  note i = extents_invD [OF inv]
  have pq: "pq_node e' = \<lparr>node_k = ext_length e', node_v = b\<rparr>"
      "pq_node e'' = \<lparr>node_k = ext_length e'', node_v = c\<rparr>"
    using i(3) b(2,3) c(2,3) by (simp_all add: alloc_inv_def)
  have ne: "b \<noteq> a" "c \<noteq> b" using b(1) c(1) by (auto simp: is_succ_def)
  obtain t1 where t1: "free_merge_next L t a (ext_length e) = (ext_length e + ext_length e', t1)"
      "extents_of L t1 = (extents_of L t)(b := None)"
      "heap_nodes L t1 = heap_nodes L t - {pq_node e'}" "heap_wf L t1" "extent_keys_wf L t1"
      "beside_extents L t1 = beside_extents L t"
    using free_merge_next_some [OF i(1,2) e(1) b, of "ext_length e"] by blast
  have v: "extents_of L t1 a = Some e" "is_succ (extents_of L t1) a c" "extents_of L t1 c = Some e''"
    using ne e(1) t1(2) is_succ_remove [OF b(1)] c(1,2) by auto
  obtain t2 where t2: "free_merge_previous L t1 a (ext_length e + ext_length e') =
        (c, l, pq_node e'', t2)"
      "extents_of L t2 = (extents_of L t1)(a := None)"
      "heap_nodes L t2 = heap_nodes L t1" "beside_extents L t2 = beside_extents L t1"
    using free_merge_previous_some [OF t1(4,5) v c(3)] unfolding l_def by blast
  obtain r3 t3 n3 where k: "mtl_heap_increase_key L t2 (pq_node e'') l = (r3, t3, n3)"
    by (cases "mtl_heap_increase_key L t2 (pq_node e'') l")
  have "pq_node e'' \<in> heap_nodes L t2"
    using t2(3) t1(3) i(4) c(2,3) ne(2) by (auto simp: pq free_nodes_iff)
  note k' = increase_key_view [OF k this]
  have inval: "pq_node e'' \<noteq> INVALID_NODE"
    using alloc_inv_bound(1) [of n "extents_of L t" _ c e'', OF i(3) c(2)]
    by (auto simp: pq INVALID_NODE_def)
  let ?e = "\<lparr>ext_length = l, ext_status = MTL_FREE, pq_node = \<lparr>node_k = l, node_v = 0\<rparr>\<rparr>"
  obtain r4 t4 where p: "mtl_put_extent L t3 c ?e = (r4, t4)" by (cases "mtl_put_extent L t3 c ?e")
  have "mtl_free_extent L t a = Some (MTL_SUCCESS, t4)"
    using e(1) t1(1) t2(1) inval k k'(1) p
    by (simp add: mtl_free_extent_def load_extent_eq free_finish_def)
  then show ?thesis
    using that [of t4] put_extent(2,6) [OF p] k'(2,3) t1(2,6) t2(2,4) by simp
qed

end

end
