(* ===== verification/Inode.thy ===== *)
theory Inode
  imports Extent
begin

text \<open>
  Inodes and directories, \<open>src/metal-filesystem/src/inode.c\<close>, and the counter for inode numbers,
  \<open>src/metal-filesystem/src/meta.c\<close>.  The database \<open>inodes\<close> maps an inode number to the inode
  followed by the data of the inode: the extents of a file or the entries of a directory.  An entry
  is a head of 16 bytes (inode number, length of the name, padding) and the bytes of the name.

  File names are C strings, here the bytes before the terminating zero.  Pointers into the value of
  a directory are positions in it.  \<^term>\<open>None\<close> stands for what C leaves undefined: a dereferenced
  NULL pointer, a read outside the value, an array of more bytes than there is memory.  Bytes of
  padding are zero.
\<close>

section \<open>Inode numbers\<close>

definition META_DB_NAME :: string where
  "META_DB_NAME = ''meta''"

definition cstr :: "string \<Rightarrow> bytes" where
  "cstr s = map (\<lambda>c. word_of_nat (of_char c)) s"

text \<open>The key includes the terminating zero of the literal.\<close>

definition next_inode_id_key :: bytes where
  "next_inode_id_key = cstr ''next_inode'' @ [0]"

definition mtl_next_id :: "'t mdb_ops \<Rightarrow> 't \<Rightarrow> bytes \<Rightarrow> u64 \<times> 't" where
  "mtl_next_id L t key =
     (let result = (case mdb_get L t META_DB_NAME key of None \<Rightarrow> 1 | Some v \<Rightarrow> dec64 v);
          result' = result + 1;
          t1 = mdb_put L t META_DB_NAME key (enc64 result')
      in (result' - 1, t1))"

definition mtl_next_inode_id :: "'t mdb_ops \<Rightarrow> 't \<Rightarrow> u64 \<times> 't" where
  "mtl_next_inode_id L t = mtl_next_id L t next_inode_id_key"

section \<open>Inodes\<close>

definition MTL_FILE :: u32 where "MTL_FILE = 102"
definition MTL_DIRECTORY :: u32 where "MTL_DIRECTORY = 100"

definition S_IFDIR :: u32 where "S_IFDIR = 0x4000"
definition S_IFREG :: u32 where "S_IFREG = 0x8000"

record mtl_inode =
  i_type :: u32
  i_length :: u64
  i_user :: u32
  i_group :: u32
  i_accessed :: u32
  i_modified :: u32
  i_created :: u32
  i_mode :: u32

definition INODES_DB_NAME :: string where
  "INODES_DB_NAME = ''inodes''"

text \<open>The layout of the struct: 4 bytes, 4 bytes of padding, 8 bytes, six times 4 bytes.\<close>

definition enc_inode :: "mtl_inode \<Rightarrow> bytes" where
  "enc_inode i = enc32 (i_type i) @ replicate 4 0 @ enc64 (i_length i) @ enc32 (i_user i) @
     enc32 (i_group i) @ enc32 (i_accessed i) @ enc32 (i_modified i) @ enc32 (i_created i) @
     enc32 (i_mode i)"

definition dec_inode :: "bytes \<Rightarrow> mtl_inode" where
  "dec_inode bs = \<lparr>i_type = dec32 bs, i_length = dec64 (drop 8 bs), i_user = dec32 (drop 16 bs),
     i_group = dec32 (drop 20 bs), i_accessed = dec32 (drop 24 bs), i_modified = dec32 (drop 28 bs),
     i_created = dec32 (drop 32 bs), i_mode = dec32 (drop 36 bs)\<rparr>"

text \<open>The inode and the bytes behind it.\<close>

definition mtl_load_inode :: "'t mdb_ops \<Rightarrow> 't \<Rightarrow> u64 \<Rightarrow> int \<times> (mtl_inode \<times> bytes) option" where
  "mtl_load_inode L t inode_id =
     (case mdb_get L t INODES_DB_NAME (enc64 inode_id) of
        None \<Rightarrow> (MTL_ERROR_NOENTRY, None)
      | Some v \<Rightarrow> (MTL_SUCCESS, Some (dec_inode v, drop 40 v)))"

definition mtl_put_inode :: "'t mdb_ops \<Rightarrow> 't \<Rightarrow> u64 \<Rightarrow> mtl_inode \<Rightarrow> bytes \<Rightarrow> int \<times> 't" where
  "mtl_put_inode L t inode_id inode data =
     (MTL_SUCCESS, mdb_put L t INODES_DB_NAME (enc64 inode_id) (enc_inode inode @ data))"

definition mtl_delete_inode :: "'t mdb_ops \<Rightarrow> 't \<Rightarrow> u64 \<Rightarrow> int \<times> 't" where
  "mtl_delete_inode L t inode_id =
     (MTL_SUCCESS, case mdb_del L t INODES_DB_NAME (enc64 inode_id) of None \<Rightarrow> t | Some t' \<Rightarrow> t')"

section \<open>Directory entries\<close>

definition entry_inode_id :: "bytes \<Rightarrow> nat \<Rightarrow> u64" where
  "entry_inode_id data p = dec64 (drop p data)"

definition entry_name_len :: "bytes \<Rightarrow> nat \<Rightarrow> nat" where
  "entry_name_len data p = unat (data ! (p + 8))"

definition entry_name :: "bytes \<Rightarrow> nat \<Rightarrow> bytes" where
  "entry_name data p = take (entry_name_len data p) (drop (p + 16) data)"

definition mtl_load_next_directory_entry :: "bytes \<Rightarrow> u64 \<Rightarrow> nat option \<Rightarrow> nat option" where
  "mtl_load_next_directory_entry dir_data dir_data_length entry =
     (let result = (case entry of None \<Rightarrow> 0 | Some p \<Rightarrow> p + 16 + entry_name_len dir_data p)
      in if result + 16 > unat dir_data_length then None else Some result)"

text \<open>
  The loop \<open>while ((current_entry = mtl_load_next_directory_entry(...)) != NULL) body\<close>, which four
  functions of the file have: the body, given the entry and the state of the loop, goes on with a
  new state (\<^term>\<open>Inl s\<close>) or returns from the function (\<^term>\<open>Inr r\<close>).
\<close>

function dir_loop :: "(nat \<Rightarrow> 's \<Rightarrow> 's + 'r) \<Rightarrow> bytes \<Rightarrow> u64 \<Rightarrow> nat option \<Rightarrow> 's \<Rightarrow> ('s + 'r) option" where
  "dir_loop body dir_data dir_data_length current_entry s =
     (case mtl_load_next_directory_entry dir_data dir_data_length current_entry of
        None \<Rightarrow> Some (Inl s)
      | Some p \<Rightarrow>
          if p + 16 > length dir_data \<or> p + 16 + entry_name_len dir_data p > length dir_data then None
          else (case body p s of
                  Inr r \<Rightarrow> Some (Inr r)
                | Inl s' \<Rightarrow> dir_loop body dir_data dir_data_length (Some p) s'))"
  by pat_completeness auto

termination
proof (relation "measure (\<lambda>(body, data, len, cur, s). unat len + 1 -
      (case cur of None \<Rightarrow> 0 | Some p \<Rightarrow> p + 1))")
  fix body :: "nat \<Rightarrow> 's \<Rightarrow> 's + 'r" and data :: bytes and len :: u64
    and cur :: "nat option" and s s' :: 's and p
  assume "mtl_load_next_directory_entry data len cur = Some p"
  then show "((body, data, len, Some p, s'), (body, data, len, cur, s)) \<in>
      measure (\<lambda>(body, data, len, cur, s). unat len + 1 - (case cur of None \<Rightarrow> 0 | Some p \<Rightarrow> p + 1))"
    by (auto simp: mtl_load_next_directory_entry_def Let_def split: option.splits if_splits)
qed simp

declare dir_loop.simps [simp del]

section \<open>Operations on directories\<close>

text \<open>The second component is \<open>*file_inode_id\<close>, \<^term>\<open>None\<close> where it is left unwritten.\<close>

definition mtl_resolve_inode_in_directory ::
  "'t mdb_ops \<Rightarrow> 't \<Rightarrow> u64 \<Rightarrow> bytes \<Rightarrow> (int \<times> u64 option) option" where
  "mtl_resolve_inode_in_directory L t dir_inode_id filename = do {
     (dir_inode, dir_data) \<leftarrow> snd (mtl_load_inode L t dir_inode_id);
     if i_type dir_inode \<noteq> MTL_DIRECTORY then Some (MTL_ERROR_NOTDIRECTORY, None)
     else do {
       r \<leftarrow> dir_loop (\<lambda>p s. if length filename \<noteq> entry_name_len dir_data p then Inl s
                         else if entry_name dir_data p = filename then Inr (entry_inode_id dir_data p)
                         else Inl s)
              dir_data (i_length dir_inode) None ();
       case r of
         Inr inode_id \<Rightarrow> Some (MTL_SUCCESS, Some inode_id)
       | Inl _ \<Rightarrow> Some (MTL_ERROR_NOENTRY, None)
     }
   }"

definition mtl_append_inode_id_to_directory ::
  "'t mdb_ops \<Rightarrow> 't \<Rightarrow> u64 \<Rightarrow> bytes \<Rightarrow> u64 \<Rightarrow> (int \<times> 't) option" where
  "mtl_append_inode_id_to_directory L t dir_inode_id filename inode_id = do {
     (dir_inode, dir_inode_data) \<leftarrow> snd (mtl_load_inode L t dir_inode_id);
     if i_type dir_inode \<noteq> MTL_DIRECTORY then Some (MTL_ERROR_NOTDIRECTORY, t)
     else do {
       r \<leftarrow> dir_loop (\<lambda>p s. if length filename \<noteq> entry_name_len dir_inode_data p then Inl s
                         else if entry_name dir_inode_data p = filename then Inr MTL_ERROR_EXISTS
                         else Inl s)
              dir_inode_data (i_length dir_inode) None ();
       case r of
         Inr res \<Rightarrow> Some (res, t)
       | Inl _ \<Rightarrow>
           if unat (i_length dir_inode) > length dir_inode_data then None
           else
             let filename_length = word_of_nat (length filename);
                 new_data_length = i_length dir_inode + 16 + filename_length;
                 new_dir_inode = dir_inode\<lparr>i_length := new_data_length\<rparr>;
                 new_entry_head = enc64 inode_id @ [word_of_nat (length filename)] @ replicate 7 0
             in Some (mtl_put_inode L t dir_inode_id new_dir_inode
                  (take (unat (i_length dir_inode)) dir_inode_data @ new_entry_head @ filename))
     }
   }"

text \<open>
  The state of the loop is the data copied so far and \<open>*inode_id\<close>.  The new data are an array on
  the stack whose length is \<open>new_data_length\<close>; if not all of it is copied, the rest is
  indeterminate, and if the subtraction wraps around there is no such array.
\<close>

definition mtl_remove_entry_from_directory ::
  "'t mdb_ops \<Rightarrow> 't \<Rightarrow> u64 \<Rightarrow> bytes \<Rightarrow> (int \<times> u64 option \<times> 't) option" where
  "mtl_remove_entry_from_directory L t dir_inode_id filename = do {
     (dir_inode, dir_inode_data) \<leftarrow> snd (mtl_load_inode L t dir_inode_id);
     if i_type dir_inode \<noteq> MTL_DIRECTORY then Some (MTL_ERROR_NOTDIRECTORY, None, t)
     else if unat (i_length dir_inode) < 16 + length filename then None
     else
       let new_data_length = i_length dir_inode - (16 + word_of_nat (length filename));
           new_dir_inode = dir_inode\<lparr>i_length := new_data_length\<rparr>
       in do {
         r \<leftarrow> dir_loop (\<lambda>p (new_data, inode_id).
                  if length filename = entry_name_len dir_inode_data p \<and>
                     entry_name dir_inode_data p = filename
                  then Inl (new_data, Some (entry_inode_id dir_inode_data p))
                  else if length new_data + entry_name_len dir_inode_data p + 16 > unat new_data_length
                  then Inr inode_id
                  else Inl (new_data @ take 16 (drop p dir_inode_data) @ entry_name dir_inode_data p,
                            inode_id))
                dir_inode_data (i_length dir_inode) None ([], None);
         case r of
           Inr inode_id \<Rightarrow> Some (MTL_ERROR_NOENTRY, inode_id, t)
         | Inl (new_data, inode_id) \<Rightarrow>
             if length new_data \<noteq> unat new_data_length then None
             else let (res, t') = mtl_put_inode L t dir_inode_id new_dir_inode new_data
                  in Some (res, inode_id, t')
       }
   }"

definition mtl_remove_directory :: "'t mdb_ops \<Rightarrow> 't \<Rightarrow> u64 \<Rightarrow> (int \<times> 't) option" where
  "mtl_remove_directory L t dir_inode_id = do {
     (dir_inode, dir_entries) \<leftarrow> snd (mtl_load_inode L t dir_inode_id);
     if i_type dir_inode \<noteq> MTL_DIRECTORY then Some (MTL_ERROR_NOTDIRECTORY, t)
     else do {
       r \<leftarrow> dir_loop (\<lambda>p s. if entry_name_len dir_entries p = 1 \<and> entry_name dir_entries p = cstr ''.''
                         then Inl s
                         else if entry_name_len dir_entries p = 2 \<and>
                                 entry_name dir_entries p = cstr ''..''
                         then Inl s
                         else Inr MTL_ERROR_NOTEMPTY)
              dir_entries (i_length dir_inode) None ();
       case r of
         Inr res \<Rightarrow> Some (res, t)
       | Inl _ \<Rightarrow> Some (mtl_delete_inode L t dir_inode_id)
     }
   }"

section \<open>Creation\<close>

text \<open>\<open>now\<close> is what \<open>time(NULL)\<close> returns.\<close>

definition new_inode :: "u32 \<Rightarrow> u32 \<Rightarrow> u32 \<Rightarrow> mtl_inode" where
  "new_inode ty mode now = \<lparr>i_type = ty, i_length = 0, i_user = 0, i_group = 0, i_accessed = now,
     i_modified = now, i_created = now, i_mode = mode\<rparr>"

definition mtl_create_root_directory :: "'t mdb_ops \<Rightarrow> u32 \<Rightarrow> 't \<Rightarrow> (int \<times> 't) option" where
  "mtl_create_root_directory L now t =
     (let root_inode_id = 0
      in if mdb_get L t INODES_DB_NAME (enc64 root_inode_id) \<noteq> None then Some (MTL_SUCCESS, t)
         else
           let (_, t1) = mtl_put_inode L t root_inode_id
                 (new_inode MTL_DIRECTORY (or 0x1ED S_IFDIR) now) []
           in do {
             (_, t2) \<leftarrow> mtl_append_inode_id_to_directory L t1 root_inode_id (cstr ''.'') root_inode_id;
             (_, t3) \<leftarrow> mtl_append_inode_id_to_directory L t2 root_inode_id (cstr ''..'') root_inode_id;
             Some (MTL_SUCCESS, t3)
           })"

text \<open>The second component is the number of the new inode.\<close>

definition mtl_create_directory_in_directory ::
  "'t mdb_ops \<Rightarrow> u32 \<Rightarrow> 't \<Rightarrow> u64 \<Rightarrow> bytes \<Rightarrow> u32 \<Rightarrow> (int \<times> u64 \<times> 't) option" where
  "mtl_create_directory_in_directory L now t dir_inode_id filename mode =
     (let (new_id, t1) = mtl_next_inode_id L t
      in do {
        (res, t2) \<leftarrow> mtl_append_inode_id_to_directory L t1 dir_inode_id filename new_id;
        if res \<noteq> MTL_SUCCESS then Some (res, new_id, t2)
        else
          let (res, t3) = mtl_put_inode L t2 new_id (new_inode MTL_DIRECTORY (or mode S_IFDIR) now) []
          in if res \<noteq> MTL_SUCCESS then Some (res, new_id, t3)
             else do {
               (res, t4) \<leftarrow> mtl_append_inode_id_to_directory L t3 new_id (cstr ''.'') new_id;
               if res \<noteq> MTL_SUCCESS then Some (res, new_id, t4)
               else do {
                 (res, t5) \<leftarrow> mtl_append_inode_id_to_directory L t4 new_id (cstr ''..'') dir_inode_id;
                 if res \<noteq> MTL_SUCCESS then Some (res, new_id, t5)
                 else Some (MTL_SUCCESS, new_id, t5)
               }
             }
      })"

definition mtl_create_file_in_directory ::
  "'t mdb_ops \<Rightarrow> u32 \<Rightarrow> 't \<Rightarrow> u64 \<Rightarrow> bytes \<Rightarrow> u32 \<Rightarrow> (int \<times> u64 \<times> 't) option" where
  "mtl_create_file_in_directory L now t dir_inode_id filename mode =
     (let (new_id, t1) = mtl_next_inode_id L t
      in do {
        (res, t2) \<leftarrow> mtl_append_inode_id_to_directory L t1 dir_inode_id filename new_id;
        if res \<noteq> MTL_SUCCESS then Some (res, new_id, t2)
        else
          let (res, t3) = mtl_put_inode L t2 new_id (new_inode MTL_FILE (or mode S_IFREG) now) []
          in Some (res, new_id, t3)
      })"

section \<open>The extents of a file\<close>

definition enc_file_extent :: "mtl_file_extent \<Rightarrow> bytes" where
  "enc_file_extent e = enc64 (fe_offset e) @ enc64 (fe_length e)"

definition dec_file_extent :: "bytes \<Rightarrow> mtl_file_extent" where
  "dec_file_extent bs = \<lparr>fe_offset = dec64 bs, fe_length = dec64 (drop 8 bs)\<rparr>"

definition enc_extents :: "mtl_file_extent list \<Rightarrow> bytes" where
  "enc_extents es = concat (map enc_file_extent es)"

definition dec_extents :: "bytes \<Rightarrow> mtl_file_extent list" where
  "dec_extents bs = map (\<lambda>i. dec_file_extent (drop (16 * i) bs)) [0 ..< length bs div 16]"

text \<open>\<open>extents\<close> and \<open>extents_length\<close> together are a list.\<close>

definition mtl_load_file ::
  "'t mdb_ops \<Rightarrow> 't \<Rightarrow> u64 \<Rightarrow> int \<times> (mtl_inode \<times> mtl_file_extent list) option" where
  "mtl_load_file L t inode_id =
     (case mtl_load_inode L t inode_id of
        (res, None) \<Rightarrow> (res, None)
      | (res, Some (inode, data)) \<Rightarrow> (res, Some (inode, dec_extents data)))"

definition mtl_add_extent_to_file ::
  "'t mdb_ops \<Rightarrow> 't \<Rightarrow> u64 \<Rightarrow> mtl_file_extent \<Rightarrow> u64 \<Rightarrow> (int \<times> 't) option" where
  "mtl_add_extent_to_file L t inode_id new_extent new_length = do {
     (inode, extents) \<leftarrow> snd (mtl_load_file L t inode_id);
     Some (mtl_put_inode L t inode_id (inode\<lparr>i_length := new_length\<rparr>)
       (enc_extents (extents @ [new_extent])))
   }"

definition mtl_extend_last_extent_in_file ::
  "'t mdb_ops \<Rightarrow> 't \<Rightarrow> u64 \<Rightarrow> mtl_file_extent \<Rightarrow> u64 \<Rightarrow> (int \<times> 't) option" where
  "mtl_extend_last_extent_in_file L t inode_id new_extent new_length = do {
     (inode, extents) \<leftarrow> snd (mtl_load_file L t inode_id);
     if extents = [] then None
     else Some (mtl_put_inode L t inode_id (inode\<lparr>i_length := new_length\<rparr>)
       (enc_extents (extents[length extents - 1 := new_extent])))
   }"

definition mtl_truncate_file_extents ::
  "'t mdb_ops \<Rightarrow> 't \<Rightarrow> u64 \<Rightarrow> u64 \<Rightarrow> nat \<Rightarrow> u64 option \<Rightarrow> (int \<times> 't) option" where
  "mtl_truncate_file_extents L t inode_id new_file_length extents_length update_last_extent_length = do {
     (inode, extents) \<leftarrow> snd (mtl_load_file L t inode_id);
     if extents_length > length extents then None
     else
       let extent_data = take extents_length extents
       in case update_last_extent_length of
            None \<Rightarrow> Some (mtl_put_inode L t inode_id (inode\<lparr>i_length := new_file_length\<rparr>)
              (enc_extents extent_data))
          | Some len \<Rightarrow>
              if extents_length = 0 then None
              else Some (mtl_put_inode L t inode_id (inode\<lparr>i_length := new_file_length\<rparr>)
                (enc_extents (extent_data[extents_length - 1 :=
                   (extent_data ! (extents_length - 1))\<lparr>fe_length := len\<rparr>])))
   }"

section \<open>Abstract view\<close>

text \<open>The inodes with their data; the entries of a directory as pairs of name and inode number.\<close>

type_synonym inode_map = "u64 \<rightharpoonup> mtl_inode \<times> bytes"
type_synonym dir_entry = "bytes \<times> u64"

definition inodes_of :: "'t mdb_ops \<Rightarrow> 't \<Rightarrow> inode_map" where
  "inodes_of L t i = snd (mtl_load_inode L t i)"

definition enc_head :: "dir_entry \<Rightarrow> bytes" where
  "enc_head e = enc64 (snd e) @ [word_of_nat (length (fst e))] @ replicate 7 0"

definition enc_dir :: "dir_entry list \<Rightarrow> bytes" where
  "enc_dir es = concat (map (\<lambda>e. enc_head e @ fst e) es)"

definition names_ok :: "dir_entry list \<Rightarrow> bool" where
  "names_ok es \<longleftrightarrow> list_all (\<lambda>e. length (fst e) < 256) es"

definition is_dir :: "inode_map \<Rightarrow> u64 \<Rightarrow> dir_entry list \<Rightarrow> bool" where
  "is_dir I d es \<longleftrightarrow> names_ok es \<and> distinct (map fst es) \<and>
     (\<exists>i. I d = Some (i, enc_dir es) \<and> i_type i = MTL_DIRECTORY \<and>
          unat (i_length i) = length (enc_dir es))"

definition is_file :: "inode_map \<Rightarrow> u64 \<Rightarrow> mtl_file_extent list \<Rightarrow> u64 \<Rightarrow> bool" where
  "is_file I f fes len \<longleftrightarrow> (\<exists>i. I f = Some (i, enc_extents fes) \<and> i_length i = len)"

definition beside_inodes :: "'t mdb_ops \<Rightarrow> 't \<Rightarrow> string \<Rightarrow> bytes \<Rightarrow> bytes option" where
  "beside_inodes L t db k = (if db = INODES_DB_NAME then None else mdb_get L t db k)"

text \<open>The number the next inode gets.\<close>

definition next_id :: "'t mdb_ops \<Rightarrow> 't \<Rightarrow> u64" where
  "next_id L t =
     (case mdb_get L t META_DB_NAME next_inode_id_key of None \<Rightarrow> 1 | Some v \<Rightarrow> dec64 v)"

section \<open>Layouts\<close>

lemma length_enc_inode [simp, codec]: "length (enc_inode i) = 40"
  by (simp add: enc_inode_def)

lemma dec_inode_enc [simp, codec]: "dec_inode (enc_inode i @ bs) = i"
  by (simp add: dec_inode_def enc_inode_def)

lemma length_enc_head [simp, codec]: "length (enc_head e) = 16"
  by (simp add: enc_head_def)

lemma enc_head_not_Nil [simp]: "enc_head e \<noteq> []" "[] \<noteq> enc_head e"
  using length_enc_head [of e] by force+

lemma length_enc_file_extent [simp, codec]: "length (enc_file_extent e) = 16"
  by (simp add: enc_file_extent_def)

lemma dec_file_extent_enc [simp, codec]: "dec_file_extent (enc_file_extent e @ bs) = e"
  by (simp add: dec_file_extent_def enc_file_extent_def)

lemma length_enc_extents [simp, codec]: "length (enc_extents es) = 16 * length es"
  by (induction es) (simp_all add: enc_extents_def)

lemma drop_enc_extents:
  "i < length es \<Longrightarrow> \<exists>bs. drop (16 * i) (enc_extents es) = enc_file_extent (es ! i) @ bs"
proof (induction es arbitrary: i)
  case (Cons e es)
  then show ?case by (cases i) (auto simp: enc_extents_def)
qed simp

lemma dec_extents_enc [simp, codec]: "dec_extents (enc_extents es) = es"
proof (rule nth_equalityI)
  fix i assume "i < length (dec_extents (enc_extents es))"
  then have i: "i < length es" by (simp add: dec_extents_def)
  obtain bs where "drop (16 * i) (enc_extents es) = enc_file_extent (es ! i) @ bs"
    using drop_enc_extents [OF i] by blast
  with i show "dec_extents (enc_extents es) ! i = es ! i" by (simp add: dec_extents_def)
qed (simp add: dec_extents_def)

lemma inode_db_names [simp]:
  "INODES_DB_NAME \<noteq> HEAP_DB_NAME" "HEAP_DB_NAME \<noteq> INODES_DB_NAME"
  "INODES_DB_NAME \<noteq> EXTENTS_DB_NAME" "EXTENTS_DB_NAME \<noteq> INODES_DB_NAME"
  "META_DB_NAME \<noteq> INODES_DB_NAME" "INODES_DB_NAME \<noteq> META_DB_NAME"
  "META_DB_NAME \<noteq> HEAP_DB_NAME" "HEAP_DB_NAME \<noteq> META_DB_NAME"
  "META_DB_NAME \<noteq> EXTENTS_DB_NAME" "EXTENTS_DB_NAME \<noteq> META_DB_NAME"
  by (simp_all add: INODES_DB_NAME_def HEAP_DB_NAME_def EXTENTS_DB_NAME_def META_DB_NAME_def)

lemma mdb_key_ok_next_inode [simp]: "mdb_key_ok next_inode_id_key"
  by (simp add: mdb_key_ok_def next_inode_id_key_def cstr_def)

section \<open>The loop over a directory\<close>

fun fold_stop :: "('e \<Rightarrow> 's \<Rightarrow> 's + 'r) \<Rightarrow> 'e list \<Rightarrow> 's \<Rightarrow> 's + 'r" where
  "fold_stop f [] s = Inl s"
| "fold_stop f (e # es) s = (case f e s of Inr r \<Rightarrow> Inr r | Inl s' \<Rightarrow> fold_stop f es s')"

lemma enc_dir_simps [simp]:
  "enc_dir [] = []" "enc_dir (e # es) = enc_head e @ fst e @ enc_dir es"
  "enc_dir (es @ es') = enc_dir es @ enc_dir es'"
  by (simp_all add: enc_dir_def)

lemma names_ok_simps [simp]:
  "names_ok []" "names_ok (e # es) \<longleftrightarrow> length (fst e) < 256 \<and> names_ok es"
  "names_ok (es @ es') \<longleftrightarrow> names_ok es \<and> names_ok es'"
  by (simp_all add: names_ok_def)

text \<open>What the entry after \<open>pre\<close> looks like.\<close>

lemma entry_at:
  fixes pre post :: "dir_entry list"
  assumes "length (fst e) < 256"
  defines "data \<equiv> enc_dir (pre @ e # post)" and "p \<equiv> length (enc_dir pre)"
  shows "entry_name_len data p = length (fst e)" "entry_inode_id data p = snd e"
    "entry_name data p = fst e" "take 16 (drop p data) = enc_head e"
    "p + 16 + length (fst e) \<le> length data"
proof -
  have n: "data ! (p + 8) = word_of_nat (length (fst e))"
    by (simp add: data_def p_def nth_append enc_head_def)
  then show l: "entry_name_len data p = length (fst e)"
    using assms(1) by (simp add: entry_name_len_def unat_of_nat)
  show "entry_inode_id data p = snd e"
    by (simp add: entry_inode_id_def data_def p_def enc_head_def)
  show "entry_name data p = fst e"
    unfolding entry_name_def l by (simp add: data_def p_def)
  show "take 16 (drop p data) = enc_head e" "p + 16 + length (fst e) \<le> length data"
    by (simp_all add: data_def p_def)
qed

lemma dir_loop_fold:
  assumes "names_ok (pre @ es)" "unat len = length (enc_dir (pre @ es))"
    and "\<And>pre' e post s. pre @ es = pre' @ e # post \<Longrightarrow> body (length (enc_dir pre')) s = f e s"
    and "cur = (if pre = [] then None else Some (length (enc_dir (butlast pre))))"
  shows "dir_loop body (enc_dir (pre @ es)) len cur s = Some (fold_stop f es s)"
  using assms
proof (induction es arbitrary: pre cur s)
  case Nil
  have "mtl_load_next_directory_entry (enc_dir pre) len cur = None"
  proof (cases "pre = []")
    case True
    then show ?thesis using Nil.prems by (simp add: mtl_load_next_directory_entry_def)
  next
    case False
    then obtain pre' e where p: "pre = pre' @ [e]" by (metis append_butlast_last_id)
    then show ?thesis
      using Nil.prems entry_at(1) [of e pre' "[]"]
      by (simp add: mtl_load_next_directory_entry_def)
  qed
  then show ?case by (simp add: dir_loop.simps)
next
  case (Cons e es)
  let ?data = "enc_dir (pre @ e # es)" and ?p = "length (enc_dir pre)"
  note at = entry_at [of e pre es]
  have "mtl_load_next_directory_entry ?data len cur = Some ?p"
  proof (cases "pre = []")
    case True
    then show ?thesis using Cons.prems by (simp add: mtl_load_next_directory_entry_def)
  next
    case False
    then obtain pre' e' where p: "pre = pre' @ [e']" by (metis append_butlast_last_id)
    then show ?thesis
      using Cons.prems entry_at(1) [of e' pre' "e # es"]
      by (simp add: mtl_load_next_directory_entry_def)
  qed
  moreover have "body ?p s' = f e s'" for s' using Cons.prems(3) [of pre e es] by simp
  moreover have "dir_loop body (enc_dir ((pre @ [e]) @ es)) len (Some ?p) s' = Some (fold_stop f es s')"
    for s'
    using Cons.prems by (intro Cons.IH) auto
  ultimately show ?case
    using Cons.prems(1) at by (simp add: dir_loop.simps split: sum.split)
qed

corollary dir_loop_enc:
  assumes "names_ok es" "unat len = length (enc_dir es)"
    and "\<And>pre e post s. es = pre @ e # post \<Longrightarrow> body (length (enc_dir pre)) s = f e s"
  shows "dir_loop body (enc_dir es) len None s = Some (fold_stop f es s)"
  using dir_loop_fold [of "[]" es len body f None s] assms by simp

text \<open>The entries are determined by the data.\<close>

lemma enc_head_inject:
  assumes "enc_head e = enc_head e'" "length (fst e) < 256" "length (fst e') < 256"
  shows "snd e = snd e' \<and> length (fst e) = length (fst e')"
proof -
  have "enc64 (snd e) = enc64 (snd e')" "(word_of_nat (length (fst e)) :: u8) = word_of_nat (length (fst e'))"
    using assms(1) by (auto simp: enc_head_def)
  then show ?thesis using assms(2,3) by (auto simp: word_of_nat_eq_iff take_bit_nat_eq_self)
qed

lemma enc_dir_inject: "names_ok es \<Longrightarrow> names_ok es' \<Longrightarrow> enc_dir es = enc_dir es' \<Longrightarrow> es = es'"
proof (induction es arbitrary: es')
  case Nil
  then show ?case by (cases es') auto
next
  case (Cons e es)
  obtain e' es'' where es': "es' = e' # es''"
    using Cons.prems(3) by (cases es') auto
  have "enc_head e = enc_head e'" "fst e @ enc_dir es = fst e' @ enc_dir es''"
    using Cons.prems(3) by (auto simp: es')
  moreover from this have "snd e = snd e'" "length (fst e) = length (fst e')"
    using enc_head_inject [of e e'] Cons.prems(1,2) by (auto simp: es')
  ultimately have "e = e'" "enc_dir es = enc_dir es''" by (auto simp: prod_eq_iff)
  then show ?case using Cons by (auto simp: es')
qed

lemma is_dir_unique: "is_dir I d es \<Longrightarrow> is_dir I d es' \<Longrightarrow> es = es'"
  by (auto simp: is_dir_def intro: enc_dir_inject)

text \<open>The searches of \<open>mtl_resolve_inode_in_directory\<close> and \<open>mtl_append_inode_id_to_directory\<close>.\<close>

lemma fold_stop_find:
  "fold_stop (\<lambda>e s. if fst e = name then Inr (g e) else Inl s) es () =
     (case find (\<lambda>e. fst e = name) es of None \<Rightarrow> Inl () | Some e \<Rightarrow> Inr (g e))"
  by (induction es) auto

lemma find_map_of:
  "map_option snd (find (\<lambda>e. fst e = name) es) = map_of es name"
  by (induction es) auto

text \<open>The copy of \<open>mtl_remove_entry_from_directory\<close>: enough room, and not enough.\<close>

definition copy_step :: "bytes \<Rightarrow> nat \<Rightarrow> dir_entry \<Rightarrow> bytes \<times> u64 option \<Rightarrow>
    (bytes \<times> u64 option) + u64 option" where
  "copy_step name room e s =
     (if fst e = name then Inl (fst s, Some (snd e))
      else if length (fst s) + length (fst e) + 16 > room then Inr (snd s)
      else Inl (fst s @ enc_head e @ fst e, snd s))"

lemma copy_fits:
  "length acc + length (enc_dir (filter (\<lambda>e. fst e \<noteq> name) es)) \<le> room \<Longrightarrow>
     distinct (map fst es) \<Longrightarrow>
     fold_stop (copy_step name room) es (acc, i) =
       Inl (acc @ enc_dir (filter (\<lambda>e. fst e \<noteq> name) es),
            case map_of es name of None \<Rightarrow> i | Some j \<Rightarrow> Some j)"
proof (induction es arbitrary: acc i)
  case (Cons e es)
  have "fst e = name \<Longrightarrow> map_of es name = None" using Cons.prems(2) by (auto simp: map_of_eq_None_iff)
  then show ?case using Cons by (auto simp: copy_step_def split: option.split)
qed simp

lemma copy_overflows:
  "length acc \<le> room \<Longrightarrow> room < length acc + length (enc_dir es) \<Longrightarrow> name \<notin> fst ` set es \<Longrightarrow>
     fold_stop (copy_step name room) es (acc, i) = Inr i"
  by (induction es arbitrary: acc) (auto simp: copy_step_def)

lemma length_enc_dir_remove:
  "distinct (map fst es) \<Longrightarrow> name \<in> fst ` set es \<Longrightarrow>
     length (enc_dir es) = length (enc_dir (filter (\<lambda>e. fst e \<noteq> name) es)) + 16 + length name"
proof (induction es)
  case (Cons e es)
  have "filter (\<lambda>e. fst e \<noteq> name) es = es" if "fst e = name"
  proof (rule filter_True, rule ballI)
    fix x assume "x \<in> set es"
    then show "fst x \<noteq> name" using Cons.prems(1) that by (metis distinct.simps(2) image_eqI list.simps(9) list.set_map)
  qed
  then show ?case using Cons by (cases "fst e = name") simp_all
qed simp

section \<open>The operations on the abstract view\<close>

context lmdb
begin

lemma load_inode_eq:
  "mtl_load_inode L t i =
     (case inodes_of L t i of None \<Rightarrow> (MTL_ERROR_NOENTRY, None) | Some p \<Rightarrow> (MTL_SUCCESS, Some p))"
  by (simp add: inodes_of_def mtl_load_inode_def split: option.splits)

lemma load_file_eq:
  "mtl_load_file L t i =
     (case inodes_of L t i of None \<Rightarrow> (MTL_ERROR_NOENTRY, None)
      | Some (n, data) \<Rightarrow> (MTL_SUCCESS, Some (n, dec_extents data)))"
  by (simp add: mtl_load_file_def load_inode_eq split: option.splits)

lemma inodes_of_get:
  "inodes_of L t i = map_option (\<lambda>v. (dec_inode v, drop 40 v)) (mdb_get L t INODES_DB_NAME (enc64 i))"
  by (simp add: inodes_of_def mtl_load_inode_def split: option.splits)

lemma put_inode:
  assumes "mtl_put_inode L t i n data = (r, t')"
  shows "r = MTL_SUCCESS" "inodes_of L t' = (inodes_of L t)(i \<mapsto> (n, data))"
    "beside_inodes L t' = beside_inodes L t"
  using assms by (auto simp: mtl_put_inode_def inodes_of_get get_put beside_inodes_def fun_eq_iff)

lemma delete_inode:
  assumes "mtl_delete_inode L t i = (r, t')"
  shows "r = MTL_SUCCESS" "inodes_of L t' = (inodes_of L t)(i := None)"
    "beside_inodes L t' = beside_inodes L t"
  using assms get_del [of t INODES_DB_NAME "enc64 i"] del_None [of t INODES_DB_NAME "enc64 i"]
  by (auto simp: mtl_delete_inode_def inodes_of_get beside_inodes_def fun_eq_iff split: option.splits)

lemma next_inode_id:
  assumes "mtl_next_inode_id L t = (n, t')"
  shows "n = next_id L t" "next_id L t' = next_id L t + 1" "inodes_of L t' = inodes_of L t"
    "\<And>db k. db \<noteq> META_DB_NAME \<Longrightarrow> mdb_get L t' db k = mdb_get L t db k"
  using assms
  by (auto simp: mtl_next_inode_id_def mtl_next_id_def next_id_def Let_def get_put inodes_of_get
      fun_eq_iff)

lemma beside_inodes_view:
  assumes "beside_inodes L t' = beside_inodes L t"
  shows "next_id L t' = next_id L t" "extents_of L t' = extents_of L t"
    "extents_inv L n t' \<longleftrightarrow> extents_inv L n t"
proof -
  have g: "mdb_get L t' db k = mdb_get L t db k" if "db \<noteq> INODES_DB_NAME" for db k
    using assms that by (auto simp: beside_inodes_def fun_eq_iff split: if_splits)
  then show "next_id L t' = next_id L t" "extents_of L t' = extents_of L t"
    by (simp_all add: next_id_def extents_of_get fun_eq_iff)
  then show "extents_inv L n t' \<longleftrightarrow> extents_inv L n t"
    using g by (simp add: extents_inv_def heap_wf_def extent_keys_wf_def heap_nodes_def)
qed

lemma beside_extents_view:
  assumes "beside_extents L t' = beside_extents L t"
  shows "next_id L t' = next_id L t" "inodes_of L t' = inodes_of L t"
proof -
  have "mdb_get L t' db k = mdb_get L t db k" if "db \<noteq> HEAP_DB_NAME" "db \<noteq> EXTENTS_DB_NAME" for db k
    using assms that by (auto simp: beside_extents_def fun_eq_iff split: if_splits)
  then show "next_id L t' = next_id L t" "inodes_of L t' = inodes_of L t"
    by (simp_all add: next_id_def inodes_of_get fun_eq_iff)
qed

lemma resolve_in_dir:
  assumes "is_dir (inodes_of L t) d es"
  shows "mtl_resolve_inode_in_directory L t d name =
    Some (case map_of es name of None \<Rightarrow> (MTL_ERROR_NOENTRY, None) | Some i \<Rightarrow> (MTL_SUCCESS, Some i))"
proof -
  obtain i where i: "inodes_of L t d = Some (i, enc_dir es)" "i_type i = MTL_DIRECTORY"
      "unat (i_length i) = length (enc_dir es)" and ok: "names_ok es"
    using assms by (auto simp: is_dir_def)
  have len: "length (fst e) < 256" if "es = pre @ e # post" for pre e post using ok that by simp
  have "dir_loop (\<lambda>p s. if length name \<noteq> entry_name_len (enc_dir es) p then Inl s
            else if entry_name (enc_dir es) p = name then Inr (entry_inode_id (enc_dir es) p) else Inl s)
          (enc_dir es) (i_length i) None () =
        Some (fold_stop (\<lambda>e s. if fst e = name then Inr (snd e) else Inl s) es ())"
    by (rule dir_loop_enc [OF ok i(3)]) (use entry_at(1-3) len in auto)
  then show ?thesis
    using i fold_stop_find [of name snd es]
    by (cases "find (\<lambda>e. fst e = name) es")
      (simp_all add: mtl_resolve_inode_in_directory_def load_inode_eq flip: find_map_of)
qed

lemma append_to_dir:
  assumes d: "is_dir (inodes_of L t) d es" and n: "length name < 256"
    and room: "length (enc_dir es) + 16 + length name < 2 ^ 64"
  shows "name \<in> fst ` set es \<Longrightarrow>
      mtl_append_inode_id_to_directory L t d name j = Some (MTL_ERROR_EXISTS, t)"
    and "name \<notin> fst ` set es \<Longrightarrow>
      \<exists>i t'. mtl_append_inode_id_to_directory L t d name j = Some (MTL_SUCCESS, t') \<and>
        inodes_of L t' = (inodes_of L t)(d \<mapsto> (i, enc_dir (es @ [(name, j)]))) \<and>
        is_dir (inodes_of L t') d (es @ [(name, j)]) \<and> beside_inodes L t' = beside_inodes L t"
proof -
  obtain i where i: "inodes_of L t d = Some (i, enc_dir es)" "i_type i = MTL_DIRECTORY"
      "unat (i_length i) = length (enc_dir es)" and ok: "names_ok es" "distinct (map fst es)"
    using d by (auto simp: is_dir_def)
  have len: "length (fst e) < 256" if "es = pre @ e # post" for pre e post using ok that by simp
  have l: "dir_loop (\<lambda>p s. if length name \<noteq> entry_name_len (enc_dir es) p then Inl s
            else if entry_name (enc_dir es) p = name then Inr MTL_ERROR_EXISTS else Inl s)
          (enc_dir es) (i_length i) None () =
        Some (fold_stop (\<lambda>e s. if fst e = name then Inr MTL_ERROR_EXISTS else Inl s) es ())"
    by (rule dir_loop_enc [OF ok(1) i(3)]) (use entry_at(1,3) len in auto)
  note f = fold_stop_find [of name "\<lambda>e. MTL_ERROR_EXISTS" es]
  show "mtl_append_inode_id_to_directory L t d name j = Some (MTL_ERROR_EXISTS, t)"
    if mem: "name \<in> fst ` set es"
  proof -
    obtain e where "find (\<lambda>e. fst e = name) es = Some e"
      using mem by (cases "find (\<lambda>e. fst e = name) es") (force simp: find_None_iff)+
    then show ?thesis
      using i l f by (simp add: mtl_append_inode_id_to_directory_def load_inode_eq)
  qed
  show "\<exists>i t'. mtl_append_inode_id_to_directory L t d name j = Some (MTL_SUCCESS, t') \<and>
        inodes_of L t' = (inodes_of L t)(d \<mapsto> (i, enc_dir (es @ [(name, j)]))) \<and>
        is_dir (inodes_of L t') d (es @ [(name, j)]) \<and> beside_inodes L t' = beside_inodes L t"
    if new: "name \<notin> fst ` set es"
  proof -
    have nf: "find (\<lambda>e. fst e = name) es = None" using new by (force simp: find_None_iff)
    let ?i = "i\<lparr>i_length := i_length i + 16 + word_of_nat (length name)\<rparr>"
    let ?es = "es @ [(name, j)]"
    obtain r t' where p: "mtl_put_inode L t d ?i (enc_dir ?es) = (r, t')"
      by (cases "mtl_put_inode L t d ?i (enc_dir ?es)")
    note v = put_inode [OF p]
    have "unat (i_length ?i) = length (enc_dir ?es)"
      using i(3) room n by (simp add: unat_word_ariths unat_of_nat)
    then have "is_dir (inodes_of L t') d ?es"
      using v(2) i(2) ok n new by (simp add: is_dir_def)
    moreover have "mtl_append_inode_id_to_directory L t d name j = Some (MTL_SUCCESS, t')"
      using i l f nf p v(1)
      by (simp add: mtl_append_inode_id_to_directory_def load_inode_eq enc_head_def)
    ultimately show ?thesis using v(2,3) by auto
  qed
qed

lemma remove_from_dir:
  fixes name :: bytes
  assumes d: "is_dir (inodes_of L t) d es"
  defines "es' \<equiv> filter (\<lambda>e. fst e \<noteq> name) es"
  shows "name \<in> fst ` set es \<Longrightarrow>
      \<exists>i t'. mtl_remove_entry_from_directory L t d name = Some (MTL_SUCCESS, map_of es name, t') \<and>
        inodes_of L t' = (inodes_of L t)(d \<mapsto> (i, enc_dir es')) \<and>
        is_dir (inodes_of L t') d es' \<and> beside_inodes L t' = beside_inodes L t"
    and "name \<notin> fst ` set es \<Longrightarrow> mtl_remove_entry_from_directory L t d name =
      (if length (enc_dir es) < 16 + length name then None else Some (MTL_ERROR_NOENTRY, None, t))"
proof -
  obtain i where i: "inodes_of L t d = Some (i, enc_dir es)" "i_type i = MTL_DIRECTORY"
      "unat (i_length i) = length (enc_dir es)" and ok: "names_ok es" "distinct (map fst es)"
    using d by (auto simp: is_dir_def)
  let ?room = "length (enc_dir es) - (16 + length name)"
  have len: "length (fst e) < 256" if "es = pre @ e # post" for pre e post using ok that by simp
  have l: "dir_loop (\<lambda>p (new_data, inode_id).
        if length name = entry_name_len (enc_dir es) p \<and> entry_name (enc_dir es) p = name
        then Inl (new_data, Some (entry_inode_id (enc_dir es) p))
        else if length new_data + entry_name_len (enc_dir es) p + 16 > room then Inr inode_id
        else Inl (new_data @ take 16 (drop p (enc_dir es)) @ entry_name (enc_dir es) p, inode_id))
      (enc_dir es) (i_length i) None ([], None) =
    Some (fold_stop (copy_step name room) es ([], None))" for room
    by (rule dir_loop_enc [OF ok(1) i(3)]) (use entry_at(1-4) len in \<open>auto simp: copy_step_def\<close>)
  have room: "unat (i_length i - (16 + word_of_nat (length name))) = ?room"
    if "16 + length name \<le> length (enc_dir es)"
  proof -
    have b: "16 + length name < 2 ^ 64" using that i(3) unat_u64_bound [of "i_length i"] by simp
    then have "unat (16 + word_of_nat (length name) :: u64) = 16 + length name"
      by (simp add: unat_word_ariths unat_of_nat)
    then show ?thesis using that i(3) by (simp add: unat_sub_exact)
  qed
  show "mtl_remove_entry_from_directory L t d name =
      (if length (enc_dir es) < 16 + length name then None else Some (MTL_ERROR_NOENTRY, None, t))"
    if nf: "name \<notin> fst ` set es"
  proof (cases "length (enc_dir es) < 16 + length name")
    case True
    then show ?thesis using i by (simp add: mtl_remove_entry_from_directory_def load_inode_eq)
  next
    case False
    then have "fold_stop (copy_step name ?room) es ([], None) = Inr None"
      using nf by (intro copy_overflows) auto
    then show ?thesis
      using False i l room by (simp add: mtl_remove_entry_from_directory_def load_inode_eq Let_def)
  qed
  show "\<exists>i t'. mtl_remove_entry_from_directory L t d name = Some (MTL_SUCCESS, map_of es name, t') \<and>
        inodes_of L t' = (inodes_of L t)(d \<mapsto> (i, enc_dir es')) \<and>
        is_dir (inodes_of L t') d es' \<and> beside_inodes L t' = beside_inodes L t"
    if f: "name \<in> fst ` set es"
  proof -
    have le: "length (enc_dir es) = length (enc_dir es') + 16 + length name"
      using length_enc_dir_remove [OF ok(2) f] by (simp add: es'_def)
    have c: "fold_stop (copy_step name ?room) es ([], None) = Inl (enc_dir es', map_of es name)"
      using copy_fits [of "[]" name es ?room None] ok(2) le
      by (auto simp: es'_def split: option.splits)
    let ?i = "i\<lparr>i_length := i_length i - (16 + word_of_nat (length name))\<rparr>"
    obtain r t' where p: "mtl_put_inode L t d ?i (enc_dir es') = (r, t')"
      by (cases "mtl_put_inode L t d ?i (enc_dir es')")
    note v = put_inode [OF p]
    have "names_ok es'" using ok(1) by (auto simp: names_ok_def es'_def list_all_iff)
    moreover have "distinct (map fst es')" unfolding es'_def using ok(2) by (rule distinct_map_filter)
    ultimately have "is_dir (inodes_of L t') d es'"
      using v(2) i(2) room le by (simp add: is_dir_def)
    moreover have "mtl_remove_entry_from_directory L t d name = Some (MTL_SUCCESS, map_of es name, t')"
      using i l room le c p v(1)
      by (simp add: mtl_remove_entry_from_directory_def load_inode_eq Let_def)
    ultimately show ?thesis using v(2,3) by auto
  qed
qed

lemma remove_dir:
  assumes d: "is_dir (inodes_of L t) d es"
  shows "mtl_remove_directory L t d =
    (if fst ` set es \<subseteq> {cstr ''.'', cstr ''..''} then Some (mtl_delete_inode L t d)
     else Some (MTL_ERROR_NOTEMPTY, t))"
proof -
  obtain i where i: "inodes_of L t d = Some (i, enc_dir es)" "i_type i = MTL_DIRECTORY"
      "unat (i_length i) = length (enc_dir es)" and ok: "names_ok es" "distinct (map fst es)"
    using d by (auto simp: is_dir_def)
  have len: "length (fst e) < 256" if "es = pre @ e # post" for pre e post using ok that by simp
  have c: "length (cstr ''.'') = 1" "length (cstr ''..'') = 2" by (simp_all add: cstr_def)
  let ?f = "\<lambda>(e :: dir_entry) (s :: unit). if fst e \<in> {cstr ''.'', cstr ''..''} then Inl s else Inr MTL_ERROR_NOTEMPTY"
  have "dir_loop (\<lambda>p s. if entry_name_len (enc_dir es) p = 1 \<and> entry_name (enc_dir es) p = cstr ''.''
            then Inl s
            else if entry_name_len (enc_dir es) p = 2 \<and> entry_name (enc_dir es) p = cstr ''..''
            then Inl s else Inr MTL_ERROR_NOTEMPTY)
          (enc_dir es) (i_length i) None () = Some (fold_stop ?f es ())"
  proof (rule dir_loop_enc [OF ok(1) i(3)])
    fix pre e post s assume es: "es = pre @ e # post"
    note at = entry_at(1,3) [OF len [OF es], of pre post]
    show "(if entry_name_len (enc_dir es) (length (enc_dir pre)) = 1 \<and>
          entry_name (enc_dir es) (length (enc_dir pre)) = cstr ''.'' then Inl s
        else if entry_name_len (enc_dir es) (length (enc_dir pre)) = 2 \<and>
          entry_name (enc_dir es) (length (enc_dir pre)) = cstr ''..'' then Inl s
        else Inr MTL_ERROR_NOTEMPTY) = ?f e s"
      using c unfolding es at by (auto simp del: MTL_ERROR_NOTEMPTY_def)
  qed
  moreover have "fold_stop ?f es () =
      (if fst ` set es \<subseteq> {cstr ''.'', cstr ''..''} then Inl () else Inr MTL_ERROR_NOTEMPTY)"
    by (induction es) auto
  ultimately show ?thesis
    using i by (simp add: mtl_remove_directory_def load_inode_eq)
qed

end

section \<open>The interface of a directory\<close>

lemma map_of_snoc: "x \<notin> fst ` set es \<Longrightarrow> map_of (es @ [(x, j)]) x = Some j"
  by (induction es) auto

lemma map_of_snoc_other: "y \<noteq> x \<Longrightarrow> map_of (es @ [(x, j)]) y = map_of es y"
  by (induction es) auto

text \<open>
  What the callers of the directory operations rely on: a directory is a list of entries with
  distinct names, looked up, extended and shortened by name.
\<close>

locale directory_contract =
  fixes dir :: "'t \<Rightarrow> u64 \<Rightarrow> dir_entry list \<Rightarrow> bool"
    and frame :: "'t \<Rightarrow> u64 \<Rightarrow> 'f"
    and lookup :: "'t \<Rightarrow> u64 \<Rightarrow> bytes \<Rightarrow> (int \<times> u64 option) option"
    and app :: "'t \<Rightarrow> u64 \<Rightarrow> bytes \<Rightarrow> u64 \<Rightarrow> (int \<times> 't) option"
    and rem :: "'t \<Rightarrow> u64 \<Rightarrow> bytes \<Rightarrow> (int \<times> u64 option \<times> 't) option"
    and fits :: "dir_entry list \<Rightarrow> bytes \<Rightarrow> bool"
  assumes names: "dir t d es \<Longrightarrow> distinct (map fst es)"
    and dir_frame: "frame t' d = frame t d \<Longrightarrow> dir t' d es \<longleftrightarrow> dir t d es"
    and look: "dir t d es \<Longrightarrow> lookup t d name =
      Some (case map_of es name of None \<Rightarrow> (MTL_ERROR_NOENTRY, None) | Some i \<Rightarrow> (MTL_SUCCESS, Some i))"
    and app_exists: "dir t d es \<Longrightarrow> fits es name \<Longrightarrow> name \<in> fst ` set es \<Longrightarrow>
      app t d name j = Some (MTL_ERROR_EXISTS, t)"
    and app_new: "dir t d es \<Longrightarrow> fits es name \<Longrightarrow> name \<notin> fst ` set es \<Longrightarrow>
      \<exists>t'. app t d name j = Some (MTL_SUCCESS, t') \<and> dir t' d (es @ [(name, j)]) \<and>
        (\<forall>i. i \<noteq> d \<longrightarrow> frame t' i = frame t i)"
    and rem_found: "dir t d es \<Longrightarrow> name \<in> fst ` set es \<Longrightarrow>
      \<exists>t'. rem t d name = Some (MTL_SUCCESS, map_of es name, t') \<and>
        dir t' d (filter (\<lambda>e. fst e \<noteq> name) es) \<and> (\<forall>i. i \<noteq> d \<longrightarrow> frame t' i = frame t i)"
    and rem_missing: "dir t d es \<Longrightarrow> name \<notin> fst ` set es \<Longrightarrow>
      rem t d name = Some (MTL_ERROR_NOENTRY, None, t) \<or> rem t d name = None"
begin

lemma lookup_app:
  assumes "dir t d es" "fits es name" "app t d name j = Some (r, t')"
  shows "lookup t' d name = Some (MTL_SUCCESS, if r = MTL_SUCCESS then Some j else map_of es name)"
    "name' \<noteq> name \<Longrightarrow> lookup t' d name' = lookup t d name'"
proof -
  show "lookup t' d name = Some (MTL_SUCCESS, if r = MTL_SUCCESS then Some j else map_of es name)"
  proof (cases "name \<in> fst ` set es")
    case True
    then show ?thesis
      using app_exists [OF assms(1,2) True, of j] assms(1,3) look [OF assms(1), of name]
        map_of_eq_None_iff [of es name] by (auto split: option.splits)
  next
    case False
    then have "map_of (es @ [(name, j)]) name = Some j" by (rule map_of_snoc)
    then show ?thesis
      using app_new [OF assms(1,2) False, of j] assms(3) look [of t' d "es @ [(name, j)]" name] by auto
  qed
  show "lookup t' d name' = lookup t d name'" if ne: "name' \<noteq> name"
  proof (cases "name \<in> fst ` set es")
    case True
    then show ?thesis using app_exists [OF assms(1,2) True, of j] assms(3) by simp
  next
    case False
    have "map_of (es @ [(name, j)]) name' = map_of es name'"
      using ne by (rule map_of_snoc_other)
    then show ?thesis
      using app_new [OF assms(1,2) False, of j] assms(3) look [of t' d "es @ [(name, j)]" name']
        look [OF assms(1), of name'] by auto
  qed
qed

lemma app_rem:
  assumes "dir t d es" "fits es name" "name \<notin> fst ` set es"
    and "app t d name j = Some (r, t')" "rem t' d name = Some (r', k, t'')"
  shows "r = MTL_SUCCESS \<and> r' = MTL_SUCCESS \<and> k = Some j \<and> dir t'' d es"
proof -
  have a: "r = MTL_SUCCESS" "dir t' d (es @ [(name, j)])"
    using app_new [OF assms(1-3), of j] assms(4) by auto
  have "filter (\<lambda>e. fst e \<noteq> name) (es @ [(name, j)]) = es"
    using assms(3) by (auto simp: filter_id_conv)
  moreover have "map_of (es @ [(name, j)]) name = Some j"
    using assms(3) by (rule map_of_snoc)
  ultimately show ?thesis using rem_found [OF a(2), of name] assms(5) a(1) by auto
qed

end

definition dir_fits :: "dir_entry list \<Rightarrow> bytes \<Rightarrow> bool" where
  "dir_fits es name \<longleftrightarrow> length name < 256 \<and> length (enc_dir es) + 16 + length name < 2 ^ 64"

sublocale lmdb \<subseteq> dirs: directory_contract "\<lambda>t. is_dir (inodes_of L t)" "inodes_of L"
  "mtl_resolve_inode_in_directory L" "mtl_append_inode_id_to_directory L"
  "mtl_remove_entry_from_directory L" dir_fits
proof
  fix t t' d es name j
  show "is_dir (inodes_of L t) d es \<Longrightarrow> distinct (map fst es)" by (simp add: is_dir_def)
  show "inodes_of L t' d = inodes_of L t d \<Longrightarrow>
      is_dir (inodes_of L t') d es \<longleftrightarrow> is_dir (inodes_of L t) d es" by (simp add: is_dir_def)
  show "is_dir (inodes_of L t) d es \<Longrightarrow> mtl_resolve_inode_in_directory L t d name =
      Some (case map_of es name of None \<Rightarrow> (MTL_ERROR_NOENTRY, None) | Some i \<Rightarrow> (MTL_SUCCESS, Some i))"
    by (rule resolve_in_dir)
  show "is_dir (inodes_of L t) d es \<Longrightarrow> dir_fits es name \<Longrightarrow> name \<in> fst ` set es \<Longrightarrow>
      mtl_append_inode_id_to_directory L t d name j = Some (MTL_ERROR_EXISTS, t)"
    by (rule append_to_dir(1)) (simp_all add: dir_fits_def)
  show "is_dir (inodes_of L t) d es \<Longrightarrow> dir_fits es name \<Longrightarrow> name \<notin> fst ` set es \<Longrightarrow>
      \<exists>t'. mtl_append_inode_id_to_directory L t d name j = Some (MTL_SUCCESS, t') \<and>
        is_dir (inodes_of L t') d (es @ [(name, j)]) \<and> (\<forall>i. i \<noteq> d \<longrightarrow> inodes_of L t' i = inodes_of L t i)"
    using append_to_dir(2) [of t d es name j] by (fastforce simp: dir_fits_def)
  show "is_dir (inodes_of L t) d es \<Longrightarrow> name \<in> fst ` set es \<Longrightarrow>
      \<exists>t'. mtl_remove_entry_from_directory L t d name = Some (MTL_SUCCESS, map_of es name, t') \<and>
        is_dir (inodes_of L t') d (filter (\<lambda>e. fst e \<noteq> name) es) \<and>
        (\<forall>i. i \<noteq> d \<longrightarrow> inodes_of L t' i = inodes_of L t i)"
    using remove_from_dir(1) [of t d es name] by fastforce
  show "is_dir (inodes_of L t) d es \<Longrightarrow> name \<notin> fst ` set es \<Longrightarrow>
      mtl_remove_entry_from_directory L t d name = Some (MTL_ERROR_NOENTRY, None, t) \<or>
      mtl_remove_entry_from_directory L t d name = None"
    using remove_from_dir(2) [of t d es name] by auto
qed

section \<open>New inodes\<close>

text \<open>Inode numbers are handed out in order, and no inode has a number that is still to come.\<close>

definition ids_fresh :: "'t mdb_ops \<Rightarrow> 't \<Rightarrow> bool" where
  "ids_fresh L t \<longleftrightarrow> (\<forall>i. inodes_of L t i \<noteq> None \<longrightarrow> i < next_id L t)"

context lmdb
begin

lemma next_inode_id_beside:
  assumes "mtl_next_inode_id L t = (n, t')"
  shows "extents_of L t' = extents_of L t" "extents_inv L m t' \<longleftrightarrow> extents_inv L m t"
proof -
  show "extents_of L t' = extents_of L t"
    using next_inode_id(4) [OF assms] by (simp add: extents_of_get fun_eq_iff)
  then show "extents_inv L m t' \<longleftrightarrow> extents_inv L m t"
    using next_inode_id(4) [OF assms]
    by (simp add: extents_inv_def heap_wf_def extent_keys_wf_def heap_nodes_def)
qed

lemma create_file:
  assumes d: "is_dir (inodes_of L t) d es" and f: "dir_fits es name"
    and fresh: "inodes_of L t (next_id L t) = None"
  shows "name \<in> fst ` set es \<Longrightarrow>
      \<exists>t'. mtl_create_file_in_directory L now t d name mode = Some (MTL_ERROR_EXISTS, next_id L t, t')"
    and "name \<notin> fst ` set es \<Longrightarrow>
      \<exists>i t'. mtl_create_file_in_directory L now t d name mode = Some (MTL_SUCCESS, next_id L t, t') \<and>
        is_dir (inodes_of L t') d (es @ [(name, next_id L t)]) \<and>
        inodes_of L t' = (inodes_of L t)(d \<mapsto> (i, enc_dir (es @ [(name, next_id L t)])),
          next_id L t \<mapsto> (new_inode MTL_FILE (or mode S_IFREG) now, [])) \<and>
        next_id L t' = next_id L t + 1 \<and> extents_of L t' = extents_of L t \<and>
        (\<forall>m. extents_inv L m t' = extents_inv L m t)"
proof -
  let ?n = "next_id L t"
  obtain n t1 where nx: "mtl_next_inode_id L t = (n, t1)" by (cases "mtl_next_inode_id L t")
  note v1 = next_inode_id [OF nx] next_inode_id_beside [OF nx]
  have d1: "is_dir (inodes_of L t1) d es" using d v1(3) by simp
  note f' = f [unfolded dir_fits_def, THEN conjunct1] f [unfolded dir_fits_def, THEN conjunct2]
  have dn: "d \<noteq> ?n" using d fresh by (auto simp: is_dir_def)
  show "\<exists>t'. mtl_create_file_in_directory L now t d name mode = Some (MTL_ERROR_EXISTS, ?n, t')"
    if "name \<in> fst ` set es"
    using append_to_dir(1) [OF d1 f' that] nx v1(1) by (simp add: mtl_create_file_in_directory_def)
  show "\<exists>i t'. mtl_create_file_in_directory L now t d name mode = Some (MTL_SUCCESS, ?n, t') \<and>
        is_dir (inodes_of L t') d (es @ [(name, ?n)]) \<and>
        inodes_of L t' = (inodes_of L t)(d \<mapsto> (i, enc_dir (es @ [(name, ?n)])),
          ?n \<mapsto> (new_inode MTL_FILE (or mode S_IFREG) now, [])) \<and>
        next_id L t' = ?n + 1 \<and> extents_of L t' = extents_of L t \<and>
        (\<forall>m. extents_inv L m t' = extents_inv L m t)"
    if new: "name \<notin> fst ` set es"
  proof -
    obtain i t2 where t2: "mtl_append_inode_id_to_directory L t1 d name ?n = Some (MTL_SUCCESS, t2)"
        "inodes_of L t2 = (inodes_of L t1)(d \<mapsto> (i, enc_dir (es @ [(name, ?n)])))"
        "is_dir (inodes_of L t2) d (es @ [(name, ?n)])" "beside_inodes L t2 = beside_inodes L t1"
      using append_to_dir(2) [OF d1 f' new] by blast
    obtain r t3 where t3: "mtl_put_inode L t2 ?n (new_inode MTL_FILE (or mode S_IFREG) now) [] = (r, t3)"
      by (cases "mtl_put_inode L t2 ?n (new_inode MTL_FILE (or mode S_IFREG) now) []")
    note v3 = put_inode [OF t3]
    have "is_dir (inodes_of L t3) d (es @ [(name, ?n)])"
      using t2(3) v3(2) dn by (simp add: is_dir_def)
    moreover have "mtl_create_file_in_directory L now t d name mode = Some (MTL_SUCCESS, ?n, t3)"
      using nx v1(1) t2(1) t3 v3(1) by (simp add: mtl_create_file_in_directory_def)
    ultimately show ?thesis
      using v3 t2(2,4) v1 beside_inodes_view [of t3 t1] by auto
  qed
qed

lemma create_directory:
  assumes d: "is_dir (inodes_of L t) d es" and f: "dir_fits es name"
    and fresh: "inodes_of L t (next_id L t) = None"
  shows "name \<in> fst ` set es \<Longrightarrow>
      \<exists>t'. mtl_create_directory_in_directory L now t d name mode = Some (MTL_ERROR_EXISTS, next_id L t, t')"
    and "name \<notin> fst ` set es \<Longrightarrow>
      \<exists>p q t'. mtl_create_directory_in_directory L now t d name mode = Some (MTL_SUCCESS, next_id L t, t') \<and>
        is_dir (inodes_of L t') d (es @ [(name, next_id L t)]) \<and>
        is_dir (inodes_of L t') (next_id L t) [(cstr ''.'', next_id L t), (cstr ''..'', d)] \<and>
        inodes_of L t' = (inodes_of L t)(d \<mapsto> p, next_id L t \<mapsto> q) \<and>
        next_id L t' = next_id L t + 1 \<and> extents_of L t' = extents_of L t \<and>
        (\<forall>m. extents_inv L m t' = extents_inv L m t)"
proof -
  let ?n = "next_id L t"
  obtain n t1 where nx: "mtl_next_inode_id L t = (n, t1)" by (cases "mtl_next_inode_id L t")
  note v1 = next_inode_id [OF nx] next_inode_id_beside [OF nx]
  have d1: "is_dir (inodes_of L t1) d es" using d v1(3) by simp
  note f' = f [unfolded dir_fits_def, THEN conjunct1] f [unfolded dir_fits_def, THEN conjunct2]
  have dn: "d \<noteq> ?n" using d fresh by (auto simp: is_dir_def)
  show "\<exists>t'. mtl_create_directory_in_directory L now t d name mode = Some (MTL_ERROR_EXISTS, ?n, t')"
    if "name \<in> fst ` set es"
    using append_to_dir(1) [OF d1 f' that] nx v1(1) by (simp add: mtl_create_directory_in_directory_def)
  show "\<exists>p q t'. mtl_create_directory_in_directory L now t d name mode = Some (MTL_SUCCESS, ?n, t') \<and>
        is_dir (inodes_of L t') d (es @ [(name, ?n)]) \<and>
        is_dir (inodes_of L t') ?n [(cstr ''.'', ?n), (cstr ''..'', d)] \<and>
        inodes_of L t' = (inodes_of L t)(d \<mapsto> p, ?n \<mapsto> q) \<and>
        next_id L t' = ?n + 1 \<and> extents_of L t' = extents_of L t \<and>
        (\<forall>m. extents_inv L m t' = extents_inv L m t)"
    if new: "name \<notin> fst ` set es"
  proof -
    obtain i t2 where t2: "mtl_append_inode_id_to_directory L t1 d name ?n = Some (MTL_SUCCESS, t2)"
        "inodes_of L t2 = (inodes_of L t1)(d \<mapsto> (i, enc_dir (es @ [(name, ?n)])))"
        "is_dir (inodes_of L t2) d (es @ [(name, ?n)])" "beside_inodes L t2 = beside_inodes L t1"
      using append_to_dir(2) [OF d1 f' new] by blast
    let ?i = "new_inode MTL_DIRECTORY (or mode S_IFDIR) now"
    obtain r t3 where t3: "mtl_put_inode L t2 ?n ?i [] = (r, t3)"
      by (cases "mtl_put_inode L t2 ?n ?i []")
    note v3 = put_inode [OF t3]
    have e3: "is_dir (inodes_of L t3) ?n []" using v3(2) by (simp add: is_dir_def new_inode_def)
    have c: "length (cstr ''.'') = 1" "length (cstr ''..'') = 2" "cstr ''..'' \<noteq> cstr ''.''"
      by (simp_all add: cstr_def)
    obtain i4 t4 where t4: "mtl_append_inode_id_to_directory L t3 ?n (cstr ''.'') ?n = Some (MTL_SUCCESS, t4)"
        "inodes_of L t4 = (inodes_of L t3)(?n \<mapsto> (i4, enc_dir ([] @ [(cstr ''.'', ?n)])))"
        "is_dir (inodes_of L t4) ?n ([] @ [(cstr ''.'', ?n)])" "beside_inodes L t4 = beside_inodes L t3"
      using append_to_dir(2) [OF e3, of "cstr ''.''" ?n] c by auto
    obtain i5 t5 where t5: "mtl_append_inode_id_to_directory L t4 ?n (cstr ''..'') d = Some (MTL_SUCCESS, t5)"
        "inodes_of L t5 = (inodes_of L t4)(?n \<mapsto> (i5, enc_dir (([] @ [(cstr ''.'', ?n)]) @ [(cstr ''..'', d)])))"
        "is_dir (inodes_of L t5) ?n (([] @ [(cstr ''.'', ?n)]) @ [(cstr ''..'', d)])"
        "beside_inodes L t5 = beside_inodes L t4"
      using append_to_dir(2) [OF t4(3), of "cstr ''..''" d] c by auto
    have "is_dir (inodes_of L t5) d (es @ [(name, ?n)])"
      using t2(3) v3(2) t4(2) t5(2) dn by (simp add: is_dir_def)
    moreover have "mtl_create_directory_in_directory L now t d name mode = Some (MTL_SUCCESS, ?n, t5)"
      using nx v1(1) t2(1) t3 v3(1) t4(1) t5(1) by (simp add: mtl_create_directory_in_directory_def)
    moreover have "inodes_of L t5 = (inodes_of L t)(d \<mapsto> (i, enc_dir (es @ [(name, ?n)])),
        ?n \<mapsto> (i5, enc_dir (([] @ [(cstr ''.'', ?n)]) @ [(cstr ''..'', d)])))"
      using t5(2) t4(2) v3(2) t2(2) v1(3) by simp
    ultimately show ?thesis
      using t5(3,4) t4(4) v3(3) t2(4) v1 beside_inodes_view [of t5 t1] by auto
  qed
qed

end

end
