(* ===== verification/Path.thy ===== *)
theory Path
  imports Metal_Prelude
begin

text \<open>
  The functions of the C library that the sources take paths apart with, \<open>dirname\<close> and \<open>basename\<close> of
  \<open>libgen.h\<close>, as the GNU C library implements them, on the bytes of a string.  Both ignore slashes
  at the end of the path; \<open>dirname\<close> keeps a path that begins with exactly two slashes apart from one
  that begins with one or with more.
\<close>

definition slash :: u8 where "slash = 47"

definition dot :: bytes where "dot = [46]"

definition strip_slashes :: "bytes \<Rightarrow> bytes" where
  "strip_slashes s = rev (dropWhile (\<lambda>c. c = slash) (rev s))"

definition slash_prefix :: "bytes \<Rightarrow> bytes" where
  "slash_prefix s = (if length s = 2 then [slash, slash] else [slash])"

definition dirname :: "bytes \<Rightarrow> bytes" where
  "dirname path =
     (let s = strip_slashes path
      in if path = [] then dot
         else if s = [] then slash_prefix path
         else let d = rev (dropWhile (\<lambda>c. c \<noteq> slash) (rev s))
              in if d = [] then dot
                 else if strip_slashes d = [] then slash_prefix d
                 else strip_slashes d)"

definition basename :: "bytes \<Rightarrow> bytes" where
  "basename path =
     (let s = strip_slashes path
      in if path = [] then dot
         else if s = [] then [slash]
         else rev (takeWhile (\<lambda>c. c \<noteq> slash) (rev s)))"

text \<open>An absolute path from its components.\<close>

definition component_ok :: "bytes \<Rightarrow> bool" where
  "component_ok c \<longleftrightarrow> c \<noteq> [] \<and> slash \<notin> set c"

definition path_of :: "bytes list \<Rightarrow> bytes" where
  "path_of cs = concat (map (\<lambda>c. slash # c) cs)"

lemma path_of_simps [simp]:
  "path_of [] = []" "path_of (c # cs) = slash # c @ path_of cs"
  "path_of (cs @ cs') = path_of cs @ path_of cs'"
  by (simp_all add: path_of_def)

lemma dropWhile_slash: "component_ok c \<Longrightarrow> dropWhile (\<lambda>x. x = slash) (rev c @ xs) = rev c @ xs"
  by (cases "rev c") (auto simp: component_ok_def dest!: arg_cong [of "rev c" _ set])

lemma strip_component: "component_ok c \<Longrightarrow> strip_slashes (xs @ c) = xs @ c"
  by (simp add: strip_slashes_def dropWhile_slash)

lemma strip_path_of:
  assumes "list_all component_ok cs" "cs \<noteq> []"
  shows "strip_slashes (path_of cs) = path_of cs"
proof -
  obtain cs' c where cs: "cs = cs' @ [c]" using assms(2) by (metis append_butlast_last_id)
  then show ?thesis using assms(1) strip_component [of c "path_of cs' @ [slash]"] by simp
qed

lemma last_component:
  assumes "component_ok c"
  shows "dropWhile (\<lambda>x. x \<noteq> slash) (rev c @ slash # xs) = slash # xs"
    "takeWhile (\<lambda>x. x \<noteq> slash) (rev c @ slash # xs) = rev c"
proof -
  have "x \<noteq> slash" if "x \<in> set (rev c)" for x using assms that by (auto simp: component_ok_def)
  then show "dropWhile (\<lambda>x. x \<noteq> slash) (rev c @ slash # xs) = slash # xs"
    "takeWhile (\<lambda>x. x \<noteq> slash) (rev c @ slash # xs) = rev c"
    using dropWhile_append2 [of "rev c" "\<lambda>x. x \<noteq> slash" "slash # xs"]
      takeWhile_append2 [of "rev c" "\<lambda>x. x \<noteq> slash" "slash # xs"] by simp_all
qed

lemma path_of_neq_Nil: "list_all component_ok cs \<Longrightarrow> cs \<noteq> [] \<Longrightarrow> 2 \<le> length (path_of cs)"
  by (cases cs) (auto simp: component_ok_def Suc_le_eq)

lemma path_of_not_slash: "list_all component_ok cs \<Longrightarrow> path_of cs \<noteq> [slash]"
  by (cases cs) (auto simp: component_ok_def)

lemma basename_path_of:
  assumes "list_all component_ok (cs @ [c])"
  shows "basename (path_of (cs @ [c])) = c"
  using assms strip_path_of [of "cs @ [c]"] last_component(2) [of c "rev (path_of cs)"]
  by (simp add: basename_def Let_def)

lemma dirname_path_of:
  assumes "list_all component_ok (cs @ [c])"
  shows "dirname (path_of (cs @ [c])) = (if cs = [] then [slash] else path_of cs)"
proof -
  have s: "strip_slashes (path_of (cs @ [c])) = path_of (cs @ [c])"
    using assms by (intro strip_path_of) auto
  have d: "rev (dropWhile (\<lambda>x. x \<noteq> slash) (rev (path_of (cs @ [c])))) = path_of cs @ [slash]"
    using assms last_component(1) [of c "rev (path_of cs)"] by simp
  have st: "strip_slashes (path_of cs @ [slash]) = (if cs = [] then [] else path_of cs)"
  proof (cases "cs = []")
    case False
    have "strip_slashes (path_of cs @ [slash]) = strip_slashes (path_of cs)"
      by (simp add: strip_slashes_def)
    then show ?thesis using False strip_path_of [of cs] assms by simp
  qed (simp add: strip_slashes_def)
  show ?thesis
  proof (cases "cs = []")
    case True
    then show ?thesis using s d st by (simp add: dirname_def Let_def slash_prefix_def)
  next
    case False
    then have "path_of cs \<noteq> []" using path_of_neq_Nil [of cs] assms by auto
    then show ?thesis using s d st False by (simp add: dirname_def Let_def)
  qed
qed

text \<open>A path that does not begin with a slash has no absolute parent.\<close>

definition relative :: "bytes \<Rightarrow> bool" where
  "relative p \<longleftrightarrow> p = [] \<or> hd p \<noteq> slash"

lemma strip_prefix: "\<exists>ys. s = strip_slashes s @ ys"
  unfolding strip_slashes_def
  by (metis rev_append rev_rev_ident takeWhile_dropWhile_id)

lemma relative_prefix: "relative (xs @ ys) \<Longrightarrow> relative xs"
  by (cases xs) (auto simp: relative_def)

lemma relative_dirname:
  assumes "relative p"
  shows "relative (dirname p)" "dirname p \<noteq> [slash]"
proof -
  have dot: "relative dot" "dot \<noteq> [slash]" by (simp_all add: relative_def dot_def slash_def)
  define s where "s = strip_slashes p"
  define d where "d = rev (dropWhile (\<lambda>c. c \<noteq> slash) (rev s))"
  have rs: "relative s" using strip_prefix [of p] assms relative_prefix unfolding s_def by metis
  obtain ys where "s = d @ ys"
    unfolding d_def by (metis rev_append rev_rev_ident takeWhile_dropWhile_id)
  then have rd: "relative d" using rs relative_prefix by metis
  have rsd: "relative (strip_slashes d)" using strip_prefix [of d] rd relative_prefix by metis
  have ne: "strip_slashes x \<noteq> []" if "x \<noteq> []" "relative x" for x
  proof -
    have "hd x \<in> set x" "hd x \<noteq> slash" using that by (auto simp: relative_def)
    then show ?thesis by (auto simp: strip_slashes_def)
  qed
  have "dirname p = (if p = [] then dot else if d = [] then dot else strip_slashes d)"
    using ne [of p] ne [of d] assms rd by (auto simp: dirname_def Let_def s_def d_def)
  moreover have "strip_slashes d \<noteq> [slash]" using rsd by (auto simp: relative_def)
  ultimately show "relative (dirname p)" "dirname p \<noteq> [slash]" using dot rsd by auto
qed

end
