(* ===== verification/Metal.thy ===== *)
theory Metal
  imports Inode Path
begin

text \<open>
  The file system, \<open>src/metal-filesystem/src/metal.c\<close>: paths are resolved in the inodes database,
  files are created, grown, truncated and removed, and their contents are handed to a storage
  backend (the record \<open>mtl_storage_backend\<close> of storage.h, an argument of the operations).

  A context holds the environment of the metadata store, the metadata of the storage and the state
  of the storage.  Every operation runs in one transaction.  LMDB has one writer at a time: a write
  transaction that is neither committed nor aborted blocks the next one for ever, which is the
  outcome \<^term>\<open>None\<close> of \<open>mdb_txn_begin\<close> here.  Memory that LMDB returned is used as it was when it
  was returned.
\<close>

section \<open>State\<close>

record mtl_storage_metadata =
  num_blocks :: u64
  block_size :: u64

record 't mdb_env =
  env_store :: 't
  env_writer :: bool \<comment> \<open>a write transaction is open\<close>

record ('t, 's) mtl_context =
  env :: "'t mdb_env"
  metadata :: mtl_storage_metadata
  storage :: 's

record ('t, 's) mtl_storage_backend =
  sb_initialize :: "'s \<Rightarrow> int \<times> 's"
  sb_deinitialize :: "'s \<Rightarrow> int \<times> 's"
  sb_get_metadata :: "'s \<Rightarrow> int \<times> mtl_storage_metadata"
  sb_write :: "('t, 's) mtl_context \<Rightarrow> u64 \<Rightarrow> u64 \<Rightarrow> bytes \<Rightarrow> (int \<times> ('t, 's) mtl_context) option"
  sb_read :: "('t, 's) mtl_context \<Rightarrow> u64 \<Rightarrow> u64 \<Rightarrow> u64 \<Rightarrow> (int \<times> bytes \<times> 's) option"

section \<open>Transactions\<close>

definition mdb_txn_begin_write :: "'t mdb_env \<Rightarrow> 't option" where
  "mdb_txn_begin_write E = (if env_writer E then None else Some (env_store E))"

definition mdb_txn_begin_rdonly :: "'t mdb_env \<Rightarrow> 't" where
  "mdb_txn_begin_rdonly E = env_store E"

definition mdb_txn_commit :: "('t, 's) mtl_context \<Rightarrow> 't \<Rightarrow> ('t, 's) mtl_context" where
  "mdb_txn_commit ctx t = ctx\<lparr>env := (env ctx)\<lparr>env_store := t, env_writer := False\<rparr>\<rparr>"

text \<open>Returning without ending the write transaction.\<close>

definition leak_txn :: "('t, 's) mtl_context \<Rightarrow> ('t, 's) mtl_context" where
  "leak_txn ctx = ctx\<lparr>env := (env ctx)\<lparr>env_writer := True\<rparr>\<rparr>"

section \<open>Initialisation\<close>

text \<open>
  \<open>store\<close> is the environment that \<open>mdb_env_open\<close> opens, \<^term>\<open>None\<close> where it returns \<open>MDB_INVALID\<close>.
\<close>

definition mtl_initialize ::
  "'t mdb_ops \<Rightarrow> ('t, 's) mtl_storage_backend \<Rightarrow> u32 \<Rightarrow> 't mdb_env option \<Rightarrow> 's \<Rightarrow>
     (int \<times> ('t, 's) mtl_context option) option" where
  "mtl_initialize L B now store s =
     (let (res, s1) = sb_initialize B s
      in if res \<noteq> MTL_SUCCESS then Some (MTL_ERROR_INVALID_ARGUMENT, None)
         else case store of
           None \<Rightarrow> Some (MTL_ERROR_INVALID_ARGUMENT, None)
         | Some E \<Rightarrow> do {
             t \<leftarrow> mdb_txn_begin_write E;
             (_, t1) \<leftarrow> mtl_create_root_directory L now t;
             let (_, md) = sb_get_metadata B s1;
                 (_, t2) = mtl_initialize_extents L t1 (num_blocks md)
             in Some (MTL_SUCCESS,
                  Some (mdb_txn_commit \<lparr>env = E, metadata = md, storage = s1\<rparr> t2))
           })"

definition mtl_deinitialize ::
  "('t, 's) mtl_storage_backend \<Rightarrow> ('t, 's) mtl_context \<Rightarrow> int \<times> 't mdb_env \<times> 's" where
  "mtl_deinitialize B ctx =
     (let (_, s) = sb_deinitialize B (storage ctx) in (MTL_SUCCESS, env ctx, s))"

section \<open>Path resolution\<close>

text \<open>The second component is \<open>*inode_id\<close>.\<close>

partial_function (option) mtl_resolve_inode ::
  "'t mdb_ops \<Rightarrow> 't \<Rightarrow> bytes \<Rightarrow> (int \<times> u64 option) option" where
  "mtl_resolve_inode L t path =
     (let dir = dirname path; base = basename path
      in do {
        (res, dir_inode_id) \<leftarrow> (if dir = [slash] then Some (MTL_SUCCESS, Some 0)
                               else mtl_resolve_inode L t dir);
        if res \<noteq> MTL_SUCCESS then Some (res, None)
        else if base = [slash] then Some (MTL_SUCCESS, Some 0)
        else do {
          d \<leftarrow> dir_inode_id;
          mtl_resolve_inode_in_directory L t d base
        }
      })"

definition mtl_resolve_parent_dir_inode ::
  "'t mdb_ops \<Rightarrow> 't \<Rightarrow> bytes \<Rightarrow> (int \<times> u64 option) option" where
  "mtl_resolve_parent_dir_inode L t path =
     (let dir = dirname path
      in if dir = [slash] then Some (MTL_SUCCESS, Some 0)
         else mtl_resolve_inode L t dir)"

section \<open>Reading metadata\<close>

definition mtl_get_inode ::
  "'t mdb_ops \<Rightarrow> ('t, 's) mtl_context \<Rightarrow> bytes \<Rightarrow> (int \<times> mtl_inode option) option" where
  "mtl_get_inode L ctx path =
     (let t = mdb_txn_begin_rdonly (env ctx)
      in do {
        (res, inode_id) \<leftarrow> mtl_resolve_inode L t path;
        if res \<noteq> MTL_SUCCESS then Some (res, None)
        else do {
          i \<leftarrow> inode_id;
          case mtl_load_inode L t i of
            (res, None) \<Rightarrow> Some (res, None)
          | (res, Some (inode, _)) \<Rightarrow> Some (res, Some inode)
        }
      })"

definition mtl_open ::
  "'t mdb_ops \<Rightarrow> ('t, 's) mtl_context \<Rightarrow> bytes \<Rightarrow> (int \<times> u64 option) option" where
  "mtl_open L ctx filename = mtl_resolve_inode L (mdb_txn_begin_rdonly (env ctx)) filename"

text \<open>An open directory: a copy of the entries and the position of the next one.\<close>

record mtl_dir =
  dir_length :: u64
  dir_first :: bytes
  dir_next :: "nat option"

text \<open>\<open>junk\<close> is the value of the variable \<open>inode_id\<close> where the resolution leaves it unwritten.\<close>

definition mtl_opendir ::
  "'t mdb_ops \<Rightarrow> u64 \<Rightarrow> ('t, 's) mtl_context \<Rightarrow> bytes \<Rightarrow> (int \<times> mtl_dir) option" where
  "mtl_opendir L junk ctx filename =
     (let t = mdb_txn_begin_rdonly (env ctx)
      in do {
        (_, inode_id) \<leftarrow> mtl_resolve_inode L t filename;
        let (res, loaded) = mtl_load_inode L t (case inode_id of None \<Rightarrow> junk | Some i \<Rightarrow> i)
        in do {
          (dir_inode, dir_entries) \<leftarrow> loaded;
          if unat (i_length dir_inode) > length dir_entries then None
          else Some (res, \<lparr>dir_length = i_length dir_inode,
                 dir_first = take (unat (i_length dir_inode)) dir_entries, dir_next = Some 0\<rparr>)
        }
      })"

text \<open>\<open>strncpy\<close> stops at a zero byte of the source and fills up with zeros.\<close>

definition strncpy :: "bytes \<Rightarrow> nat \<Rightarrow> bytes" where
  "strncpy src n = (let s = takeWhile (\<lambda>c. c \<noteq> 0) (take n src) in s @ replicate (n - length s) 0)"

text \<open>The second component is what is written to the beginning of \<open>buffer\<close>.\<close>

definition mtl_readdir :: "mtl_dir \<Rightarrow> u64 \<Rightarrow> (int \<times> bytes \<times> mtl_dir) option" where
  "mtl_readdir dir sz =
     (case dir_next dir of
        None \<Rightarrow> Some (MTL_COMPLETE, [], dir)
      | Some p \<Rightarrow>
          if p + 16 > length (dir_first dir) \<or>
             p + 16 + entry_name_len (dir_first dir) p > length (dir_first dir) then None
          else
            let name_len = entry_name_len (dir_first dir) p;
                copied = strncpy (drop (p + 16) (dir_first dir)) (min (unat sz) name_len);
                written = (if unat sz > name_len then copied @ [0] else copied);
                next = p + 16 + name_len;
                next' = (if next + 16 > unat (dir_length dir) then None else Some next)
            in Some (MTL_SUCCESS, written, dir\<lparr>dir_next := next'\<rparr>))"

section \<open>Directories and names\<close>

definition mtl_mkdir ::
  "'t mdb_ops \<Rightarrow> u32 \<Rightarrow> ('t, 's) mtl_context \<Rightarrow> bytes \<Rightarrow> u32 \<Rightarrow> (int \<times> ('t, 's) mtl_context) option" where
  "mtl_mkdir L now ctx filename mode = do {
     t \<leftarrow> mdb_txn_begin_write (env ctx);
     (res, parent) \<leftarrow> mtl_resolve_parent_dir_inode L t filename;
     if res \<noteq> MTL_SUCCESS then Some (res, ctx)
     else do {
       d \<leftarrow> parent;
       (res, _, t1) \<leftarrow> mtl_create_directory_in_directory L now t d (basename filename) mode;
       if res \<noteq> MTL_SUCCESS then Some (res, ctx)
       else Some (MTL_SUCCESS, mdb_txn_commit ctx t1)
     }
   }"

definition mtl_rmdir ::
  "'t mdb_ops \<Rightarrow> ('t, 's) mtl_context \<Rightarrow> bytes \<Rightarrow> (int \<times> ('t, 's) mtl_context) option" where
  "mtl_rmdir L ctx filename = do {
     t \<leftarrow> mdb_txn_begin_write (env ctx);
     (res, parent) \<leftarrow> mtl_resolve_parent_dir_inode L t filename;
     if res \<noteq> MTL_SUCCESS then Some (res, ctx)
     else do {
       d \<leftarrow> parent;
       (res, inode_id, t1) \<leftarrow> mtl_remove_entry_from_directory L t d (basename filename);
       if res \<noteq> MTL_SUCCESS then Some (res, ctx)
       else do {
         i \<leftarrow> inode_id;
         (res, t2) \<leftarrow> mtl_remove_directory L t1 i;
         if res \<noteq> MTL_SUCCESS then Some (res, ctx)
         else Some (MTL_SUCCESS, mdb_txn_commit ctx t2)
       }
     }
   }"

definition mtl_chown ::
  "'t mdb_ops \<Rightarrow> ('t, 's) mtl_context \<Rightarrow> bytes \<Rightarrow> u32 \<Rightarrow> u32 \<Rightarrow> (int \<times> ('t, 's) mtl_context) option"
where
  "mtl_chown L ctx path uid gid = do {
     t \<leftarrow> mdb_txn_begin_write (env ctx);
     (res, inode_id) \<leftarrow> mtl_resolve_inode L t path;
     if res \<noteq> MTL_SUCCESS then Some (- res, ctx)
     else do {
       i \<leftarrow> inode_id;
       case mtl_load_inode L t i of
         (res, None) \<Rightarrow> Some (- res, ctx)
       | (_, Some (old_inode, data)) \<Rightarrow>
           let new_inode = old_inode\<lparr>i_user := uid\<rparr>;
               new_inode' = (if sint gid \<ge> 0 then new_inode\<lparr>i_group := gid\<rparr> else new_inode);
               (res, t1) = mtl_put_inode L t i new_inode' data
           in Some (res, mdb_txn_commit ctx t1)
     }
   }"

definition mtl_rename ::
  "'t mdb_ops \<Rightarrow> ('t, 's) mtl_context \<Rightarrow> bytes \<Rightarrow> bytes \<Rightarrow> (int \<times> ('t, 's) mtl_context) option" where
  "mtl_rename L ctx from_filename to_filename = do {
     t \<leftarrow> mdb_txn_begin_write (env ctx);
     (res, from_parent) \<leftarrow> mtl_resolve_parent_dir_inode L t from_filename;
     if res \<noteq> MTL_SUCCESS then Some (res, ctx)
     else do {
       (res, to_parent) \<leftarrow> mtl_resolve_parent_dir_inode L t to_filename;
       if res \<noteq> MTL_SUCCESS then Some (res, ctx)
       else do {
         from_d \<leftarrow> from_parent;
         to_d \<leftarrow> to_parent;
         (res, inode_id, t1) \<leftarrow> mtl_remove_entry_from_directory L t from_d (basename from_filename);
         if res \<noteq> MTL_SUCCESS then Some (res, ctx)
         else do {
           i \<leftarrow> inode_id;
           (res, t2) \<leftarrow> mtl_append_inode_id_to_directory L t1 to_d (basename to_filename) i;
           if res \<noteq> MTL_SUCCESS then Some (res, ctx)
           else Some (MTL_SUCCESS, mdb_txn_commit ctx t2)
         }
       }
     }
   }"

text \<open>The second component is \<open>*inode_id\<close>.\<close>

definition mtl_create ::
  "'t mdb_ops \<Rightarrow> u32 \<Rightarrow> ('t, 's) mtl_context \<Rightarrow> bytes \<Rightarrow> u32 \<Rightarrow>
     (int \<times> u64 option \<times> ('t, 's) mtl_context) option" where
  "mtl_create L now ctx filename mode = do {
     t \<leftarrow> mdb_txn_begin_write (env ctx);
     (res, parent) \<leftarrow> mtl_resolve_parent_dir_inode L t filename;
     if res \<noteq> MTL_SUCCESS then Some (res, None, ctx)
     else do {
       d \<leftarrow> parent;
       (res, file_inode_id, t1) \<leftarrow> mtl_create_file_in_directory L now t d (basename filename) mode;
       if res \<noteq> MTL_SUCCESS then Some (res, None, ctx)
       else Some (MTL_SUCCESS, Some file_inode_id, mdb_txn_commit ctx t1)
     }
   }"

section \<open>Contents\<close>

text \<open>The loop of \<open>mtl_expand_inode\<close>; \<^term>\<open>None\<close> where the assertion that space is left fails.\<close>

partial_function (option) expand_loop ::
  "'t mdb_ops \<Rightarrow> u64 \<Rightarrow> u64 \<Rightarrow> u64 \<Rightarrow> u64 \<Rightarrow> u64 \<Rightarrow> mtl_file_extent \<Rightarrow> 't \<Rightarrow> 't option" where
  "expand_loop L bs inode_id write_end_bytes write_end_blocks current_inode_length_blocks last_extent t =
     (if \<not> current_inode_length_blocks < write_end_blocks then Some t
      else do {
        (new_length_blocks, new_offset, t1) \<leftarrow>
          mtl_reserve_extent L t (write_end_blocks - current_inode_length_blocks)
            (if fe_length last_extent \<noteq> 0 then Some last_extent else None) True;
        if new_length_blocks = 0 then None
        else do {
          offset \<leftarrow> new_offset;
          let current' = current_inode_length_blocks + new_length_blocks;
              new_length = (if write_end_bytes > current' * bs then current' * bs else write_end_bytes)
          in if fe_length last_extent \<noteq> 0 \<and> fe_offset last_extent = offset then
               let last' = last_extent\<lparr>fe_length := fe_length last_extent + new_length_blocks\<rparr>
               in do {
                 (_, t2) \<leftarrow> mtl_extend_last_extent_in_file L t1 inode_id last' new_length;
                 expand_loop L bs inode_id write_end_bytes write_end_blocks current' last' t2
               }
             else
               let new_extent = \<lparr>fe_offset = offset, fe_length = new_length_blocks\<rparr>
               in do {
                 (_, t2) \<leftarrow> mtl_add_extent_to_file L t1 inode_id new_extent new_length;
                 expand_loop L bs inode_id write_end_bytes write_end_blocks current' new_extent t2
               }
        }
      })"

definition blocks_for :: "u64 \<Rightarrow> u64 \<Rightarrow> u64" where
  "blocks_for bytes bs = (if bytes mod bs \<noteq> 0 then bytes div bs + 1 else bytes div bs)"

definition mtl_expand_inode ::
  "'t mdb_ops \<Rightarrow> ('t, 's) mtl_context \<Rightarrow> 't \<Rightarrow> u64 \<Rightarrow> mtl_file_extent list \<Rightarrow> u64 \<Rightarrow> (int \<times> 't) option"
where
  "mtl_expand_inode L ctx t inode_id extents sz =
     (let bs = block_size (metadata ctx)
      in if bs = 0 then None
         else do {
           t' \<leftarrow> expand_loop L bs inode_id sz (blocks_for sz bs) (sum_list (map fe_length extents))
                  (if extents = [] then \<lparr>fe_offset = 0, fe_length = 0\<rparr> else last extents) t;
           Some (MTL_SUCCESS, t')
         })"

text \<open>\<open>mtl_load_file\<close> leaves no extents where there is no inode, which is not noticed here.\<close>

definition mtl_write ::
  "'t mdb_ops \<Rightarrow> ('t, 's) mtl_storage_backend \<Rightarrow> ('t, 's) mtl_context \<Rightarrow> u64 \<Rightarrow> bytes \<Rightarrow> u64 \<Rightarrow>
     (int \<times> ('t, 's) mtl_context) option" where
  "mtl_write L B ctx inode_id buffer offset = do {
     t \<leftarrow> mdb_txn_begin_write (env ctx);
     let extents = (case snd (mtl_load_file L t inode_id) of None \<Rightarrow> [] | Some (_, es) \<Rightarrow> es);
     (res, t1) \<leftarrow> mtl_expand_inode L ctx t inode_id extents (offset + word_of_nat (length buffer));
     if res \<noteq> MTL_SUCCESS then Some (res, ctx)
     else
       let ctx1 = mdb_txn_commit ctx t1
       in do {
         (_, ctx2) \<leftarrow> sb_write B ctx1 inode_id offset buffer;
         Some (MTL_SUCCESS, ctx2)
       }
   }"

text \<open>The result is the number of bytes read, the bytes written to \<open>buffer\<close> and the context.\<close>

definition mtl_read ::
  "'t mdb_ops \<Rightarrow> ('t, 's) mtl_storage_backend \<Rightarrow> ('t, 's) mtl_context \<Rightarrow> u64 \<Rightarrow> u64 \<Rightarrow> u64 \<Rightarrow>
     (u64 \<times> bytes \<times> ('t, 's) mtl_context) option" where
  "mtl_read L B ctx inode_id sz offset = do {
     (inode, extents) \<leftarrow> snd (mtl_load_file L (mdb_txn_begin_rdonly (env ctx)) inode_id);
     let read_len = (if i_length inode < offset then 0
                     else if i_length inode < offset + sz then sz - ((offset + sz) - i_length inode)
                     else sz)
     in if read_len > 0 then do {
          (_, data, s) \<leftarrow> sb_read B ctx inode_id offset read_len;
          Some (read_len, data, ctx\<lparr>storage := s\<rparr>)
        }
        else Some (read_len, [], ctx)
   }"

text \<open>
  \<open>extents[i]\<close> in the loops of \<open>mtl_truncate\<close> and \<open>mtl_unlink\<close>: the pointer comes from the transaction
  \<open>t0\<close>, before the loop, and is read in \<open>t\<close>, after the updates of the loop so far.
\<close>

definition reread_extent :: "'t mdb_ops \<Rightarrow> 't \<Rightarrow> 't \<Rightarrow> u64 \<Rightarrow> nat \<Rightarrow> mtl_file_extent" where
  "reread_extent L t0 t inode_id i =
     dec_file_extent (drop (40 + 16 * i) (mdb_reread L t0 t INODES_DB_NAME (enc64 inode_id)))"

text \<open>The loop of \<open>mtl_truncate\<close> over the extents of the file, \<open>n\<close> of them from the i-th one on.\<close>

fun truncate_loop ::
  "'t mdb_ops \<Rightarrow> 't \<Rightarrow> u64 \<Rightarrow> u64 \<Rightarrow> u64 \<Rightarrow> nat \<Rightarrow> u64 \<Rightarrow> nat \<Rightarrow> 't \<Rightarrow> 't option" where
  "truncate_loop L t0 bs inode_id offset i previous_extent_end 0 t = Some t"
| "truncate_loop L t0 bs inode_id offset i previous_extent_end (Suc n) t =
     (let e = reread_extent L t0 t inode_id i;
          extent_end = previous_extent_end + fe_length e * bs
      in do {
        t' \<leftarrow>
          (if previous_extent_end > offset then map_option snd (mtl_free_extent L t (fe_offset e))
           else if extent_end > offset then
             let new_extent_length_blocks = blocks_for (offset - previous_extent_end) bs
             in if new_extent_length_blocks \<noteq> 0 then do {
                  (_, t1) \<leftarrow> mtl_truncate_extent L t (fe_offset e) new_extent_length_blocks;
                  (_, t2) \<leftarrow> mtl_truncate_file_extents L t1 inode_id offset (i + 1)
                             (Some new_extent_length_blocks);
                  Some t2
                } else do {
                  (_, t1) \<leftarrow> mtl_free_extent L t (fe_offset e);
                  (_, t2) \<leftarrow> mtl_truncate_file_extents L t1 inode_id offset i None;
                  Some t2
                }
           else Some t);
        truncate_loop L t0 bs inode_id offset (i + 1) extent_end n t'
      })"

definition mtl_truncate ::
  "'t mdb_ops \<Rightarrow> ('t, 's) mtl_context \<Rightarrow> u64 \<Rightarrow> u64 \<Rightarrow> (int \<times> ('t, 's) mtl_context) option" where
  "mtl_truncate L ctx inode_id offset = do {
     t \<leftarrow> mdb_txn_begin_write (env ctx);
     (inode, extents) \<leftarrow> snd (mtl_load_file L t inode_id);
     if offset \<ge> i_length inode then do {
       (res, t1) \<leftarrow> mtl_expand_inode L ctx t inode_id extents offset;
       if res \<noteq> MTL_SUCCESS then Some (res, ctx)
       else Some (MTL_SUCCESS, mdb_txn_commit ctx t1)
     } else do {
       t1 \<leftarrow> truncate_loop L t (block_size (metadata ctx)) inode_id offset 0 0 (length extents) t;
       Some (MTL_SUCCESS, mdb_txn_commit ctx t1)
     }
   }"

text \<open>The loop of \<open>mtl_unlink\<close>, over \<open>n\<close> extents from the i-th one on.\<close>

fun free_all :: "'t mdb_ops \<Rightarrow> 't \<Rightarrow> u64 \<Rightarrow> nat \<Rightarrow> nat \<Rightarrow> 't \<Rightarrow> 't option" where
  "free_all L t0 inode_id i 0 t = Some t"
| "free_all L t0 inode_id i (Suc n) t = do {
     (_, t1) \<leftarrow> mtl_free_extent L t (fe_offset (reread_extent L t0 t inode_id i));
     free_all L t0 inode_id (i + 1) n t1
   }"

text \<open>
  \<open>junk\<close> are the values of \<open>parent_dir_inode_id\<close> and \<open>inode_id\<close> where the calls leave them
  unwritten: their results are not looked at.
\<close>

definition mtl_unlink ::
  "'t mdb_ops \<Rightarrow> u64 \<times> u64 \<Rightarrow> ('t, 's) mtl_context \<Rightarrow> bytes \<Rightarrow> (int \<times> ('t, 's) mtl_context) option" where
  "mtl_unlink L junk ctx filename = do {
     t \<leftarrow> mdb_txn_begin_write (env ctx);
     (_, parent) \<leftarrow> mtl_resolve_parent_dir_inode L t filename;
     let parent_dir_inode_id = (case parent of None \<Rightarrow> fst junk | Some d \<Rightarrow> d)
     in do {
       (_, removed, t1) \<leftarrow> mtl_remove_entry_from_directory L t parent_dir_inode_id (basename filename);
       let inode_id = (case removed of None \<Rightarrow> snd junk | Some i \<Rightarrow> i)
       in case mtl_load_file L t1 inode_id of
            (res, None) \<Rightarrow> Some (res, leak_txn ctx)
          | (_, Some (_, extents)) \<Rightarrow> do {
              t2 \<leftarrow> free_all L t1 inode_id 0 (length extents) t1;
              let (_, t3) = mtl_delete_inode L t2 inode_id
              in Some (MTL_SUCCESS, mdb_txn_commit ctx t3)
            }
     }
   }"

definition MTL_MAX_EXTENTS :: nat where "MTL_MAX_EXTENTS = 512"

text \<open>On success, the extents and the length of the file.\<close>

definition mtl_load_extent_list ::
  "'t mdb_ops \<Rightarrow> ('t, 's) mtl_context \<Rightarrow> u64 \<Rightarrow> int \<times> (mtl_file_extent list \<times> u64) option" where
  "mtl_load_extent_list L ctx inode_id =
     (case mtl_load_file L (mdb_txn_begin_rdonly (env ctx)) inode_id of
        (res, None) \<Rightarrow> (res, None)
      | (_, Some (inode, tmp_extents)) \<Rightarrow>
          if length tmp_extents > MTL_MAX_EXTENTS then (MTL_ERROR_INVALID_ARGUMENT, None)
          else (MTL_SUCCESS, Some (tmp_extents, i_length inode)))"

end
