(* ===== verification/Extent_Props.thy ===== *)
theory Extent_Props
  imports Extent
begin

text \<open>
  The properties of the extent allocator, over any store that behaves as LMDB documents: what
  initialisation, reservation, truncation and freeing do to the tiling of the storage and to the
  set of free blocks.  The first section holds what they share about the set of free blocks, the
  second builds concrete stores for the examples.
\<close>

section \<open>Free blocks\<close>

lemma alloc_inv_disjoint:
  assumes "alloc_inv n M H" "M a = Some e" "M b = Some e'"
    and "covers (unat a, unat (ext_length e)) x" "covers (unat b, unat (ext_length e')) x"
  shows "a = b"
  using tiles_disjoint [of n "ext_tiles M" "(unat a, unat (ext_length e))"
      "(unat b, unat (ext_length e'))" x] assms ext_tiles_mem [of M]
  by (simp add: alloc_inv_def word_eq_unat)

text \<open>An extent is determined by where it ends.\<close>

lemma alloc_inv_end_unique:
  assumes "alloc_inv n M H" "M a = Some e" "M b = Some e'" "a + ext_length e = b + ext_length e'"
  shows "a = b"
proof -
  note a = alloc_inv_bound [of n M H a e, OF assms(1,2)]
    and b = alloc_inv_bound [of n M H b e', OF assms(1,3)]
  let ?x = "unat a + unat (ext_length e) - 1"
  have "unat a + unat (ext_length e) = unat b + unat (ext_length e')"
    using a(4) b(4) assms(4) by simp
  then have "covers (unat a, unat (ext_length e)) ?x" "covers (unat b, unat (ext_length e')) ?x"
    using a(1) b(1) by (auto simp: covers_def)
  then show ?thesis by (rule alloc_inv_disjoint [of n M H a e b e', OF assms(1-3)])
qed

lemma no_adjacent_freeD:
  "no_adjacent_free M \<Longrightarrow> M a = Some e \<Longrightarrow> ext_status e = MTL_FREE \<Longrightarrow>
     M (a + ext_length e) = Some e' \<Longrightarrow> ext_status e' \<noteq> MTL_FREE"
  unfolding no_adjacent_free_def by blast

definition span :: "u64 \<Rightarrow> u64 \<Rightarrow> nat set" where
  "span a l = {x. covers (unat a, unat l) x}"

lemma span_iff: "x \<in> span a l \<longleftrightarrow> unat a \<le> x \<and> x < unat a + unat l"
  by (simp add: span_def covers_def)

lemma free_blocks_upd:
  "free_blocks (M(a \<mapsto> e)) =
     (if ext_status e = MTL_FREE then span a (ext_length e) else {}) \<union> free_blocks (M(a := None))"
  by (auto simp: free_blocks_def span_def split: if_splits)

lemma free_blocks_remove_used:
  assumes "M a = None \<or> (\<exists>e. M a = Some e \<and> ext_status e \<noteq> MTL_FREE)"
  shows "free_blocks (M(a := None)) = free_blocks M"
proof -
  have "(M(a := None)) b = Some e \<and> ext_status e = MTL_FREE \<and> P \<longleftrightarrow>
      M b = Some e \<and> ext_status e = MTL_FREE \<and> P" for b e P
    using assms by auto
  then show ?thesis by (simp only: free_blocks_def)
qed

text \<open>A free extent at \<open>c\<close> is new, the one at \<open>a\<close> is in use.\<close>

lemma free_blocks_upd2:
  assumes "c \<noteq> a" "M c = None" "ext_status e \<noteq> MTL_FREE" "ext_status r = MTL_FREE"
  shows "free_blocks (M(c \<mapsto> r, a \<mapsto> e)) = span c (ext_length r) \<union> free_blocks (M(a := None))"
proof -
  have "M(c \<mapsto> r, a := None) = M(a := None, c \<mapsto> r)" using assms(1) by (rule fun_upd_twist)
  then show ?thesis
    using assms free_blocks_remove_used [of "M(a := None)" c] by (simp add: free_blocks_upd)
qed

lemma free_blocks_remove_free:
  assumes inv: "alloc_inv n M H" and a: "M a = Some e" "ext_status e = MTL_FREE"
  shows "free_blocks (M(a := None)) = free_blocks M - span a (ext_length e)"
proof (intro set_eqI iffI)
  fix x assume "x \<in> free_blocks (M(a := None))"
  then obtain b e' where b: "M b = Some e'" "b \<noteq> a" "ext_status e' = MTL_FREE"
      "covers (unat b, unat (ext_length e')) x"
    by (auto simp: free_blocks_def split: if_splits)
  then have "\<not> covers (unat a, unat (ext_length e)) x"
    using alloc_inv_disjoint [of n M H b e' a e, OF inv b(1) a(1) b(4)] by blast
  then show "x \<in> free_blocks M - span a (ext_length e)"
    using b by (auto simp: free_blocks_def span_def)
next
  fix x assume "x \<in> free_blocks M - span a (ext_length e)"
  then obtain b e' where b: "M b = Some e'" "ext_status e' = MTL_FREE"
      "covers (unat b, unat (ext_length e')) x" "\<not> covers (unat a, unat (ext_length e)) x"
    by (auto simp: free_blocks_def span_def)
  then have "b \<noteq> a" using a(1) by auto
  then show "x \<in> free_blocks (M(a := None))" using b by (auto simp: free_blocks_def)
qed

lemma take_front_free_blocks:
  assumes inv: "alloc_inv n M H" and a: "M a = Some e" "ext_status e = MTL_FREE"
    and k: "0 < unat k" "k \<le> ext_length e"
  shows "free_blocks (take_front M a e k commit) = free_blocks M - span a k"
proof -
  have all: "span a (ext_length e) \<subseteq> free_blocks M"
    using a by (auto simp: free_blocks_def span_def)
  note rem = free_blocks_remove_free [of n M H a e, OF inv a]
  show ?thesis
  proof (cases "k < ext_length e")
    case True
    then have ins: "unat (a + k) = unat a + unat k" "M (a + k) = None" "a + k \<noteq> a"
      using alloc_inv_inside [of n M H a e k, OF inv a(1)] k(1) by (auto simp: word_less_nat_alt)
    have "span (a + k) (ext_length e - k) = span a (ext_length e) - span a k"
      using True ins(1) by (auto simp: span_iff unat_sub_exact word_less_nat_alt)
    moreover have "free_blocks (take_front M a e k commit) =
        span (a + k) (ext_length e - k) \<union> free_blocks (M(a := None))"
      using True ins by (simp add: take_front_def Let_def free_blocks_upd2)
    moreover have "span a k \<subseteq> span a (ext_length e)"
      using k(2) by (auto simp: span_iff word_le_nat_alt)
    ultimately show ?thesis using rem all by blast
  next
    case False
    then have "k = ext_length e" using k(2) by simp
    then show ?thesis using rem by (simp add: take_front_def Let_def free_blocks_upd)
  qed
qed

lemma take_front_no_adjacent:
  assumes inv: "alloc_inv n M H" and a: "M a = Some e" "ext_status e = MTL_FREE"
    and k: "0 < unat k" "k \<le> ext_length e" and na: "no_adjacent_free M"
  shows "no_adjacent_free (take_front M a e k commit)"
proof -
  let ?M' = "take_front M a e k commit"
  have inv': "alloc_inv n ?M' (free_nodes ?M')" by (rule take_front_inv [OF inv a k])
  show ?thesis
    unfolding no_adjacent_free_def
  proof (intro allI impI notI)
    fix x ex ey assume x: "?M' x = Some ex" "?M' (x + ext_length ex) = Some ey"
      and f: "ext_status ex = MTL_FREE \<and> ext_status ey = MTL_FREE"
    show False
    proof (cases "k < ext_length e")
      case True
      then have M': "?M' = M(a + k \<mapsto> free_ext (a + k) (ext_length e - k), a \<mapsto> e\<lparr>ext_length := k,
          ext_status := (if commit then MTL_COMMITTED else MTL_RESERVED)\<rparr>)"
        by (simp add: take_front_def free_ext_def)
      obtain ea where ea: "?M' a = Some ea" "ext_length ea = k" "ext_status ea \<noteq> MTL_FREE"
        using M' by simp
      have xa: "x \<noteq> a" using x(1) ea f by auto
      have "x + ext_length ex \<noteq> a + k"
        using alloc_inv_end_unique [of n ?M' _ x ex a ea, OF inv' x(1) ea(1)] ea(2) xa by auto
      moreover have "x + ext_length ex \<noteq> a" using x(2) ea f by auto
      ultimately have y: "M (x + ext_length ex) = Some ey" using x(2) M' by simp
      show False
      proof (cases "x = a + k")
        case True
        then have "ex = free_ext (a + k) (ext_length e - k)" using x(1) M' xa by simp
        then have "M (a + ext_length e) = Some ey" using y True by simp
        then show False using no_adjacent_freeD [OF na a] f by blast
      next
        case False
        then have "M x = Some ex" using x(1) M' xa by simp
        then show False using no_adjacent_freeD [OF na _ _ y] f by blast
      qed
    next
      case False
      then show False
        using x f no_adjacent_freeD [OF na, of x ex ey]
        by (auto simp: take_front_def Let_def split: if_splits)
    qed
  qed
qed

lemma grow_free_blocks:
  assumes inv: "alloc_inv n M H" and a: "M a = Some e" "ext_status e \<noteq> MTL_FREE"
    and b: "M (a + ext_length e) = Some nx" "ext_status nx = MTL_FREE"
    and k: "0 < unat k" "unat k < unat (ext_length nx)"
  shows "free_blocks (grow_into_next M a e nx k commit) =
     free_blocks M - span (a + ext_length e) k"
proof -
  let ?b = "a + ext_length e" and ?c = "a + (ext_length e + k)"
  have all: "span ?b (ext_length nx) \<subseteq> free_blocks M"
    using b by (auto simp: free_blocks_def span_def)
  have c: "?c = ?b + k" by simp
  note ins = alloc_inv_inside [of n M H ?b nx k, OF inv b(1) k]
  have ne: "?b \<noteq> a" using alloc_inv_bound(1,4) [of n M H a e, OF inv a(1)] by auto
  have "M ?c = None" using ins(2) by (simp add: add.assoc)
  then have ca: "?c \<noteq> a" using a(1) by auto
  have "span ?c (ext_length nx - k) = span ?b (ext_length nx) - span ?b k"
    using ins(1) k by (auto simp: span_iff unat_sub_exact c)
  moreover have "free_blocks (grow_into_next M a e nx k commit) =
      span ?c (ext_length nx - k) \<union> free_blocks (M(?b := None))"
    using ca ne a \<open>M ?c = None\<close> free_blocks_remove_used [of "M(?b := None)" a]
    by (simp add: grow_into_next_def free_blocks_upd2)
  moreover have "span ?b k \<subseteq> span ?b (ext_length nx)" using k(2) by (auto simp: span_iff)
  ultimately show ?thesis
    using free_blocks_remove_free [of n M H ?b nx, OF inv b] all by blast
qed

lemma grow_no_adjacent:
  assumes inv: "alloc_inv n M H" and a: "M a = Some e" "ext_status e \<noteq> MTL_FREE"
    and b: "M (a + ext_length e) = Some nx" "ext_status nx = MTL_FREE"
    and k: "0 < unat k" "unat k < unat (ext_length nx)" and na: "no_adjacent_free M"
  shows "no_adjacent_free (grow_into_next M a e nx k commit)"
proof -
  let ?M' = "grow_into_next M a e nx k commit"
  let ?b = "a + ext_length e" and ?c = "a + (ext_length e + k)"
  have inv': "alloc_inv n ?M' (free_nodes ?M')" by (rule grow_into_next_inv(1) [OF inv a b k])
  have M': "?M' = M(?b := None, ?c \<mapsto> free_ext ?c (ext_length nx - k),
      a \<mapsto> e\<lparr>ext_length := ext_length e + k,
             ext_status := (if commit then MTL_COMMITTED else MTL_RESERVED)\<rparr>)"
    by (simp add: grow_into_next_def free_ext_def)
  obtain ea where ea: "?M' a = Some ea" "ext_length ea = ext_length e + k" "ext_status ea \<noteq> MTL_FREE"
    using M' by simp
  show ?thesis
    unfolding no_adjacent_free_def
  proof (intro allI impI notI)
    fix x ex ey assume x: "?M' x = Some ex" "?M' (x + ext_length ex) = Some ey"
      and f: "ext_status ex = MTL_FREE \<and> ext_status ey = MTL_FREE"
    have xa: "x \<noteq> a" using x(1) ea f by auto
    have "x + ext_length ex \<noteq> ?c"
      using alloc_inv_end_unique [of n ?M' _ x ex a ea, OF inv' x(1) ea(1)] ea(2) xa by auto
    moreover have "x + ext_length ex \<noteq> a" using x(2) ea f by auto
    ultimately have y: "M (x + ext_length ex) = Some ey" using x(2) M' by (simp split: if_splits)
    show False
    proof (cases "x = ?c")
      case True
      then have "ex = free_ext ?c (ext_length nx - k)" using x(1) M' xa by simp
      then have "M (?b + ext_length nx) = Some ey" using y True by (simp add: algebra_simps)
      then show False using no_adjacent_freeD [OF na b] f by blast
    next
      case False
      then have "M x = Some ex" using x(1) M' xa by (simp split: if_splits)
      then show False using no_adjacent_freeD [OF na _ _ y] f by blast
    qed
  qed
qed

section \<open>Stores with a given layout\<close>

text \<open>The extents of a storage, in order, from their lengths and states.\<close>

fun layout :: "u64 \<Rightarrow> (u64 \<times> mtl_extent_status) list \<Rightarrow> (u64 \<times> mtl_extent) list" where
  "layout a [] = []"
| "layout a ((l, s) # xs) =
     (a, if s = MTL_FREE then free_ext a l
         else \<lparr>ext_length = l, ext_status = s, pq_node = INVALID_NODE\<rparr>) # layout (a + l) xs"

fun put_layout :: "'t mdb_ops \<Rightarrow> 't \<Rightarrow> (u64 \<times> mtl_extent) list \<Rightarrow> 't" where
  "put_layout L t [] = t"
| "put_layout L t ((a, e) # xs) =
     (let t1 = put_layout L t xs;
          t2 = (if ext_status e = MTL_FREE then fst (snd (mtl_heap_insert L t1 (ext_length e) a))
                else t1)
      in snd (mtl_put_extent L t2 a e))"

fun chain :: "nat \<Rightarrow> nat list \<Rightarrow> tile list" where
  "chain a [] = []"
| "chain a (l # ls) = (a, l) # chain (a + l) ls"

lemma chain_bounds:
  "p \<in> set (chain a ls) \<Longrightarrow> a \<le> fst p \<and> fst p + snd p \<le> a + sum_list ls \<and> snd p \<in> set ls"
  by (induction a ls rule: chain.induct) fastforce+

lemma chain_cover: "a \<le> b \<Longrightarrow> b < a + sum_list ls \<Longrightarrow> \<exists>p \<in> set (chain a ls). covers p b"
proof (induction a ls rule: chain.induct)
  case (2 a l ls)
  then show ?case by (cases "b < a + l") (auto simp: covers_def)
qed simp

lemma chain_disjoint:
  "p \<in> set (chain a ls) \<Longrightarrow> q \<in> set (chain a ls) \<Longrightarrow> covers p b \<Longrightarrow> covers q b \<Longrightarrow> p = q"
proof (induction a ls rule: chain.induct)
  case (2 a l ls)
  have "a + l \<le> b" if "r \<in> set (chain (a + l) ls)" "covers r b" for r
    using chain_bounds [OF that(1)] that(2) by (simp add: covers_def)
  then show ?case using 2 by (fastforce simp: covers_def)
qed simp

lemma tiles_chain: "0 \<notin> set ls \<Longrightarrow> tiles (sum_list ls) (set (chain 0 ls))"
proof (rule tilesI)
  fix p assume "0 \<notin> set ls" "p \<in> set (chain 0 ls)"
  then show "0 < snd p \<and> fst p + snd p \<le> sum_list ls"
    using chain_bounds [of p 0 ls] by (metis add.left_neutral neq0_conv)
qed (use chain_cover [of 0] chain_disjoint in auto)

abbreviation lengths :: "(u64 \<times> mtl_extent_status) list \<Rightarrow> nat list" where
  "lengths xs \<equiv> map (unat \<circ> fst) xs"

lemma layout_chain:
  "unat a + sum_list (lengths xs) < 2 ^ 64 \<Longrightarrow>
     map (\<lambda>(b, e). (unat b, unat (ext_length e))) (layout a xs) = chain (unat a) (lengths xs)"
proof (induction a xs rule: layout.induct)
  case (2 a l s xs)
  then have "unat (a + l) = unat a + unat l" by (intro unat_add_exact) simp
  with 2 show ?case by (simp add: unat_add_exact)
qed simp

lemma layout_free_node:
  "(b, e) \<in> set (layout a xs) \<Longrightarrow> ext_status e = MTL_FREE \<Longrightarrow>
     pq_node e = \<lparr>node_k = ext_length e, node_v = b\<rparr>"
  by (induction a xs rule: layout.induct) (auto split: if_splits)

lemma distinct_chain: "0 \<notin> set ls \<Longrightarrow> distinct (map fst (chain a ls))"
proof (induction a ls rule: chain.induct)
  case (2 a l ls)
  then show ?case using chain_bounds [of _ "a + l" ls] by fastforce
qed simp

lemma layout_alloc_inv:
  assumes "0 \<notin> set (lengths xs)" "sum_list (lengths xs) = n" "n < 2 ^ 64"
  defines "M \<equiv> map_of (layout 0 xs)"
  shows "alloc_inv n M (free_nodes M)" "distinct (map fst (layout 0 xs))"
proof -
  have c: "map (\<lambda>(b, e). (unat b, unat (ext_length e))) (layout 0 xs) = chain 0 (lengths xs)"
    using layout_chain [of 0 xs] assms by simp
  have "map unat (map fst (layout 0 xs)) = map fst (chain 0 (lengths xs))"
    unfolding c [symmetric] by (induction xs) (auto simp: comp_def case_prod_beta)
  then show d: "distinct (map fst (layout 0 xs))"
    using distinct_chain [OF assms(1)] by (metis distinct_map)
  have "ext_tiles M = set (map (\<lambda>(b, e). (unat b, unat (ext_length e))) (layout 0 xs))"
    using d by (force simp: ext_tiles_def M_def)
  then have "tiles n (ext_tiles M)" using tiles_chain [OF assms(1)] c assms(2) by simp
  moreover have "pq_node e = \<lparr>node_k = ext_length e, node_v = a\<rparr>"
      if "M a = Some e" "ext_status e = MTL_FREE" for a e
    using that layout_free_node [of a e 0 xs] by (auto simp: M_def dest: map_of_SomeD)
  ultimately show "alloc_inv n M (free_nodes M)" using assms(3) by (simp add: alloc_inv_def)
qed

context lmdb
begin

lemma put_layout_view:
  assumes "heap_wf L t" "extent_keys_wf L t" "distinct (map fst xs)"
    and "extents_of L t = Map.empty" "heap_nodes L t = {}"
  shows "heap_wf L (put_layout L t xs) \<and> extent_keys_wf L (put_layout L t xs) \<and>
    extents_of L (put_layout L t xs) = map_of xs \<and>
    heap_nodes L (put_layout L t xs) = free_nodes (map_of xs)"
  using assms(3)
proof (induction xs)
  case Nil
  then show ?case using assms by (simp add: free_nodes_def)
next
  case (Cons p xs)
  obtain a e where p: "p = (a, e)" by (cases p)
  let ?t1 = "put_layout L t xs"
  obtain r t' m where i: "mtl_heap_insert L ?t1 (ext_length e) a = (r, t', m)"
    by (cases "mtl_heap_insert L ?t1 (ext_length e) a")
  let ?t2 = "if ext_status e = MTL_FREE then t' else ?t1"
  obtain r3 t3 where q: "mtl_put_extent L ?t2 a e = (r3, t3)" by (cases "mtl_put_extent L ?t2 a e")
  have "map_of xs a = None" using Cons.prems p by (simp add: map_of_eq_None_iff)
  then have "(map_of xs)(a := None) = map_of xs" by auto
  then have fn: "free_nodes ((map_of xs)(a \<mapsto> e)) = (if ext_status e = MTL_FREE
      then insert \<lparr>node_k = ext_length e, node_v = a\<rparr> (free_nodes (map_of xs))
      else free_nodes (map_of xs))"
    by (simp add: free_nodes_insert)
  have "put_layout L t (p # xs) = t3" using i q by (simp add: p Let_def split: if_splits)
  moreover have "extents_of L t3 = map_of (p # xs)"
    using put_extent(2) [OF q] heap_insert_view(4) [OF i] Cons by (auto simp: p)
  moreover have "heap_nodes L t3 = free_nodes ((map_of xs)(a \<mapsto> e))"
    using put_extent(3) [OF q] heap_insert_view(1,2) [OF i] Cons fn by auto
  moreover have "map_of (p # xs) = (map_of xs)(a \<mapsto> e)" by (auto simp: p)
  moreover have "heap_wf L t3 \<and> extent_keys_wf L t3"
    using put_extent(4,5) [OF q] heap_insert_view(3,5) [OF i] Cons by auto
  ultimately show ?case by metis
qed

lemma put_layout_inv:
  assumes "heap_wf L t" "extent_keys_wf L t" "extents_of L t = Map.empty" "heap_nodes L t = {}"
    and "0 \<notin> set (lengths xs)" "sum_list (lengths xs) = n" "n < 2 ^ 64"
  shows "extents_inv L n (put_layout L t (layout 0 xs))"
    "extents_of L (put_layout L t (layout 0 xs)) = map_of (layout 0 xs)"
  using put_layout_view [OF assms(1,2) layout_alloc_inv(2) [OF assms(5-7)] assms(3,4)]
    layout_alloc_inv(1) [OF assms(5-7)] by (simp_all add: extents_inv_def)

end

text \<open>The reference store with the given extents.\<close>

definition store_of :: "(u64 \<times> mtl_extent_status) list \<Rightarrow> ref_db" where
  "store_of xs = put_layout ref_ops [] (layout 0 xs)"

lemma ref_empty_extents: "extent_keys_wf ref_ops []" "extents_of ref_ops [] = Map.empty"
  by (auto simp: extent_keys_wf_def ref_empty ref.extents_of_get)

lemma store_of_inv:
  assumes "0 \<notin> set (lengths xs)" "sum_list (lengths xs) = n" "n < 2 ^ 64"
  shows "extents_inv ref_ops n (store_of xs)"
    "extents_of ref_ops (store_of xs) = map_of (layout 0 xs)"
  using ref.put_layout_inv [OF ref_empty_heap(1) ref_empty_extents ref_empty_heap(2) assms]
  by (simp_all add: store_of_def)

section \<open>Initialisation\<close>

lemma initialize_extents_fresh:
  assumes "lmdb L" "heap_wf L t" "heap_nodes L t = {}" "extent_keys_wf L t"
    and "extents_of L t = Map.empty" "blocks \<noteq> 0"
    and "mtl_initialize_extents L t blocks = (r, t')"
  shows "r = MTL_SUCCESS \<and> extents_inv L (unat blocks) t' \<and>
    extents_of L t' = [0 \<mapsto> free_ext 0 blocks] \<and> free_blocks (extents_of L t') = {..<unat blocks} \<and>
    no_adjacent_free (extents_of L t') \<and>
    mtl_initialize_extents L t' m = (MTL_SUCCESS, t')"
proof -
  let ?M = "[0 \<mapsto> free_ext 0 blocks]"
  obtain r1 t1 n1 where i: "mtl_heap_insert L t blocks 0 = (r1, t1, n1)"
    by (cases "mtl_heap_insert L t blocks 0")
  let ?e = "\<lparr>ext_length = blocks, ext_status = MTL_FREE, pq_node = n1\<rparr>"
  obtain r2 t2 where p: "mtl_put_extent L t1 0 ?e = (r2, t2)" by (cases "mtl_put_extent L t1 0 ?e")
  note vi = lmdb.heap_insert_view [OF assms(1) i] and vp = lmdb.put_extent [OF assms(1) p]
  have t': "r = MTL_SUCCESS" "t' = t2"
    using assms(5,7) i p
    by (simp_all add: mtl_initialize_extents_def lmdb.load_extent_eq [OF assms(1)])
  have M: "extents_of L t' = ?M" using vp(2) vi(1,4) assms(5) t' by (simp add: free_ext_def)
  have "tiles (unat blocks) (ext_tiles ?M)"
    using tiles_single [of "unat blocks"] assms(6) by (simp add: ext_tiles_def unat_gt_0)
  then have "alloc_inv (unat blocks) ?M (free_nodes ?M)"
    by (simp add: alloc_inv_def)
  moreover have "heap_nodes L t' = free_nodes ?M"
    using vp(3) vi(1,2) assms(3) t' by (auto simp: free_nodes_def)
  ultimately have "extents_inv L (unat blocks) t'"
    using M vp(4,5) vi(3,5) assms(2,4) t' by (simp add: extents_inv_def)
  moreover have "free_blocks ?M = {..<unat blocks}"
    by (auto simp: free_blocks_def covers_def)
  moreover have "no_adjacent_free ?M" using assms(6) by (simp add: no_adjacent_free_def)
  moreover have "mtl_initialize_extents L t' m = (MTL_SUCCESS, t')"
    using M by (simp add: mtl_initialize_extents_def lmdb.load_extent_eq [OF assms(1)])
  ultimately show ?thesis using t'(1) M by simp
qed

text \<open>
  On a store without extents, \<open>mtl_initialize_extents\<close> makes the whole storage one free extent,
  which establishes the allocator's invariant; on a store that has been initialised it changes
  nothing.
\<close>

theorem initialize_extents_inv:
  assumes "lmdb L" "heap_wf L t" "heap_nodes L t = {}" "extent_keys_wf L t"
    and "extents_of L t = Map.empty" "blocks \<noteq> 0"
    and "mtl_initialize_extents L t blocks = (r, t')"
  shows "r = MTL_SUCCESS \<and> extents_inv L (unat blocks) t' \<and>
    extents_of L t' = [0 \<mapsto> free_ext 0 blocks] \<and> free_blocks (extents_of L t') = {..<unat blocks} \<and>
    no_adjacent_free (extents_of L t') \<and>
    mtl_initialize_extents L t' m = (MTL_SUCCESS, t')"
  using initialize_extents_fresh [OF assms] by blast

theorem initialize_extents_inv_witness:
  "\<exists>t'. mtl_initialize_extents ref_ops [] 128 = (MTL_SUCCESS, t') \<and> extents_inv ref_ops 128 t'"
proof -
  obtain r t' where x: "mtl_initialize_extents ref_ops [] 128 = (r, t')"
    by (cases "mtl_initialize_extents ref_ops [] 128")
  show ?thesis
    using initialize_extents_inv [OF ref.lmdb_axioms ref_empty_heap ref_empty_extents _ x, of 0] x
    by simp
qed

section \<open>Reservation\<close>

text \<open>
  C16: a reservation that cannot extend the last extent of the file takes its blocks from one free
  extent: \<open>min sz (length of that extent)\<close> of them, from its front.  Exactly these blocks stop being
  free, they become one extent in the requested state, the invariant and the absence of adjacent
  free extents are kept, and no other database is touched.  It fails, with 0 and an unchanged
  store, only if no block is free.
\<close>

theorem reserve_extent_from_heap:
  assumes "lmdb L" "extents_inv L n t" "\<not> extendable (extents_of L t) last_extent" "sz \<noteq> 0"
  shows "if free_blocks (extents_of L t) = {}
    then mtl_reserve_extent L t sz last_extent commit = Some (0, None, t)
    else \<exists>k a e t'. mtl_reserve_extent L t sz last_extent commit = Some (k, Some a, t') \<and>
      extents_of L t a = Some e \<and> ext_status e = MTL_FREE \<and>
      k \<noteq> 0 \<and> unat k = min (unat sz) (unat (ext_length e)) \<and>
      span a k \<subseteq> free_blocks (extents_of L t) \<and>
      free_blocks (extents_of L t') = free_blocks (extents_of L t) - span a k \<and>
      extents_of L t' a = Some (e\<lparr>ext_length := k,
        ext_status := (if commit then MTL_COMMITTED else MTL_RESERVED)\<rparr>) \<and>
      extents_inv L n t' \<and>
      (no_adjacent_free (extents_of L t) \<longrightarrow> no_adjacent_free (extents_of L t')) \<and>
      beside_extents L t' = beside_extents L t"
proof (cases "heap_nodes L t = {}")
  case True
  then have "free_blocks (extents_of L t) = {}"
    using lmdb.extents_invD(4) [OF assms(1,2)] by (auto simp: free_blocks_def free_nodes_def)
  then show ?thesis using lmdb.reserve_no_space [OF assms(1-3) True] by simp
next
  case False
  let ?M = "extents_of L t"
  note inv = lmdb.extents_invD(3) [OF assms(1,2)]
  obtain k a e t' where r: "mtl_reserve_extent L t sz last_extent commit = Some (k, Some a, t')"
    "?M a = Some e" "ext_status e = MTL_FREE" "unat k = min (unat sz) (unat (ext_length e))"
    "extents_of L t' = take_front ?M a e k commit" "extents_inv L n t'"
    "beside_extents L t' = beside_extents L t"
    using lmdb.reserve_from_heap [OF assms(1-3) False assms(4)] by metis
  have "0 < unat (ext_length e)" using alloc_inv_bound(1) [of n ?M _ a e, OF inv r(2)] .
  then have k: "0 < unat k" "k \<le> ext_length e"
    using r(4) assms(4) by (auto simp: word_le_nat_alt unat_gt_0)
  have "span a (ext_length e) \<subseteq> free_blocks ?M" using r(2,3) by (auto simp: free_blocks_def span_def)
  moreover have "span a k \<subseteq> span a (ext_length e)" using k(2) by (auto simp: span_iff word_le_nat_alt)
  moreover have "unat a \<in> span a k" using k(1) by (simp add: span_iff)
  moreover have "k \<noteq> 0" using k(1) by auto
  moreover have "extents_of L t' a = Some (e\<lparr>ext_length := k,
        ext_status := (if commit then MTL_COMMITTED else MTL_RESERVED)\<rparr>)"
    using r(5) by (simp add: take_front_def Let_def)
  moreover have "free_blocks (extents_of L t') = free_blocks ?M - span a k"
    using take_front_free_blocks [OF inv r(2,3) k] r(5) by simp
  moreover have "no_adjacent_free ?M \<longrightarrow> no_adjacent_free (extents_of L t')"
    using take_front_no_adjacent [OF inv r(2,3) k] r(5) by simp
  moreover have "free_blocks ?M \<noteq> {}" using calculation(1-3) by blast
  ultimately show ?thesis using r(1-4,6,7) by auto
qed

theorem reserve_extent_from_heap_witness:
  "\<exists>t'. mtl_reserve_extent ref_ops (store_of [(4, MTL_RESERVED), (10, MTL_FREE)]) 3 None True =
     Some (3, Some 4, t') \<and> extents_inv ref_ops 14 t'"
proof -
  let ?t = "store_of [(4, MTL_RESERVED), (10, MTL_FREE)]"
  have inv: "extents_inv ref_ops 14 ?t" "extents_of ref_ops ?t =
      map_of (layout 0 [(4, MTL_RESERVED), (10, MTL_FREE)])"
    by (simp_all add: store_of_inv)
  have "4 \<in> free_blocks (extents_of ref_ops ?t)"
    by (auto simp: inv(2) free_blocks_def covers_def intro!: exI [of _ "4 :: u64"])
  then have ne: "free_blocks (extents_of ref_ops ?t) \<noteq> {}" by blast
  have nx: "\<not> extendable (extents_of ref_ops ?t) None" by (simp add: extendable_def)
  obtain k a e t' where
    r: "mtl_reserve_extent ref_ops ?t 3 None True = Some (k, Some a, t')"
      "extents_of ref_ops ?t a = Some e" "ext_status e = MTL_FREE"
      "unat k = min (unat (3 :: u64)) (unat (ext_length e))" "extents_inv ref_ops 14 t'"
    using reserve_extent_from_heap [OF ref.lmdb_axioms inv(1) nx, of 3 True, unfolded if_not_P [OF ne]]
    by auto
  moreover have "a = 4 \<and> ext_length e = 10"
    using r(2,3) by (auto simp: inv(2) split: if_splits)
  ultimately have "k = 3 \<and> a = 4" by (simp add: word_eq_unat)
  then show ?thesis using r by simp
qed

text \<open>
  C24: a reservation for a file whose last extent is followed by a free extent longer than needed
  grows that extent in place: it returns the offset of the last extent and the full number of
  blocks, exactly the blocks behind the last extent stop being free, and the invariant is kept.
\<close>

theorem reserve_extent_extends_last:
  assumes "lmdb L" "extents_inv L n t"
    and "extents_of L t (fe_offset le) = Some e" "ext_length e = fe_length le"
      "ext_status e \<noteq> MTL_FREE"
    and "extents_of L t (fe_offset le + fe_length le) = Some nx" "ext_status nx = MTL_FREE"
    and "sz \<noteq> 0" "sz < ext_length nx"
  shows "\<exists>t'. mtl_reserve_extent L t sz (Some le) commit = Some (sz, Some (fe_offset le), t') \<and>
    extents_inv L n t' \<and>
    free_blocks (extents_of L t') =
      free_blocks (extents_of L t) - span (fe_offset le + fe_length le) sz \<and>
    extents_of L t' (fe_offset le) = Some (e\<lparr>ext_length := fe_length le + sz,
      ext_status := (if commit then MTL_COMMITTED else MTL_RESERVED)\<rparr>) \<and>
    (no_adjacent_free (extents_of L t) \<longrightarrow> no_adjacent_free (extents_of L t')) \<and>
    beside_extents L t' = beside_extents L t"
proof -
  let ?M = "extents_of L t"
  note inv = lmdb.extents_invD(3) [OF assms(1,2)]
  obtain t' where r: "mtl_reserve_extent L t sz (Some le) commit = Some (sz, Some (fe_offset le), t')"
    "extents_of L t' = grow_into_next ?M (fe_offset le) e nx sz commit"
    "extents_inv L n t'" "beside_extents L t' = beside_extents L t"
    using lmdb.reserve_extend [OF assms] by metis
  have nx: "?M (fe_offset le + ext_length e) = Some nx" using assms(4,6) by simp
  have sz: "0 < unat sz" "unat sz < unat (ext_length nx)"
    using assms(8,9) by (simp_all add: unat_gt_0 word_less_nat_alt)
  show ?thesis
    using r grow_free_blocks [OF inv assms(3,5) nx assms(7) sz, of commit] assms(4)
      grow_no_adjacent [OF inv assms(3,5) nx assms(7) sz, of commit]
    by (auto simp: grow_into_next_def)
qed

theorem reserve_extent_extends_last_witness:
  "\<exists>t'. mtl_reserve_extent ref_ops (store_of [(4, MTL_COMMITTED), (10, MTL_FREE)]) 3
     (Some \<lparr>fe_offset = 0, fe_length = 4\<rparr>) True = Some (3, Some 0, t') \<and> extents_inv ref_ops 14 t'"
proof -
  let ?t = "store_of [(4, MTL_COMMITTED), (10, MTL_FREE)]"
  have inv: "extents_inv ref_ops 14 ?t" "extents_of ref_ops ?t =
      map_of (layout 0 [(4, MTL_COMMITTED), (10, MTL_FREE)])"
    by (simp_all add: store_of_inv)
  show ?thesis
    using reserve_extent_extends_last [OF ref.lmdb_axioms inv(1), of "\<lparr>fe_offset = 0, fe_length = 4\<rparr>"
      _ "free_ext 4 10" 3 True] by (auto simp: inv(2))
qed

text \<open>
  C26: when the free extent behind the last extent is not longer than what is asked for, all of it
  is handed out, but the extent that takes it keeps its old length in the database, so that
  afterwards no extent covers the blocks handed out and the extents no longer tile the storage.
\<close>

theorem reserve_extent_loses_blocks:
  assumes "lmdb L" "extents_inv L n t"
    and "extents_of L t (fe_offset le) = Some e" "ext_length e = fe_length le"
      "ext_status e \<noteq> MTL_FREE"
    and "extents_of L t (fe_offset le + fe_length le) = Some nx" "ext_status nx = MTL_FREE"
    and "ext_length nx \<le> sz" "unat (ext_length e) + unat sz < 2 ^ 64"
  shows "\<exists>t'. mtl_reserve_extent L t sz (Some le) commit =
      Some (ext_length nx, Some (fe_offset le), t') \<and>
    (\<forall>a e' x. extents_of L t' a = Some e' \<longrightarrow> x \<in> span a (ext_length e') \<longrightarrow>
       x \<notin> span (fe_offset le + fe_length le) (ext_length nx)) \<and>
    \<not> extents_inv L n t'"
proof -
  let ?M = "extents_of L t" and ?a = "fe_offset le" and ?b = "fe_offset le + fe_length le"
  note inv = lmdb.extents_invD(3) [OF assms(1,2)]
  obtain t' where r: "mtl_reserve_extent L t sz (Some le) commit =
      Some (ext_length nx, Some ?a, t')"
    "extents_of L t' = ?M(?a + ext_length e := None,
       ?a \<mapsto> e\<lparr>ext_status := (if commit then MTL_COMMITTED else MTL_RESERVED)\<rparr>)"
    using lmdb.reserve_extend_all [OF assms] by metis
  have ne: "?a \<noteq> ?b" using assms(3,5-7) by auto
  have old: "\<exists>e0. ?M a = Some e0 \<and> ext_length e0 = ext_length e' \<and> a \<noteq> ?b"
    if "extents_of L t' a = Some e'" for a e'
    using that r(2) assms(3,4) ne by (auto split: if_splits)
  have lost: "x \<notin> span ?b (ext_length nx)"
    if x: "extents_of L t' a = Some e'" "x \<in> span a (ext_length e')" for a e' x
  proof -
    obtain e0 where e0: "?M a = Some e0" "ext_length e0 = ext_length e'" "a \<noteq> ?b"
      using old [of a e'] x(1) by blast
    then show ?thesis
      using alloc_inv_disjoint [of n ?M _ a e0 ?b nx x, OF inv e0(1) assms(6)] e0(2,3) x(2)
      by (auto simp: span_def)
  qed
  have "unat ?b \<in> span ?b (ext_length nx)" "unat ?b < n"
    using alloc_inv_bound(1,2) [of n ?M _ ?b nx, OF inv assms(6)] by (auto simp: span_iff)
  then have "\<not> tiles n (ext_tiles (extents_of L t'))"
    using lost tiles_cover [of n "ext_tiles (extents_of L t')" "unat ?b"]
    by (auto simp: ext_tiles_def span_def)
  then have "\<not> extents_inv L n t'" by (simp add: extents_inv_def alloc_inv_def)
  then show ?thesis using r(1) lost by blast
qed

theorem reserve_extent_loses_blocks_witness:
  "\<exists>t'. mtl_reserve_extent ref_ops (store_of [(4, MTL_COMMITTED), (2, MTL_FREE)]) 2
     (Some \<lparr>fe_offset = 0, fe_length = 4\<rparr>) True = Some (2, Some 0, t') \<and> \<not> extents_inv ref_ops 6 t'"
proof -
  let ?t = "store_of [(4, MTL_COMMITTED), (2, MTL_FREE)]"
  have inv: "extents_inv ref_ops 6 ?t" "extents_of ref_ops ?t =
      map_of (layout 0 [(4, MTL_COMMITTED), (2, MTL_FREE)])"
    by (simp_all add: store_of_inv)
  show ?thesis
    using reserve_extent_loses_blocks [OF ref.lmdb_axioms inv(1),
      of "\<lparr>fe_offset = 0, fe_length = 4\<rparr>" _ "free_ext 4 2" 2 True] by (auto simp: inv(2))
qed

section \<open>Freeing and truncating\<close>

lemma succ_free_adjacent:
  assumes "alloc_inv n M H" "byte_ordered M" "M a = Some e"
  shows "succ_free M a \<longleftrightarrow> (\<exists>e'. M (a + ext_length e) = Some e' \<and> ext_status e' = MTL_FREE)"
  using is_succ_adjacent [OF assms(1,2), of a e] assms(3) by (auto simp: succ_free_def)

text \<open>Where the cursor finds the adjacent extent, and no two free extents touch.\<close>

lemma free_extent_step:
  assumes L: "lmdb L" and inv: "extents_inv L n t" and ord: "byte_ordered (extents_of L t)"
    and na: "no_adjacent_free (extents_of L t)"
    and e: "extents_of L t a = Some e" "ext_status e \<noteq> MTL_FREE"
  obtains t' l where "mtl_free_extent L t a = Some (MTL_SUCCESS, t')" "extents_inv L n t'"
    "extents_of L t' a = Some (free_ext a l)" "unat (ext_length e) \<le> unat l"
    "succ_free (extents_of L t) a \<longleftrightarrow> extents_of L t' (a + ext_length e) = None \<and> unat (a + ext_length e) < n"
    "free_blocks (extents_of L t') = free_blocks (extents_of L t) \<union> span a (ext_length e)"
    "beside_extents L t' = beside_extents L t"
proof -
  let ?M = "extents_of L t" and ?b = "a + ext_length e"
  note i = lmdb.extents_invD(3) [OF L inv]
  note bnd = alloc_inv_bound [of n ?M _ a e, OF i e(1)]
  have ne: "?b \<noteq> a" using bnd(1,4) by auto
  show ?thesis
  proof (cases "succ_free ?M a")
    case False
    obtain t' where t': "mtl_free_extent L t a = Some (MTL_SUCCESS, t')"
      "extents_of L t' = ?M(a \<mapsto> free_ext a (ext_length e))" "extents_inv L n t'"
      "beside_extents L t' = beside_extents L t"
      using lmdb.free_alone [OF L inv e False] .
    have "\<exists>k. (unat ?b, k) \<in> ext_tiles ?M" if "unat ?b < n"
      using tiles_next [of n "ext_tiles ?M" "unat a" "unat (ext_length e)"] i that bnd(4)
        ext_tiles_mem [of ?M a e, OF e(1)] by (simp add: alloc_inv_def)
    then have "\<exists>e'. ?M ?b = Some e'" if "unat ?b < n"
      using that by (auto elim!: ext_tilesE simp: word_eq_unat [symmetric])
    then have "\<not> (extents_of L t' ?b = None \<and> unat ?b < n)" using t'(2) ne by auto
    moreover have "free_blocks (extents_of L t') = free_blocks ?M \<union> span a (ext_length e)"
      using t'(2) free_blocks_remove_used [of ?M a] e by (auto simp: free_blocks_upd)
    ultimately show ?thesis
      using that [of t' "ext_length e"] t' False by auto
  next
    case True
    then obtain e' where e': "?M ?b = Some e'" "ext_status e' = MTL_FREE"
      using succ_free_adjacent [OF i ord, of a e] e(1) by blast
    have s: "is_succ ?M a ?b" using is_succ_adjacent [OF i ord, of a e] e(1) e'(1) by blast
    have ns: "\<not> succ_free ?M ?b"
      using succ_free_adjacent [OF i ord, of ?b e'] e' no_adjacent_freeD [OF na e'] by blast
    note bnd' = alloc_inv_bound [of n ?M _ ?b e', OF i e'(1)]
    obtain t' where t': "mtl_free_extent L t a = Some (MTL_SUCCESS, t')"
      "extents_of L t' = ?M(?b := None, a \<mapsto> free_ext a (ext_length e + ext_length e'))"
      "extents_inv L n t'" "beside_extents L t' = beside_extents L t"
      using lmdb.free_join [OF L inv e s e' ns] .
    have l: "unat (ext_length e + ext_length e') = unat (ext_length e) + unat (ext_length e')"
      using bnd(4) bnd'(3) by (simp add: unat_add_exact)
    have "span a (ext_length e + ext_length e') = span a (ext_length e) \<union> span ?b (ext_length e')"
      using l bnd(4) by (auto simp: span_iff)
    moreover have "span ?b (ext_length e') \<subseteq> free_blocks ?M"
      using e' by (auto simp: free_blocks_def span_def)
    moreover have "free_blocks (extents_of L t') = span a (ext_length e + ext_length e') \<union>
        (free_blocks ?M - span ?b (ext_length e'))"
      using t'(2) ne e free_blocks_remove_used [of "?M(?b := None)" a]
        free_blocks_remove_free [of n ?M _ ?b e', OF i e'] by (simp add: free_blocks_upd)
    ultimately have "free_blocks (extents_of L t') = free_blocks ?M \<union> span a (ext_length e)" by blast
    moreover have "unat ?b < n" using bnd' by simp
    ultimately show ?thesis
      using that [of t' "ext_length e + ext_length e'"] t' l True ne by auto
  qed
qed

text \<open>
  C17: on a storage of at most 256 blocks without adjacent free extents, \<open>mtl_free_extent\<close> on a used
  extent succeeds, keeps the invariant, and makes exactly the blocks of that extent free; the
  extent is free afterwards, and a free extent right behind it has been merged into it.
\<close>

theorem free_extent_returns_blocks:
  assumes "lmdb L" "extents_inv L n t" "n \<le> 256" "no_adjacent_free (extents_of L t)"
    and "extents_of L t a = Some e" "ext_status e \<noteq> MTL_FREE"
  shows "\<exists>t' l. mtl_free_extent L t a = Some (MTL_SUCCESS, t') \<and> extents_inv L n t' \<and>
    free_blocks (extents_of L t') = free_blocks (extents_of L t) \<union> span a (ext_length e) \<and>
    extents_of L t' a = Some (free_ext a l) \<and> unat (ext_length e) \<le> unat l \<and>
    (\<forall>e'. extents_of L t (a + ext_length e) = Some e' \<longrightarrow> ext_status e' = MTL_FREE \<longrightarrow>
       extents_of L t' (a + ext_length e) = None) \<and>
    beside_extents L t' = beside_extents L t"
proof -
  note i = lmdb.extents_invD(3) [OF assms(1,2)]
  have ord: "byte_ordered (extents_of L t)" by (rule small_byte_ordered [OF i assms(3)])
  show ?thesis
    using free_extent_step [OF assms(1,2) ord assms(4-6)]
      succ_free_adjacent [OF i ord, of a e] assms(5) by metis
qed

theorem free_extent_returns_blocks_witness:
  "\<exists>t'. mtl_free_extent ref_ops (store_of [(4, MTL_COMMITTED), (10, MTL_FREE)]) 0 =
     Some (MTL_SUCCESS, t') \<and> extents_inv ref_ops 14 t'"
proof -
  let ?t = "store_of [(4, MTL_COMMITTED), (10, MTL_FREE)]"
  have inv: "extents_inv ref_ops 14 ?t" "extents_of ref_ops ?t =
      map_of (layout 0 [(4, MTL_COMMITTED), (10, MTL_FREE)])"
    by (simp_all add: store_of_inv)
  have "no_adjacent_free (extents_of ref_ops ?t)"
    by (auto simp: inv(2) no_adjacent_free_def split: if_splits)
  then show ?thesis
    using free_extent_returns_blocks [OF ref.lmdb_axioms inv(1), of 0
      "\<lparr>ext_length = 4, ext_status = MTL_COMMITTED, pq_node = INVALID_NODE\<rparr>"]
    by (auto simp: inv(2))
qed

text \<open>
  When the freed extent is followed by two free extents, the second of them is taken for its
  predecessor: the sum of the three lengths is stored at the offset of the last one, with a heap
  node for offset 0, and the blocks of the freed extent belong to no extent any more.  (Freeing
  never merges with the extent in front, so that two adjacent free extents do arise.)
\<close>

theorem free_extent_two_free:
  assumes "lmdb L" "extents_inv L n t" "n \<le> 256"
    and "extents_of L t a = Some e" "ext_status e \<noteq> MTL_FREE"
    and "extents_of L t (a + ext_length e) = Some e'" "ext_status e' = MTL_FREE"
    and "extents_of L t (a + ext_length e + ext_length e') = Some e''" "ext_status e'' = MTL_FREE"
  defines "l \<equiv> ext_length e + ext_length e' + ext_length e''"
  shows "\<exists>t'. mtl_free_extent L t a = Some (MTL_SUCCESS, t') \<and>
    extents_of L t' (a + ext_length e + ext_length e') =
      Some \<lparr>ext_length = l, ext_status = MTL_FREE, pq_node = \<lparr>node_k = l, node_v = 0\<rparr>\<rparr> \<and>
    (\<forall>c ec x. extents_of L t' c = Some ec \<longrightarrow> x \<in> span c (ext_length ec) \<longrightarrow>
       x \<notin> span a (ext_length e)) \<and>
    \<not> extents_inv L n t'"
proof -
  let ?M = "extents_of L t" and ?b = "a + ext_length e" and ?c = "a + ext_length e + ext_length e'"
  note i = lmdb.extents_invD(3) [OF assms(1,2)]
  have ord: "byte_ordered ?M" by (rule small_byte_ordered [OF i assms(3)])
  have sb: "is_succ ?M a ?b" and sc: "is_succ ?M ?b ?c"
    using is_succ_adjacent [OF i ord, of a e] is_succ_adjacent [OF i ord, of ?b e'] assms(4,6,8)
    by auto
  obtain t' where t': "mtl_free_extent L t a = Some (MTL_SUCCESS, t')"
    "extents_of L t' = ?M(?b := None, a := None,
       ?c \<mapsto> \<lparr>ext_length = l, ext_status = MTL_FREE, pq_node = \<lparr>node_k = l, node_v = 0\<rparr>\<rparr>)"
    using lmdb.free_two [OF assms(1,2,4,5) sb assms(6,7) sc assms(8,9)] unfolding l_def by metis
  note ba = alloc_inv_bound [of n ?M _ a e, OF i assms(4)]
    and bb = alloc_inv_bound [of n ?M _ ?b e', OF i assms(6)]
  have lost: "x \<notin> span a (ext_length e)"
    if x: "extents_of L t' c = Some ec" "x \<in> span c (ext_length ec)" for c ec x
  proof (cases "c = ?c")
    case True
    then show ?thesis using x ba(4) bb(4) by (auto simp: span_iff)
  next
    case False
    then have c: "?M c = Some ec" "c \<noteq> a" using x(1) t'(2) by (auto split: if_splits)
    show ?thesis
      using alloc_inv_disjoint [of n ?M _ c ec a e x, OF i c(1) assms(4)] c(2) x(2)
      by (auto simp: span_def)
  qed
  have "unat a \<in> span a (ext_length e)" "unat a < n" using ba by (auto simp: span_iff)
  then have "\<not> tiles n (ext_tiles (extents_of L t'))"
    using lost tiles_cover [of n "ext_tiles (extents_of L t')" "unat a"]
    by (auto simp: ext_tiles_def span_def)
  then have "\<not> extents_inv L n t'" by (simp add: extents_inv_def alloc_inv_def)
  then show ?thesis using t' lost by auto
qed

theorem free_extent_two_free_witness:
  "\<exists>t'. mtl_free_extent ref_ops (store_of [(4, MTL_COMMITTED), (2, MTL_FREE), (3, MTL_FREE)]) 0 =
       Some (MTL_SUCCESS, t') \<and>
     map_option ext_length (extents_of ref_ops t' 6) = Some 9 \<and> \<not> extents_inv ref_ops 9 t'"
proof -
  let ?xs = "[(4, MTL_COMMITTED), (2, MTL_FREE), (3, MTL_FREE)]"
  have inv: "extents_inv ref_ops 9 (store_of ?xs)"
      "extents_of ref_ops (store_of ?xs) = map_of (layout 0 ?xs)"
    by (simp_all add: store_of_inv)
  show ?thesis
    using free_extent_two_free [OF ref.lmdb_axioms inv(1), of 0
      "\<lparr>ext_length = 4, ext_status = MTL_COMMITTED, pq_node = INVALID_NODE\<rparr>"
      "free_ext 4 2" "free_ext 6 3"]
    by (auto simp: inv(2))
qed

text \<open>An extent cannot take over one that does not begin where it ends.\<close>

lemma not_adjacent_not_tiles:
  assumes i: "alloc_inv n M H" and a: "M a = Some e" and b: "M b = Some e'"
    and ne: "a \<noteq> b" "b \<noteq> a + ext_length e"
  shows "\<not> tiles n (ext_tiles (M(b := None, a \<mapsto> e1)))"
proof
  let ?M' = "M(b := None, a \<mapsto> e1)" and ?d = "a + ext_length e"
  assume T: "tiles n (ext_tiles ?M')"
  note ba = alloc_inv_bound [of n M H a e, OF i a] and bb = alloc_inv_bound [of n M H b e', OF i b]
  have bcov: "covers (unat b, unat (ext_length e')) (unat b)" using bb(1) by (simp add: covers_def)
  obtain c ec where c: "?M' c = Some ec" "covers (unat c, unat (ext_length ec)) (unat b)"
    using tiles_cover [OF T, of "unat b"] bb(1,2) by (auto simp: ext_tiles_def)
  have "c = a"
    using c alloc_inv_disjoint [of n M H c ec b e' "unat b", OF i _ b c(2) bcov]
    by (auto split: if_splits)
  then have cov: "unat a \<le> unat b" "unat b < unat a + unat (ext_length e1)"
    using c by (auto simp: covers_def)
  have "\<not> covers (unat a, unat (ext_length e)) (unat b)"
    using alloc_inv_disjoint [of n M H a e b e' "unat b", OF i a b _ bcov] ne(1) by blast
  moreover have "unat b \<noteq> unat ?d" using ne(2) by (simp add: word_eq_unat)
  ultimately have d0: "unat ?d < unat b" using cov(1) ba(4) by (auto simp: covers_def)
  then obtain k where "(unat ?d, k) \<in> ext_tiles M"
    using tiles_next [of n "ext_tiles M" "unat a" "unat (ext_length e)"] i ba(4) bb(1,2)
      ext_tiles_mem [of M a e, OF a] by (auto simp: alloc_inv_def)
  then obtain ed where d: "M ?d = Some ed"
    by (auto elim!: ext_tilesE simp: word_eq_unat [symmetric])
  have da: "?d \<noteq> a" using ba(1,4) by auto
  then have d': "?M' ?d = Some ed" using d ne(2) by simp
  have "covers (unat ?d, unat (ext_length ed)) (unat ?d)"
    using alloc_inv_bound(1) [of n M H ?d ed, OF i d] by (simp add: covers_def)
  moreover have "covers (unat a, unat (ext_length e1)) (unat ?d)"
    using cov d0 ba(4) by (simp add: covers_def)
  ultimately have "unat a = unat ?d"
    using tiles_disjoint [OF T ext_tiles_mem [of ?M' a e1] ext_tiles_mem [of ?M' ?d ed, OF d']]
    by simp
  then show False using da by (simp add: word_eq_unat)
qed

text \<open>
  Beyond 256 blocks the extent that follows in the order of the keys need not be adjacent.  If
  it is free and not adjacent, \<open>mtl_free_extent\<close> still adds its length to the freed extent and
  deletes it, and the extents no longer tile the storage.
\<close>

theorem free_extent_wrong_neighbour:
  assumes "lmdb L" "extents_inv L n t"
    and "extents_of L t a = Some e" "ext_status e \<noteq> MTL_FREE"
    and "is_succ (extents_of L t) a b" "extents_of L t b = Some e'" "ext_status e' = MTL_FREE"
    and "\<not> succ_free (extents_of L t) b" "b \<noteq> a + ext_length e"
  shows "\<exists>t'. mtl_free_extent L t a = Some (MTL_SUCCESS, t') \<and>
    extents_of L t' = (extents_of L t)(b := None, a \<mapsto> free_ext a (ext_length e + ext_length e')) \<and>
    \<not> extents_inv L n t'"
proof -
  let ?M = "extents_of L t"
  note i = lmdb.extents_invD(3) [OF assms(1,2)]
  obtain t' where t': "mtl_free_extent L t a = Some (MTL_SUCCESS, t')"
    "extents_of L t' = ?M(b := None, a \<mapsto> free_ext a (ext_length e + ext_length e'))"
    using lmdb.free_merged [OF assms(1-8)] by metis
  have "\<not> tiles n (ext_tiles (extents_of L t'))"
    unfolding t'(2) using assms(5,9)
    by (intro not_adjacent_not_tiles [OF i assms(3,6)]) (auto simp: is_succ_def)
  then have "\<not> extents_inv L n t'" by (simp add: extents_inv_def alloc_inv_def)
  then show ?thesis using t' by blast
qed

theorem free_extent_wrong_neighbour_witness:
  "\<exists>t'. mtl_free_extent ref_ops (store_of [(1, MTL_RESERVED), (255, MTL_RESERVED), (1, MTL_FREE)]) 0 =
       Some (MTL_SUCCESS, t') \<and> \<not> extents_inv ref_ops 257 t'"
proof -
  let ?xs = "[(1, MTL_RESERVED), (255, MTL_RESERVED), (1, MTL_FREE)]"
  let ?e = "\<lparr>ext_length = 1, ext_status = MTL_RESERVED, pq_node = INVALID_NODE\<rparr>"
  have inv: "extents_inv ref_ops 257 (store_of ?xs)"
      "extents_of ref_ops (store_of ?xs) = map_of (layout 0 ?xs)"
    by (simp_all add: store_of_inv)
  have enc: "enc64 0 < enc64 256" "enc64 256 < enc64 1" "enc64 0 = [0, 0, 0, 0, 0, 0, 0, 0]"
    by (simp_all add: enc64_256 enc64_1, simp_all add: enc64_def le_bytes_numeral)
  have s: "is_succ (map_of (layout 0 ?xs)) 0 256"
    using enc by (auto simp: is_succ_def split: if_splits)
  have ns: "\<not> succ_free (map_of (layout 0 ?xs)) 256"
    by (auto simp: succ_free_def is_succ_def split: if_splits)
  show ?thesis
    using free_extent_wrong_neighbour [OF ref.lmdb_axioms inv(1), of 0 ?e 256 "free_ext 256 1"] s ns
    by (auto simp: inv(2))
qed

lemma truncated_map:
  assumes i: "alloc_inv n M (free_nodes M)" and a: "M a = Some e" "ext_status e \<noteq> MTL_FREE"
    and l: "len \<noteq> 0" "len < ext_length e"
    and e1: "ext_length e1 = len" "ext_status e1 \<noteq> MTL_FREE"
    and e2: "ext_length e2 = ext_length e - len" "ext_status e2 \<noteq> MTL_FREE"
  defines "M2 \<equiv> M(a \<mapsto> e1, a + len \<mapsto> e2)"
  shows "alloc_inv n M2 (free_nodes M)" "free_blocks M2 = free_blocks M"
    "no_adjacent_free M \<Longrightarrow> no_adjacent_free M2"
proof -
  have l': "0 < unat len" "unat len < unat (ext_length e)"
    using l by (simp_all add: unat_gt_0 word_less_nat_alt)
  note ins = alloc_inv_inside [of n M _ a e len, OF i a(1) l']
  have ne: "a + len \<noteq> a" using ins(1) l'(1) by auto
  have M2: "M2 = M(a + len \<mapsto> e2, a \<mapsto> e1)" unfolding M2_def using ne by auto
  have "free_nodes M2 = free_nodes M"
    using a e1(2) e2(2) ins(2) ne by (intro set_eqI) (auto simp: M2_def free_nodes_iff)
  then show "alloc_inv n M2 (free_nodes M)"
    using alloc_inv_split [of n M _ a e len e1 e2, OF i a(1) l'] e1 e2 by (simp add: M2)
  have "free_blocks (M(a := None, a + len := None)) = free_blocks M"
    using free_blocks_remove_used [of "M(a := None)" "a + len"] free_blocks_remove_used [of M a]
      a ins(2) ne by simp
  moreover have "M2(a + len := None) = M(a + len := None, a \<mapsto> e1)" unfolding M2_def using ne by auto
  moreover have "M(a + len := None, a := None) = M(a := None, a + len := None)" using ne by auto
  ultimately show "free_blocks M2 = free_blocks M"
    using e1(2) e2(2) free_blocks_upd [of "M(a \<mapsto> e1)" "a + len" e2]
      free_blocks_upd [of "M(a + len := None)" a e1] by (simp add: M2_def)
  show "no_adjacent_free M2" if "no_adjacent_free M"
    using that e1(2) e2(2) by (auto simp: M2_def no_adjacent_free_def split: if_splits)
qed

text \<open>Freeing the rest of an extent that has been shortened.\<close>

lemma free_rest:
  assumes "lmdb L" "extents_inv L n t" "n \<le> 256" "no_adjacent_free (extents_of L t)"
    and "extents_of L t a = Some e" "ext_status e \<noteq> MTL_FREE" "len \<noteq> 0" "len < ext_length e"
    and p1: "mtl_put_extent L t a (e\<lparr>ext_status := MTL_COMMITTED, ext_length := len\<rparr>) = (r1, t1)"
  defines "e2 \<equiv> \<lparr>ext_length = ext_length e - len, ext_status = MTL_RESERVED, pq_node = INVALID_NODE\<rparr>"
  shows "\<exists>t'. mtl_free_extent L (snd (mtl_put_extent L t1 (a + len) e2)) (a + len) = Some (MTL_SUCCESS, t') \<and>
    extents_inv L n t' \<and>
    free_blocks (extents_of L t') = free_blocks (extents_of L t) \<union> span (a + len) (ext_length e - len) \<and>
    beside_extents L t' = beside_extents L t"
proof -
  let ?M = "extents_of L t" and ?e1 = "e\<lparr>ext_status := MTL_COMMITTED, ext_length := len\<rparr>"
  let ?M2 = "?M(a \<mapsto> ?e1, a + len \<mapsto> e2)"
  note i = lmdb.extents_invD [OF assms(1,2)] and v1 = lmdb.put_extent [OF assms(1) p1]
  obtain r2 t2 where p2: "mtl_put_extent L t1 (a + len) e2 = (r2, t2)"
    by (cases "mtl_put_extent L t1 (a + len) e2")
  note v2 = lmdb.put_extent [OF assms(1) p2]
  have i': "alloc_inv n ?M (free_nodes ?M)" using i(3,4) by simp
  note s = truncated_map [of n ?M a e len ?e1 e2, OF i' assms(5-8), simplified, unfolded e2_def, simplified,
      folded e2_def]
  have inv2: "extents_inv L n t2" using s v1 v2 i by (simp add: extents_inv_def)
  have M2: "extents_of L t2 = ?M2" using v1(2) v2(2) by simp
  have h: "byte_ordered (extents_of L t2)" "no_adjacent_free (extents_of L t2)"
      "extents_of L t2 (a + len) = Some e2" "ext_status e2 \<noteq> MTL_FREE"
    using small_byte_ordered [OF s(1) assms(3)] s(3) assms(4) by (simp_all add: M2 e2_def)
  have "ext_length e2 = ext_length e - len" "snd (mtl_put_extent L t1 (a + len) e2) = t2"
    "free_blocks (extents_of L t2) = free_blocks ?M" "beside_extents L t2 = beside_extents L t"
    using s(2) v1(6) v2(6) M2 p2 by (simp_all add: e2_def)
  then show ?thesis using free_extent_step [OF assms(1) inv2 h] by metis
qed

text \<open>Shortening an extent without making an extent of its rest leaves the rest in no extent.\<close>

lemma shortened_map_loses:
  assumes inv: "alloc_inv n M H" and a: "M a = Some e" and len: "len < ext_length e"
    and e1: "ext_length e1 = len"
  defines "M' \<equiv> M(a \<mapsto> e1)"
  shows "\<forall>b e' x. M' b = Some e' \<longrightarrow> x \<in> span b (ext_length e') \<longrightarrow> x \<notin> span (a + len) (ext_length e - len)"
    and "\<not> tiles n (ext_tiles M')"
proof -
  note bd = alloc_inv_bound [of n M H a e, OF inv a]
  have l: "unat len < unat (ext_length e)" using len by (simp add: word_less_nat_alt)
  have u: "unat (a + len) = unat a + unat len" "unat (ext_length e - len) = unat (ext_length e) - unat len"
    using bd l unat_u64_bound [of a] inv by (auto simp: unat_add_exact unat_sub_exact alloc_inv_def)
  have rest: "x \<in> span a (ext_length e) \<and> x \<notin> span a len" if "x \<in> span (a + len) (ext_length e - len)" for x
    using that l by (auto simp: span_iff u)
  show lost: "\<forall>b e' x. M' b = Some e' \<longrightarrow> x \<in> span b (ext_length e') \<longrightarrow> x \<notin> span (a + len) (ext_length e - len)"
  proof (intro allI impI notI)
    fix b e' x assume h: "M' b = Some e'" "x \<in> span b (ext_length e')" "x \<in> span (a + len) (ext_length e - len)"
    then have "b \<noteq> a" using rest e1 by (auto simp: M'_def)
    then show False
      using h rest alloc_inv_disjoint [of n M H b e' a e x, OF inv _ a] by (auto simp: M'_def span_def)
  qed
  have "unat (a + len) \<in> span (a + len) (ext_length e - len)" "unat (a + len) < n"
    using l bd by (auto simp: span_iff u)
  then show "\<not> tiles n (ext_tiles M')"
    using lost tiles_cover [of n "ext_tiles M'" "unat (a + len)"] by (auto simp: ext_tiles_def span_def)
qed

text \<open>
  C25: truncating a used extent of a storage of at most 256 blocks without adjacent free extents to
  a length that is not 0 and not longer than before.  The code reads the old length through a
  pointer into the database after it has updated the extent.  If that memory still shows the old
  length (the update went to a copy of the page), the blocks behind the new end become free, no
  others, and the invariant is kept.  If it shows the new length (the page was already a copy, and
  was overwritten), the extent is shortened, nothing becomes free, and the blocks behind the new end
  belong to no extent any more, so that the extents no longer tile the storage.
\<close>

theorem truncate_extent_spec:
  assumes "lmdb L" "extents_inv L n t" "n \<le> 256" "no_adjacent_free (extents_of L t)"
    and "extents_of L t a = Some e" "ext_status e \<noteq> MTL_FREE" "len \<noteq> 0" "len \<le> ext_length e"
  defines "t1 \<equiv> snd (mtl_put_extent L t a (e\<lparr>ext_status := MTL_COMMITTED, ext_length := len\<rparr>))"
  defines "seen \<equiv> ext_length (dec_extent (mdb_reread L t t1 EXTENTS_DB_NAME (enc64 a)))"
  shows "(seen = ext_length e \<longrightarrow>
      (\<exists>t'. mtl_truncate_extent L t a len = Some (MTL_SUCCESS, t') \<and> extents_inv L n t' \<and>
        free_blocks (extents_of L t') =
          free_blocks (extents_of L t) \<union> span (a + len) (ext_length e - len) \<and>
        beside_extents L t' = beside_extents L t)) \<and>
    (seen = len \<longrightarrow>
      (\<exists>t'. mtl_truncate_extent L t a len = Some (MTL_SUCCESS, t') \<and>
        free_blocks (extents_of L t') = free_blocks (extents_of L t) \<and>
        (\<forall>b e' x. extents_of L t' b = Some e' \<longrightarrow> x \<in> span b (ext_length e') \<longrightarrow>
           x \<notin> span (a + len) (ext_length e - len)) \<and>
        (len < ext_length e \<longrightarrow> \<not> extents_inv L n t')))"
proof -
  let ?M = "extents_of L t" and ?e1 = "e\<lparr>ext_status := MTL_COMMITTED, ext_length := len\<rparr>"
  note i = lmdb.extents_invD [OF assms(1,2)]
  have p1: "mtl_put_extent L t a ?e1 = (MTL_SUCCESS, t1)" by (simp add: t1_def mtl_put_extent_def)
  note v1 = lmdb.put_extent [OF assms(1) p1]
  have free1: "free_blocks (extents_of L t1) = free_blocks ?M"
    using v1(2) assms(5,6) free_blocks_remove_used [of ?M a] by (simp add: free_blocks_upd)
  have keep: "mtl_truncate_extent L t a len = Some (MTL_SUCCESS, t1)" if "\<not> len < seen"
    using that p1 assms(5,7)
    by (simp add: mtl_truncate_extent_def lmdb.load_extent_eq [OF assms(1)] seen_def)
  have same: "extents_inv L n t1" "span (a + len) (ext_length e - len) = {}" if len: "len = ext_length e"
  proof -
    have "alloc_inv n (?M(a \<mapsto> ?e1)) (free_nodes (?M(a \<mapsto> ?e1)))"
      using len by (intro alloc_inv_mark [of n ?M _ a e, OF i(3) assms(5)]) simp_all
    moreover have "free_nodes (?M(a \<mapsto> ?e1)) = free_nodes ?M"
      using assms(5,6) by (intro set_eqI) (auto simp: free_nodes_iff)
    ultimately show "extents_inv L n t1" using i v1 by (simp add: extents_inv_def)
    show "span (a + len) (ext_length e - len) = {}" by (auto simp: span_iff len)
  qed
  have lost: "(\<forall>b e' x. extents_of L t1 b = Some e' \<longrightarrow> x \<in> span b (ext_length e') \<longrightarrow>
         x \<notin> span (a + len) (ext_length e - len)) \<and> (len < ext_length e \<longrightarrow> \<not> extents_inv L n t1)"
  proof (cases "len < ext_length e")
    case True
    then show ?thesis
      using shortened_map_loses [of n ?M _ a e len ?e1, OF i(3) assms(5) True] v1(2)
      by (simp add: extents_inv_def alloc_inv_def)
  qed (use same assms(8) in simp)
  have "\<exists>t'. mtl_truncate_extent L t a len = Some (MTL_SUCCESS, t') \<and> extents_inv L n t' \<and>
      free_blocks (extents_of L t') = free_blocks ?M \<union> span (a + len) (ext_length e - len) \<and>
      beside_extents L t' = beside_extents L t" if seen: "seen = ext_length e"
  proof (cases "len < ext_length e")
    case False
    then show ?thesis using keep seen same free1 assms(8) v1(6) by simp
  next
    case True
    let ?e2 = "\<lparr>ext_length = ext_length e - len, ext_status = MTL_RESERVED, pq_node = INVALID_NODE\<rparr>"
    obtain t' where "mtl_free_extent L (snd (mtl_put_extent L t1 (a + len) ?e2)) (a + len) = Some (MTL_SUCCESS, t')"
      "extents_inv L n t'"
      "free_blocks (extents_of L t') = free_blocks ?M \<union> span (a + len) (ext_length e - len)"
      "beside_extents L t' = beside_extents L t"
      using free_rest [OF assms(1-7) True p1] by blast
    moreover have "mtl_truncate_extent L t a len =
        mtl_free_extent L (snd (mtl_put_extent L t1 (a + len) ?e2)) (a + len)"
      using True p1 assms(5,7) seen
      by (simp add: mtl_truncate_extent_def lmdb.load_extent_eq [OF assms(1)] seen_def mtl_put_extent_def)
    ultimately show ?thesis by metis
  qed
  moreover have "\<not> len < seen" if "seen = len" using that by simp
  ultimately show ?thesis using keep free1 lost by blast
qed

text \<open>Both cases: on a store that copies pages, and on one that overwrites them.\<close>

theorem truncate_extent_spec_witness:
  "(\<exists>t'. mtl_truncate_extent ref_ops (store_of [(4, MTL_COMMITTED), (10, MTL_FREE)]) 0 1 =
      Some (MTL_SUCCESS, t') \<and> extents_inv ref_ops 14 t' \<and>
      free_blocks (extents_of ref_ops t') =
        free_blocks (extents_of ref_ops (store_of [(4, MTL_COMMITTED), (10, MTL_FREE)])) \<union> span 1 3) \<and>
   (\<exists>t'. mtl_truncate_extent inplace_ops (store_of [(4, MTL_COMMITTED), (10, MTL_FREE)]) 0 1 =
      Some (MTL_SUCCESS, t') \<and> \<not> extents_inv inplace_ops 14 t')"
proof -
  let ?t = "store_of [(4, MTL_COMMITTED), (10, MTL_FREE)]"
  let ?e = "\<lparr>ext_length = 4, ext_status = MTL_COMMITTED, pq_node = INVALID_NODE\<rparr>"
  have inv: "extents_inv ref_ops 14 ?t" "extents_of ref_ops ?t =
      map_of (layout 0 [(4, MTL_COMMITTED), (10, MTL_FREE)])"
    by (simp_all add: store_of_inv)
  have ip: "extents_of inplace_ops = extents_of ref_ops"
    by (simp add: fun_eq_iff extents_of_def mtl_load_extent_def)
  have ip2: "extents_inv inplace_ops = extents_inv ref_ops"
    by (intro ext) (simp add: ip extents_inv_def heap_wf_def extent_keys_wf_def heap_nodes_def)
  have nf: "no_adjacent_free (extents_of ref_ops ?t)"
    by (auto simp: inv(2) no_adjacent_free_def split: if_splits)
  have e: "extents_of ref_ops ?t 0 = Some ?e" by (simp add: inv(2))
  then obtain v where v: "mdb_get ref_ops ?t EXTENTS_DB_NAME (enc64 0) = Some v" "dec_extent v = ?e"
    by (auto simp: ref.extents_of_get)
  have "mdb_reread ref_ops ?t t1 EXTENTS_DB_NAME (enc64 0) = v" for t1 using v(1) by (rule reread_ref)
  moreover have "mdb_reread inplace_ops ?t (mdb_put ref_ops ?t EXTENTS_DB_NAME (enc64 0) w) EXTENTS_DB_NAME (enc64 0) = w"
    for w by (rule reread_inplace) (simp add: ref.get_put)
  ultimately show ?thesis
    using truncate_extent_spec [OF ref.lmdb_axioms inv(1) _ nf, of 0 ?e 1]
      truncate_extent_spec [OF inplace.lmdb_axioms, of 14 ?t 0 ?e 1] nf inv(1) e v(2)
    by (simp add: ip ip2 mtl_put_extent_def) blast
qed

end
