(* ===== verification/Names.thy ===== *)
theory Names
  imports Metal Extent_Props
begin

text \<open>
  Names in the file system: resolving a path against walking the directories component by
  component, and what creating, renaming and removing do to the names.
\<close>

section \<open>Walking a path\<close>

fun walk :: "'t mdb_ops \<Rightarrow> 't \<Rightarrow> u64 \<Rightarrow> bytes list \<Rightarrow> (int \<times> u64 option) option" where
  "walk L t d [] = Some (MTL_SUCCESS, Some d)"
| "walk L t d (c # cs) = do {
     (res, i) \<leftarrow> mtl_resolve_inode_in_directory L t d c;
     if res \<noteq> MTL_SUCCESS then Some (res, None)
     else do {
       j \<leftarrow> i;
       walk L t j cs
     }
   }"

text \<open>The components lead from the directory \<open>d\<close> to the inode \<open>j\<close>.\<close>

inductive reaches :: "inode_map \<Rightarrow> u64 \<Rightarrow> bytes list \<Rightarrow> u64 \<Rightarrow> bool" for I where
  here: "reaches I d [] d"
| step: "is_dir I d es \<Longrightarrow> map_of es c = Some i \<Longrightarrow> reaches I i cs j \<Longrightarrow> reaches I d (c # cs) j"

inductive_cases reaches_NilE: "reaches I d [] j"
inductive_cases reaches_ConsE: "reaches I d (c # cs) j"
inductive_simps reaches_Nil [simp]: "reaches I d [] j"

lemma reaches_snoc:
  "reaches I d (cs @ [c]) j \<longleftrightarrow>
     (\<exists>p es. reaches I d cs p \<and> is_dir I p es \<and> map_of es c = Some j)"
proof (induction cs arbitrary: d)
  case Nil
  show ?case by (auto elim!: reaches_ConsE intro: reaches.intros)
next
  case (Cons a cs)
  then show ?case by (auto elim!: reaches_ConsE intro: reaches.intros) (blast intro: reaches.intros)+
qed

text \<open>Directories that only gain names still lead where they led.\<close>

lemma reaches_grow:
  assumes "reaches I d cs j"
    and "\<And>p es. is_dir I p es \<Longrightarrow> \<exists>es'. is_dir I' p (es @ es')"
  shows "reaches I' d cs j"
  using assms(1)
proof induction
  case (step d es c i cs j)
  obtain es' where "is_dir I' d (es @ es')" using assms(2) [OF step.hyps(1)] by blast
  moreover have "map_of (es @ es') c = Some i"
    using step.hyps(2) by (metis map_add_find_right map_of_append)
  ultimately show ?case using step.IH by (rule reaches.step)
qed (rule reaches.here)

lemma resolve_in_dir_form:
  assumes "mtl_resolve_inode_in_directory L t d c = Some (res, i)"
  shows "(res = MTL_SUCCESS \<and> i \<noteq> None) \<or> (res \<noteq> MTL_SUCCESS \<and> i = None)"
proof -
  obtain di dd where l: "snd (mtl_load_inode L t d) = Some (di, dd)"
    using assms by (auto simp: mtl_resolve_inode_in_directory_def bind_eq_Some_conv)
  show ?thesis
  proof (cases "i_type di \<noteq> MTL_DIRECTORY")
    case True
    then show ?thesis using assms l by (auto simp: mtl_resolve_inode_in_directory_def)
  next
    case False
    then obtain r where "(case r of Inr j \<Rightarrow> Some (MTL_SUCCESS, Some j)
        | Inl (u :: unit) \<Rightarrow> Some (MTL_ERROR_NOENTRY, None)) = Some (res, i)"
      using assms l by (auto simp: mtl_resolve_inode_in_directory_def bind_eq_Some_conv
          simp del: MTL_SUCCESS_def MTL_ERROR_NOENTRY_def)
    then show ?thesis by (cases r) auto
  qed
qed

lemma walk_snoc:
  "walk L t d (cs @ [c]) = do {
     (res, i) \<leftarrow> walk L t d cs;
     if res \<noteq> MTL_SUCCESS then Some (res, None)
     else do {
       j \<leftarrow> i;
       mtl_resolve_inode_in_directory L t j c
     }
   }"
proof (induction cs arbitrary: d)
  case Nil
  show ?case
    using resolve_in_dir_form [of L t d c]
    by (cases "mtl_resolve_inode_in_directory L t d c") auto
next
  case (Cons a cs)
  then show ?case by (auto split: Option.bind_split)
qed

lemma resolve_inode_root: "mtl_resolve_inode L t [slash] = Some (MTL_SUCCESS, Some 0)"
  by (subst mtl_resolve_inode.simps)
    (simp add: dirname_def basename_def strip_slashes_def slash_prefix_def)

lemma resolve_inode_walk:
  assumes "list_all component_ok cs" "cs \<noteq> []"
  shows "mtl_resolve_inode L t (path_of cs) = walk L t 0 cs"
  using assms
proof (induction cs rule: rev_induct)
  case (snoc c cs)
  have "path_of cs \<noteq> [slash]" using path_of_not_slash [of cs] snoc.prems(1) by simp
  moreover have "c \<noteq> [slash]" using snoc.prems by (auto simp: component_ok_def)
  ultimately show ?case
    using snoc basename_path_of [OF snoc.prems(1)] dirname_path_of [OF snoc.prems(1)]
    by (subst mtl_resolve_inode.simps, cases "walk L t 0 cs") (auto simp: walk_snoc Let_def)
qed simp

lemma resolve_parent_walk:
  assumes "list_all component_ok (cs @ [c])"
  shows "mtl_resolve_parent_dir_inode L t (path_of (cs @ [c])) = walk L t 0 cs"
proof (cases "cs = []")
  case False
  have "path_of cs \<noteq> [slash]" using path_of_not_slash [of cs] assms by simp
  then show ?thesis
    using assms dirname_path_of [OF assms] resolve_inode_walk [of cs L t] False
    by (simp add: mtl_resolve_parent_dir_inode_def Let_def)
qed (use dirname_path_of [OF assms] in \<open>simp add: mtl_resolve_parent_dir_inode_def\<close>)

context lmdb
begin

lemma walk_reaches: "reaches (inodes_of L t) d cs j \<Longrightarrow> walk L t d cs = Some (MTL_SUCCESS, Some j)"
  by (induction rule: reaches.induct) (simp_all add: resolve_in_dir)

end

section \<open>Resolution\<close>

text \<open>
  C4: resolving an absolute path, which the code does from its end with \<open>dirname\<close> and \<open>basename\<close>,
  returns, and is the walk from the root directory through the components; if the components lead
  to an inode through directories, it succeeds with that inode.
\<close>

theorem resolve_inode_is_walk:
  assumes "lmdb L" "list_all component_ok cs" "cs \<noteq> []"
  shows "mtl_resolve_inode L t (path_of cs) = walk L t 0 cs \<and>
    (reaches (inodes_of L t) 0 cs j \<longrightarrow>
       mtl_resolve_inode L t (path_of cs) = Some (MTL_SUCCESS, Some j))"
  using resolve_inode_walk [OF assms(2,3), of L t] lmdb.walk_reaches [OF assms(1), of t 0 cs j] by simp

lemma relative_diverges:
  assumes "relative path"
  shows "mtl_resolve_inode L t path = None"
proof -
  have "\<not> relative path" if some: "mtl_resolve_inode L t path = Some y" for y
  proof (rule mtl_resolve_inode.raw_induct [where P = "\<lambda>L t path y. \<not> relative path", OF _ some])
    fix f :: "'t mdb_ops \<Rightarrow> 't \<Rightarrow> bytes \<Rightarrow> (int \<times> u64 option) option" and L t path y
    assume IH: "\<And>L t path y. f L t path = Some y \<Longrightarrow> \<not> relative path"
      and body: "(let dir = dirname path; base = basename path
        in (if dir = [slash] then Some (MTL_SUCCESS, Some 0) else f L t dir) \<bind>
           (\<lambda>(res, dir_inode_id). if res \<noteq> MTL_SUCCESS then Some (res, None)
              else if base = [slash] then Some (MTL_SUCCESS, Some 0)
              else dir_inode_id \<bind> (\<lambda>d. mtl_resolve_inode_in_directory L t d base))) = Some y"
    show "\<not> relative path"
    proof
      assume "relative path"
      then have d: "relative (dirname path)" "dirname path \<noteq> [slash]" using relative_dirname by auto
      then have "f L t (dirname path) = None" using IH by (metis not_Some_eq)
      then show False using body d(2) by (simp add: Let_def)
    qed
  qed
  with assms show ?thesis by (cases "mtl_resolve_inode L t path") auto
qed

text \<open>
  C23: on the empty path and on every other path that does not begin with a slash the resolution
  never returns: the parent of such a path is again such a path, and in the end always a dot.
\<close>

theorem resolve_inode_relative_diverges:
  assumes "relative path"
  shows "mtl_resolve_inode L t path = None"
  using assms by (rule relative_diverges)

theorem resolve_inode_relative_diverges_witness:
  "mtl_resolve_inode ref_ops [] [] = None \<and> mtl_resolve_inode ref_ops [] (cstr ''a'') = None"
  using resolve_inode_relative_diverges [of "[]" ref_ops "[]"]
    resolve_inode_relative_diverges [of "cstr ''a''" ref_ops "[]"]
  by (simp add: relative_def cstr_def slash_def)

section \<open>Creating names\<close>

text \<open>A directory gains an entry, a new inode appears, everything else stays.\<close>

lemma grow_one:
  assumes "is_dir I d es" "is_dir I' d (es @ [(c, n)])" "I n = None"
    and "\<And>i. i \<noteq> d \<Longrightarrow> i \<noteq> n \<Longrightarrow> I' i = I i" "is_dir I p ps"
  shows "\<exists>ps'. is_dir I' p (ps @ ps')"
proof (cases "p = d")
  case True
  then show ?thesis using is_dir_unique [OF assms(1)] assms(2,5) by blast
next
  case False
  moreover have "p \<noteq> n" using assms(3,5) by (auto simp: is_dir_def)
  ultimately have "is_dir I' p (ps @ [])" using assms(4,5) by (simp add: is_dir_def)
  then show ?thesis by blast
qed

lemma commit_simps [simp]:
  "env_store (env (mdb_txn_commit ctx t)) = t" "\<not> env_writer (env (mdb_txn_commit ctx t))"
  "metadata (mdb_txn_commit ctx t) = metadata ctx" "storage (mdb_txn_commit ctx t) = storage ctx"
  by (simp_all add: mdb_txn_commit_def)

lemma open_reaches:
  assumes "lmdb L" "list_all component_ok cs" "cs \<noteq> []"
    and "reaches (inodes_of L (env_store (env ctx))) 0 cs j"
  shows "mtl_open L ctx (path_of cs) = Some (MTL_SUCCESS, Some j)"
  using assms resolve_inode_walk [OF assms(2,3), of L] lmdb.walk_reaches [OF assms(1,4)]
  by (simp add: mtl_open_def mdb_txn_begin_rdonly_def)

text \<open>
  C6: creating a file in an existing directory under a name that is free there succeeds with a new
  inode number, opening the path then yields that number and \<open>mtl_get_inode\<close> the new, empty file,
  every path that led somewhere still leads there, and the write transaction is closed; if the name
  is taken, \<open>MTL_ERROR_EXISTS\<close> is returned and nothing has changed.
\<close>

theorem create_then_open:
  assumes "lmdb L" "\<not> env_writer (env ctx)" "list_all component_ok (cs @ [c])"
  defines "t \<equiv> env_store (env ctx)"
  defines "I \<equiv> inodes_of L t"
  assumes "reaches I 0 cs d" "is_dir I d es" "dir_fits es c" "I (next_id L t) = None"
  shows "if c \<in> fst ` set es
    then mtl_create L now ctx (path_of (cs @ [c])) mode = Some (MTL_ERROR_EXISTS, None, ctx)
    else \<exists>ctx'. mtl_create L now ctx (path_of (cs @ [c])) mode =
        Some (MTL_SUCCESS, Some (next_id L t), ctx') \<and>
      mtl_open L ctx' (path_of (cs @ [c])) = Some (MTL_SUCCESS, Some (next_id L t)) \<and>
      mtl_get_inode L ctx' (path_of (cs @ [c])) =
        Some (MTL_SUCCESS, Some (new_inode MTL_FILE (or mode S_IFREG) now)) \<and>
      (\<forall>cs' j. reaches I 0 cs' j \<longrightarrow> reaches (inodes_of L (env_store (env ctx'))) 0 cs' j) \<and>
      next_id L (env_store (env ctx')) = next_id L t + 1 \<and> \<not> env_writer (env ctx')"
proof -
  let ?n = "next_id L t" and ?p = "path_of (cs @ [c])"
  have par: "mtl_resolve_parent_dir_inode L t ?p = Some (MTL_SUCCESS, Some d)"
    using resolve_parent_walk [OF assms(3), of L t] lmdb.walk_reaches [OF assms(1)] assms(6)
    by (simp add: I_def)
  have beg: "mdb_txn_begin_write (env ctx) = Some t" using assms(2) by (simp add: mdb_txn_begin_write_def t_def)
  note base = basename_path_of [OF assms(3)]
  note cf = lmdb.create_file [OF assms(1) assms(7) [unfolded I_def] assms(8) assms(9) [unfolded I_def],
      of now mode]
  show ?thesis
  proof (cases "c \<in> fst ` set es")
    case True
    obtain t' where "mtl_create_file_in_directory L now t d c mode = Some (MTL_ERROR_EXISTS, ?n, t')"
      using cf(1) [OF True] by blast
    then have "mtl_create L now ctx ?p mode = Some (MTL_ERROR_EXISTS, None, ctx)"
      using beg par base by (simp add: mtl_create_def del: path_of_simps)
    then show ?thesis using True by simp
  next
    case False
    obtain i t' where t': "mtl_create_file_in_directory L now t d c mode = Some (MTL_SUCCESS, ?n, t')"
        "is_dir (inodes_of L t') d (es @ [(c, ?n)])"
        "inodes_of L t' = I(d \<mapsto> (i, enc_dir (es @ [(c, ?n)])),
          ?n \<mapsto> (new_inode MTL_FILE (or mode S_IFREG) now, []))" "next_id L t' = ?n + 1"
      using cf(2) [OF False] unfolding I_def by blast
    let ?ctx = "mdb_txn_commit ctx t'"
    have grow: "reaches (inodes_of L t') 0 cs' j" if "reaches I 0 cs' j" for cs' j
      using that t'(3)
      by (rule_tac reaches_grow [OF that])
        (rule grow_one [OF assms(7) t'(2) assms(9)], simp_all)
    have "reaches (inodes_of L t') 0 (cs @ [c]) ?n"
      unfolding reaches_snoc using grow [OF assms(6)] t'(2) map_of_snoc [OF False, of ?n] by blast
    then have r: "mtl_resolve_inode L t' ?p = Some (MTL_SUCCESS, Some ?n)"
      using resolve_inode_walk [OF assms(3), of L t'] lmdb.walk_reaches [OF assms(1)] by fastforce
    have "mtl_create L now ctx ?p mode = Some (MTL_SUCCESS, Some ?n, ?ctx)"
      using beg par base t'(1) by (simp add: mtl_create_def del: path_of_simps)
    moreover have "mtl_open L ?ctx ?p = Some (MTL_SUCCESS, Some ?n)"
      using r by (simp add: mtl_open_def mdb_txn_begin_rdonly_def del: path_of_simps)
    moreover have "mtl_get_inode L ?ctx ?p =
        Some (MTL_SUCCESS, Some (new_inode MTL_FILE (or mode S_IFREG) now))"
      using r t'(3)
      by (simp add: mtl_get_inode_def mdb_txn_begin_rdonly_def lmdb.load_inode_eq [OF assms(1)]
          del: path_of_simps)
    ultimately show ?thesis using False grow t'(4) by auto
  qed
qed

text \<open>
  C12: making a directory under a free name succeeds, the path then leads to a directory whose only
  entries are itself and its parent, and every path that led somewhere still leads there; if the
  name is taken, \<open>MTL_ERROR_EXISTS\<close> is returned and nothing has changed.
\<close>

theorem mkdir_then_reach:
  assumes "lmdb L" "\<not> env_writer (env ctx)" "list_all component_ok (cs @ [c])"
  defines "t \<equiv> env_store (env ctx)"
  defines "I \<equiv> inodes_of L t"
  assumes "reaches I 0 cs d" "is_dir I d es" "dir_fits es c" "I (next_id L t) = None"
  shows "if c \<in> fst ` set es
    then mtl_mkdir L now ctx (path_of (cs @ [c])) mode = Some (MTL_ERROR_EXISTS, ctx)
    else \<exists>ctx' I'. mtl_mkdir L now ctx (path_of (cs @ [c])) mode = Some (MTL_SUCCESS, ctx') \<and>
      I' = inodes_of L (env_store (env ctx')) \<and> reaches I' 0 (cs @ [c]) (next_id L t) \<and>
      is_dir I' (next_id L t) [(cstr ''.'', next_id L t), (cstr ''..'', d)] \<and>
      (\<forall>cs' j. reaches I 0 cs' j \<longrightarrow> reaches I' 0 cs' j) \<and> \<not> env_writer (env ctx')"
proof -
  let ?n = "next_id L t" and ?p = "path_of (cs @ [c])"
  have par: "mtl_resolve_parent_dir_inode L t ?p = Some (MTL_SUCCESS, Some d)"
    using resolve_parent_walk [OF assms(3), of L t] lmdb.walk_reaches [OF assms(1)] assms(6)
    by (simp add: I_def)
  have beg: "mdb_txn_begin_write (env ctx) = Some t" using assms(2) by (simp add: mdb_txn_begin_write_def t_def)
  note base = basename_path_of [OF assms(3)]
  note cd = lmdb.create_directory [OF assms(1) assms(7) [unfolded I_def] assms(8)
      assms(9) [unfolded I_def], of now mode]
  show ?thesis
  proof (cases "c \<in> fst ` set es")
    case True
    obtain t' where "mtl_create_directory_in_directory L now t d c mode = Some (MTL_ERROR_EXISTS, ?n, t')"
      using cd(1) [OF True] by blast
    then have "mtl_mkdir L now ctx ?p mode = Some (MTL_ERROR_EXISTS, ctx)"
      using beg par base by (simp add: mtl_mkdir_def del: path_of_simps)
    then show ?thesis using True by simp
  next
    case False
    obtain p q t' where t':
        "mtl_create_directory_in_directory L now t d c mode = Some (MTL_SUCCESS, ?n, t')"
        "is_dir (inodes_of L t') d (es @ [(c, ?n)])"
        "is_dir (inodes_of L t') ?n [(cstr ''.'', ?n), (cstr ''..'', d)]"
        "inodes_of L t' = I(d \<mapsto> p, ?n \<mapsto> q)"
      using cd(2) [OF False] unfolding I_def by blast
    have grow: "reaches (inodes_of L t') 0 cs' j" if "reaches I 0 cs' j" for cs' j
      using t'(4)
      by (rule_tac reaches_grow [OF that])
        (rule grow_one [OF assms(7) t'(2) assms(9)], simp_all)
    have "reaches (inodes_of L t') 0 (cs @ [c]) ?n"
      unfolding reaches_snoc using grow [OF assms(6)] t'(2) map_of_snoc [OF False, of ?n] by blast
    moreover have "mtl_mkdir L now ctx ?p mode = Some (MTL_SUCCESS, mdb_txn_commit ctx t')"
      using beg par base t'(1) by (simp add: mtl_mkdir_def del: path_of_simps)
    ultimately show ?thesis using False grow t'(3) by auto
  qed
qed

section \<open>Renaming and removing\<close>

text \<open>
  C10: renaming moves an entry: the name disappears from the old directory and the new name, at the
  end of the new directory, leads to the same inode; the two directories may be the same.  If the
  new name is taken, \<open>MTL_ERROR_EXISTS\<close> is returned, the target is not replaced and nothing has
  changed; if the old name does not exist, neither.
\<close>

theorem rename_moves_entry:
  assumes "lmdb L" "\<not> env_writer (env ctx)"
    and "list_all component_ok (as @ [a])" "list_all component_ok (bs @ [b])"
  defines "t \<equiv> env_store (env ctx)"
  defines "I \<equiv> inodes_of L t"
  assumes "reaches I 0 as p" "is_dir I p ps" "map_of ps a = Some i"
    and "reaches I 0 bs q" "is_dir I q qs" "dir_fits qs b"
  defines "ps' \<equiv> filter (\<lambda>e. fst e \<noteq> a) ps"
  defines "qs' \<equiv> if q = p then ps' else qs"
  shows "if b \<in> fst ` set qs'
    then mtl_rename L ctx (path_of (as @ [a])) (path_of (bs @ [b])) = Some (MTL_ERROR_EXISTS, ctx)
    else \<exists>ctx' I'. mtl_rename L ctx (path_of (as @ [a])) (path_of (bs @ [b])) =
        Some (MTL_SUCCESS, ctx') \<and> I' = inodes_of L (env_store (env ctx')) \<and>
      is_dir I' q (qs' @ [(b, i)]) \<and> (p \<noteq> q \<longrightarrow> is_dir I' p ps') \<and>
      (\<forall>j. j \<noteq> p \<longrightarrow> j \<noteq> q \<longrightarrow> I' j = I j) \<and> \<not> env_writer (env ctx')"
proof -
  have mem: "a \<in> fst ` set ps" using assms(9) by (metis map_of_eq_None_iff option.discI)
  have par: "mtl_resolve_parent_dir_inode L t (path_of (as @ [a])) = Some (MTL_SUCCESS, Some p)"
    "mtl_resolve_parent_dir_inode L t (path_of (bs @ [b])) = Some (MTL_SUCCESS, Some q)"
    using resolve_parent_walk [OF assms(3), of L t] resolve_parent_walk [OF assms(4), of L t]
      lmdb.walk_reaches [OF assms(1)] assms(7,10) by (simp_all add: I_def)
  have beg: "mdb_txn_begin_write (env ctx) = Some t" using assms(2) by (simp add: mdb_txn_begin_write_def t_def)
  note base = basename_path_of [OF assms(3)] basename_path_of [OF assms(4)]
  obtain t1 where t1: "mtl_remove_entry_from_directory L t p a = Some (MTL_SUCCESS, Some i, t1)"
      "is_dir (inodes_of L t1) p ps'" "\<forall>j. j \<noteq> p \<longrightarrow> inodes_of L t1 j = I j"
    using lmdb.remove_from_dir(1) [OF assms(1) assms(8) [unfolded I_def] mem] assms(9)
    unfolding ps'_def I_def by fastforce
  have q1: "is_dir (inodes_of L t1) q qs'"
    using t1(2,3) assms(11) unfolding qs'_def by (auto simp: is_dir_def)
  have "length (enc_dir ps') \<le> length (enc_dir ps)"
    using length_enc_dir_remove [of ps a] assms(8) mem by (simp add: ps'_def is_dir_def)
  then have f: "length b < 256" "length (enc_dir qs') + 16 + length b < 2 ^ 64"
    using assms(12) is_dir_unique [OF assms(11), of ps] assms(8)
    by (auto simp: qs'_def dir_fits_def split: if_splits)
  note app = lmdb.append_to_dir [OF assms(1) q1 f, of i]
  show ?thesis
  proof (cases "b \<in> fst ` set qs'")
    case True
    then show ?thesis
      using beg par base t1(1) app(1) by (simp add: mtl_rename_def del: path_of_simps)
  next
    case False
    obtain n t2 where t2: "mtl_append_inode_id_to_directory L t1 q b i = Some (MTL_SUCCESS, t2)"
        "inodes_of L t2 = (inodes_of L t1)(q \<mapsto> (n, enc_dir (qs' @ [(b, i)])))"
        "is_dir (inodes_of L t2) q (qs' @ [(b, i)])"
      using app(2) [OF False] by blast
    have "p \<noteq> q \<longrightarrow> is_dir (inodes_of L t2) p ps'" using t1(2) t2(2) by (simp add: is_dir_def)
    moreover have "\<forall>j. j \<noteq> p \<longrightarrow> j \<noteq> q \<longrightarrow> inodes_of L t2 j = I j" using t1(3) t2(2) by simp
    moreover have "mtl_rename L ctx (path_of (as @ [a])) (path_of (bs @ [b])) =
        Some (MTL_SUCCESS, mdb_txn_commit ctx t2)"
      using beg par base t1(1) t2(1) by (simp add: mtl_rename_def del: path_of_simps)
    ultimately show ?thesis using False t2(3) by auto
  qed
qed

text \<open>
  C13: removing a directory succeeds exactly if it has no entries but itself and its parent; then
  its name and its inode are gone and nothing else has changed.  Otherwise \<open>MTL_ERROR_NOTEMPTY\<close> is
  returned and nothing has changed at all.
\<close>

theorem rmdir_only_empty:
  assumes "lmdb L" "\<not> env_writer (env ctx)" "list_all component_ok (cs @ [c])"
  defines "t \<equiv> env_store (env ctx)"
  defines "I \<equiv> inodes_of L t"
  assumes "reaches I 0 cs d" "is_dir I d es" "map_of es c = Some i" "is_dir I i is" "i \<noteq> d"
  shows "if fst ` set is \<subseteq> {cstr ''.'', cstr ''..''}
    then \<exists>ctx' I'. mtl_rmdir L ctx (path_of (cs @ [c])) = Some (MTL_SUCCESS, ctx') \<and>
      I' = inodes_of L (env_store (env ctx')) \<and> is_dir I' d (filter (\<lambda>e. fst e \<noteq> c) es) \<and>
      I' i = None \<and> (\<forall>j. j \<noteq> d \<longrightarrow> j \<noteq> i \<longrightarrow> I' j = I j) \<and> \<not> env_writer (env ctx')
    else mtl_rmdir L ctx (path_of (cs @ [c])) = Some (MTL_ERROR_NOTEMPTY, ctx)"
proof -
  have mem: "c \<in> fst ` set es" using assms(8) by (metis map_of_eq_None_iff option.discI)
  have par: "mtl_resolve_parent_dir_inode L t (path_of (cs @ [c])) = Some (MTL_SUCCESS, Some d)"
    using resolve_parent_walk [OF assms(3), of L t] lmdb.walk_reaches [OF assms(1)] assms(6)
    by (simp add: I_def)
  have beg: "mdb_txn_begin_write (env ctx) = Some t" using assms(2) by (simp add: mdb_txn_begin_write_def t_def)
  note base = basename_path_of [OF assms(3)]
  obtain t1 where t1: "mtl_remove_entry_from_directory L t d c = Some (MTL_SUCCESS, Some i, t1)"
      "is_dir (inodes_of L t1) d (filter (\<lambda>e. fst e \<noteq> c) es)" "\<forall>j. j \<noteq> d \<longrightarrow> inodes_of L t1 j = I j"
    using lmdb.remove_from_dir(1) [OF assms(1) assms(7) [unfolded I_def] mem] assms(8)
    unfolding I_def by fastforce
  have i1: "is_dir (inodes_of L t1) i is" using t1(3) assms(9,10) by (simp add: is_dir_def)
  obtain r t2 where t2: "mtl_delete_inode L t1 i = (r, t2)" by (cases "mtl_delete_inode L t1 i")
  note v = lmdb.delete_inode [OF assms(1) t2] and rd = lmdb.remove_dir [OF assms(1) i1]
  show ?thesis
  proof (cases "fst ` set is \<subseteq> {cstr ''.'', cstr ''..''}")
    case False
    then show ?thesis using beg par base t1(1) rd by (auto simp: mtl_rmdir_def simp del: path_of_simps)
  next
    case True
    then have "mtl_rmdir L ctx (path_of (cs @ [c])) = Some (MTL_SUCCESS, mdb_txn_commit ctx t2)"
      using beg par base t1(1) rd t2 v(1) by (simp add: mtl_rmdir_def del: path_of_simps)
    moreover have "is_dir (inodes_of L t2) d (filter (\<lambda>e. fst e \<noteq> c) es)"
      using t1(2) v(2) assms(10) by (simp add: is_dir_def)
    ultimately show ?thesis using True v(2) t1(3) by auto
  qed
qed

context lmdb
begin

text \<open>Freeing an extent changes nothing but the allocator's databases, whatever their state.\<close>

lemma cursor_del_beside: "beside_extents L (mdb_cursor_del L t EXTENTS_DB_NAME k) = beside_extents L t"
  by (simp add: beside_extents_def fun_eq_iff get_cursor_del)

lemma free_merge_next_beside: "free_merge_next L t a s = (s', t') \<Longrightarrow> beside_extents L t' = beside_extents L t"
  by (auto simp: free_merge_next_def Let_def cursor_del_beside heap_delete_view(6)
      split: option.splits prod.splits if_splits)

lemma free_merge_previous_beside:
  "free_merge_previous L t a s = (a', s', pq, t') \<Longrightarrow> beside_extents L t' = beside_extents L t"
  by (auto simp: free_merge_previous_def Let_def cursor_del_beside split: option.splits if_splits)

lemma increase_key_beside:
  assumes "mtl_heap_increase_key L t m k = (r, t', m')"
  shows "beside_extents L t' = beside_extents L t"
proof -
  obtain rd td where d: "mtl_heap_delete L t m = (rd, td)" by (cases "mtl_heap_delete L t m")
  obtain ri ti ni where i: "mtl_heap_insert L td k 0 = (ri, ti, ni)" by (cases "mtl_heap_insert L td k 0")
  show ?thesis
    using assms d i heap_delete_view(6) [OF d] heap_insert_view(6) [OF i]
    by (auto simp: mtl_heap_increase_key_def split: if_splits)
qed

lemma free_finish_beside: "beside_extents L (free_finish L t a s pq) = beside_extents L t"
proof -
  have put: "beside_extents L (snd (mtl_put_extent L t a e)) = beside_extents L t" for t a e
    using put_extent(6) [of t a e] by (cases "mtl_put_extent L t a e") simp
  show ?thesis
    by (auto simp: free_finish_def Let_def put increase_key_beside heap_insert_view(6) split: prod.splits)
qed

lemma free_extent_beside:
  assumes "mtl_free_extent L t a = Some (r, t')"
  shows "beside_extents L t' = beside_extents L t"
proof -
  obtain e where e: "snd (mtl_load_extent L t a) = Some e"
    using assms by (cases "snd (mtl_load_extent L t a)") (auto simp: mtl_free_extent_def)
  obtain s1 t1 where m1: "free_merge_next L t a (ext_length e) = (s1, t1)" by (cases "free_merge_next L t a (ext_length e)")
  obtain a2 s2 pq t2 where m2: "free_merge_previous L t1 a s1 = (a2, s2, pq, t2)"
    by (cases "free_merge_previous L t1 a s1")
  show ?thesis
    using assms e m1 m2 free_merge_next_beside [OF m1] free_merge_previous_beside [OF m2]
    by (auto simp: mtl_free_extent_def free_finish_beside)
qed

lemma free_all_beside:
  "free_all L t0 inode_id i n t = Some t' \<Longrightarrow> beside_extents L t' = beside_extents L t"
  by (induction n arbitrary: i t) (auto simp: free_extent_beside split: bind_splits)

text \<open>As long as nothing has been written, \<open>extents[i]\<close> is the extent that was loaded.\<close>

lemma reread_extent_same:
  assumes "inodes_of L t f = Some (n, enc_extents fes)" "i < length fes"
  shows "reread_extent L t t f i = fes ! i"
proof -
  obtain v where v: "mdb_get L t INODES_DB_NAME (enc64 f) = Some v" "drop 40 v = enc_extents fes"
    using assms(1) by (auto simp: inodes_of_get)
  have "dec_extents (enc_extents fes) ! i = dec_file_extent (drop (16 * i) (enc_extents fes))"
    using assms(2) by (simp add: dec_extents_def)
  moreover have "drop (40 + 16 * i) v = drop (16 * i) (enc_extents fes)"
    by (metis v(2) add.commute drop_drop)
  ultimately show ?thesis using reread_same [OF v(1)] by (simp add: reread_extent_def)
qed

end

text \<open>
  C22: removing a file that does not exist, from a directory whose entries take at least the bytes
  that an entry for the name would take.  The result of removing the entry is not looked at and the
  variable \<open>inode_id\<close> is used unwritten.  If its value is the number of no inode,
  \<open>MTL_ERROR_NOENTRY\<close> is returned without ending the write transaction, and from then on every
  operation that changes the file system blocks for ever.  If it is the number of an inode, of
  whatever kind, then if the call returns at all (its data is taken for extents, which are freed, and
  there may be no such extents), it returns success, and exactly that inode has been deleted; it does
  return when the inode is a file that is empty or has one extent known to the allocator.
\<close>

theorem unlink_missing_file:
  fixes L :: "'t mdb_ops" and ctx :: "('t, 's) mtl_context"
  assumes "lmdb L" "\<not> env_writer (env ctx)" "list_all component_ok (cs @ [c])"
  defines "t \<equiv> env_store (env ctx)"
  defines "I \<equiv> inodes_of L t"
  assumes "reaches I 0 cs d" "is_dir I d es" "c \<notin> fst ` set es"
    and "16 + length c \<le> length (enc_dir es)"
  shows "(I (snd junk) = None \<longrightarrow>
      (\<exists>ctx'. mtl_unlink L junk ctx (path_of (cs @ [c])) = Some (MTL_ERROR_NOENTRY, ctx') \<and>
        (\<forall>now p mode. mtl_mkdir L now ctx' p mode = None) \<and> (\<forall>now p mode. mtl_create L now ctx' p mode = None) \<and>
        (\<forall>p. mtl_rmdir L ctx' p = None) \<and> (\<forall>p q. mtl_rename L ctx' p q = None) \<and>
        (\<forall>p u g. mtl_chown L ctx' p u g = None) \<and> (\<forall>junk p. mtl_unlink L junk ctx' p = None) \<and>
        (\<forall>B f buf off. mtl_write L B ctx' f buf off = None) \<and> (\<forall>f len. mtl_truncate L ctx' f len = None))) \<and>
    (\<forall>n data r ctx'. I (snd junk) = Some (n, data) \<longrightarrow>
      mtl_unlink L junk ctx (path_of (cs @ [c])) = Some (r, ctx') \<longrightarrow>
      r = MTL_SUCCESS \<and> inodes_of L (env_store (env ctx')) = I(snd junk := None)) \<and>
    (\<forall>n fes. I (snd junk) = Some (n, enc_extents fes) \<longrightarrow> length fes \<le> 1 \<longrightarrow>
      (\<forall>fe \<in> set fes. extents_of L t (fe_offset fe) \<noteq> None) \<longrightarrow>
      mtl_unlink L junk ctx (path_of (cs @ [c])) \<noteq> None)"
proof -
  let ?u = "mtl_unlink L junk ctx (path_of (cs @ [c]))"
  have par: "mtl_resolve_parent_dir_inode L t (path_of (cs @ [c])) = Some (MTL_SUCCESS, Some d)"
    using resolve_parent_walk [OF assms(3), of L t] lmdb.walk_reaches [OF assms(1)] assms(6)
    by (simp add: I_def)
  have beg: "mdb_txn_begin_write (env ctx) = Some t" using assms(2) by (simp add: mdb_txn_begin_write_def t_def)
  have rem: "mtl_remove_entry_from_directory L t d c = Some (MTL_ERROR_NOENTRY, None, t)"
    using lmdb.remove_from_dir(2) [OF assms(1) assms(7) [unfolded I_def] assms(8)] assms(9) by simp
  have u: "?u = (case mtl_load_file L t (snd junk) of
      (res, None) \<Rightarrow> Some (res, leak_txn ctx)
    | (_, Some (_, extents)) \<Rightarrow> do {
        t2 \<leftarrow> free_all L t (snd junk) 0 (length extents) t;
        Some (MTL_SUCCESS, mdb_txn_commit ctx (snd (mtl_delete_inode L t2 (snd junk))))
      })"
    using beg par rem basename_path_of [OF assms(3)]
    by (simp add: mtl_unlink_def case_prod_unfold Let_def del: path_of_simps split: option.split)
  note load = lmdb.load_file_eq [OF assms(1), of t "snd junk", folded I_def]
  have leak: "mdb_txn_begin_write (env (leak_txn ctx)) = None"
    by (simp add: mdb_txn_begin_write_def leak_txn_def)
  have none: "?u = Some (MTL_ERROR_NOENTRY, leak_txn ctx)" if "I (snd junk) = None"
    using that by (simp add: u load del: path_of_simps)
  have some: "r = MTL_SUCCESS \<and> inodes_of L (env_store (env ctx')) = I(snd junk := None)"
    if h: "I (snd junk) = Some (n, data)" "?u = Some (r, ctx')" for n data r ctx'
  proof -
    obtain t2 where t2: "free_all L t (snd junk) 0 (length (dec_extents data)) t = Some t2" "r = MTL_SUCCESS"
      "ctx' = mdb_txn_commit ctx (snd (mtl_delete_inode L t2 (snd junk)))"
      using h by (auto simp: u load simp del: path_of_simps split: bind_splits)
    have "inodes_of L t2 = I"
      unfolding I_def
      using lmdb.beside_extents_view(2) [OF assms(1) lmdb.free_all_beside [OF assms(1) t2(1)]] .
    then show ?thesis
      using t2(2,3) lmdb.delete_inode(2) [OF assms(1), of t2 "snd junk"]
      by (cases "mtl_delete_inode L t2 (snd junk)") (simp add: mdb_txn_commit_def)
  qed
  have ret: "?u \<noteq> None" if h: "I (snd junk) = Some (n, enc_extents fes)" "length fes \<le> 1"
    "\<forall>fe \<in> set fes. extents_of L t (fe_offset fe) \<noteq> None" for n fes
  proof (cases fes)
    case (Cons fe rest)
    have "reread_extent L t t (snd junk) 0 = fe"
      using lmdb.reread_extent_same [OF assms(1) h(1) [unfolded I_def], of 0] Cons by simp
    moreover have "mtl_free_extent L t (fe_offset fe) \<noteq> None"
      using h(3) Cons by (auto simp: mtl_free_extent_def extents_of_def Let_def case_prod_unfold)
    ultimately show ?thesis using h Cons by (auto simp: u load simp del: path_of_simps)
  qed (use h in \<open>simp add: u load del: path_of_simps\<close>)
  have block: "(\<forall>now p mode. mtl_mkdir L now (leak_txn ctx) p mode = None)"
    "(\<forall>now p mode. mtl_create L now (leak_txn ctx) p mode = None)"
    "(\<forall>p. mtl_rmdir L (leak_txn ctx) p = None)" "(\<forall>p q. mtl_rename L (leak_txn ctx) p q = None)"
    "(\<forall>p u g. mtl_chown L (leak_txn ctx) p u g = None)" "(\<forall>junk p. mtl_unlink L junk (leak_txn ctx) p = None)"
    "(\<forall>B f buf off. mtl_write L B (leak_txn ctx) f buf off = None)"
    "(\<forall>f len. mtl_truncate L (leak_txn ctx) f len = None)"
    using leak by (simp_all add: mtl_mkdir_def mtl_create_def mtl_rmdir_def mtl_rename_def mtl_chown_def
        mtl_unlink_def mtl_write_def mtl_truncate_def)
  show ?thesis using none block some ret by blast
qed

section \<open>Initialisation\<close>

context lmdb
begin

lemma create_root:
  assumes "inodes_of L t = Map.empty"
  shows "\<exists>q t'. mtl_create_root_directory L now t = Some (MTL_SUCCESS, t') \<and>
    inodes_of L t' = [0 \<mapsto> q] \<and> is_dir (inodes_of L t') 0 [(cstr ''.'', 0), (cstr ''..'', 0)] \<and>
    beside_inodes L t' = beside_inodes L t"
proof -
  have n: "mdb_get L t INODES_DB_NAME (enc64 0) = None"
    using assms inodes_of_get [of t 0] by simp
  let ?i = "new_inode MTL_DIRECTORY (or 0x1ED S_IFDIR) now"
  obtain r t1 where t1: "mtl_put_inode L t 0 ?i [] = (r, t1)" by (cases "mtl_put_inode L t 0 ?i []")
  note v1 = put_inode [OF t1]
  have e1: "is_dir (inodes_of L t1) 0 []" using v1(2) by (simp add: is_dir_def new_inode_def)
  have c: "length (cstr ''.'') = 1" "length (cstr ''..'') = 2" "cstr ''..'' \<noteq> cstr ''.''"
    by (simp_all add: cstr_def)
  obtain i2 t2 where t2: "mtl_append_inode_id_to_directory L t1 0 (cstr ''.'') 0 = Some (MTL_SUCCESS, t2)"
      "inodes_of L t2 = (inodes_of L t1)(0 \<mapsto> (i2, enc_dir ([] @ [(cstr ''.'', 0)])))"
      "is_dir (inodes_of L t2) 0 ([] @ [(cstr ''.'', 0)])" "beside_inodes L t2 = beside_inodes L t1"
    using append_to_dir(2) [OF e1, of "cstr ''.''" 0] c by auto
  obtain i3 t3 where t3: "mtl_append_inode_id_to_directory L t2 0 (cstr ''..'') 0 = Some (MTL_SUCCESS, t3)"
      "inodes_of L t3 = (inodes_of L t2)(0 \<mapsto> (i3, enc_dir (([] @ [(cstr ''.'', 0)]) @ [(cstr ''..'', 0)])))"
      "is_dir (inodes_of L t3) 0 (([] @ [(cstr ''.'', 0)]) @ [(cstr ''..'', 0)])"
      "beside_inodes L t3 = beside_inodes L t2"
    using append_to_dir(2) [OF t2(3), of "cstr ''..''" 0] c by auto
  have "mtl_create_root_directory L now t = Some (MTL_SUCCESS, t3)"
    using n t1 t2(1) t3(1) by (simp add: mtl_create_root_directory_def)
  moreover have "inodes_of L t3 = [0 \<mapsto> (i3, enc_dir (([] @ [(cstr ''.'', 0)]) @ [(cstr ''..'', 0)]))]"
    using t3(2) t2(2) v1(2) assms by simp
  ultimately show ?thesis using t3(3,4) t2(4) v1(3) by auto
qed

end

text \<open>
  C14: initialising the file system on an empty metadata store and a storage with at least one block
  yields a context in which the whole storage is one free extent, the root directory has only the
  entries for itself, the first new inode will get the number 1, and no write transaction is open.
\<close>

theorem initialize_empty_store:
  assumes "lmdb L" "\<forall>db k. mdb_get L (env_store E) db k = None" "\<not> env_writer E"
    and "sb_initialize B s = (MTL_SUCCESS, s1)" "sb_get_metadata B s1 = (r, md)" "num_blocks md \<noteq> 0"
  shows "\<exists>ctx t. mtl_initialize L B now (Some E) s = Some (MTL_SUCCESS, Some ctx) \<and>
    t = env_store (env ctx) \<and> \<not> env_writer (env ctx) \<and> metadata ctx = md \<and> storage ctx = s1 \<and>
    extents_inv L (unat (num_blocks md)) t \<and> no_adjacent_free (extents_of L t) \<and>
    free_blocks (extents_of L t) = {..<unat (num_blocks md)} \<and>
    is_dir (inodes_of L t) 0 [(cstr ''.'', 0), (cstr ''..'', 0)] \<and>
    dom (inodes_of L t) = {0} \<and> next_id L t = 1"
proof -
  let ?t = "env_store E"
  have beg: "mdb_txn_begin_write E = Some ?t" using assms(3) by (simp add: mdb_txn_begin_write_def)
  have e: "inodes_of L ?t = Map.empty" "next_id L ?t = 1" "extents_of L ?t = Map.empty"
      "heap_wf L ?t" "heap_nodes L ?t = {}" "extent_keys_wf L ?t"
    using assms(2) by (auto simp: lmdb.inodes_of_get [OF assms(1)] lmdb.extents_of_get [OF assms(1)]
        next_id_def heap_wf_def heap_nodes_def extent_keys_wf_def)
  obtain q t1 where t1: "mtl_create_root_directory L now ?t = Some (MTL_SUCCESS, t1)"
      "inodes_of L t1 = [0 \<mapsto> q]" "is_dir (inodes_of L t1) 0 [(cstr ''.'', 0), (cstr ''..'', 0)]"
      "beside_inodes L t1 = beside_inodes L ?t"
    using lmdb.create_root [OF assms(1) e(1)] by blast
  have g: "mdb_get L t1 db k = None" if "db \<noteq> INODES_DB_NAME" for db k
    using t1(4) assms(2) that by (auto simp: beside_inodes_def fun_eq_iff split: if_splits)
  have e1: "extents_of L t1 = Map.empty" "heap_wf L t1" "heap_nodes L t1 = {}" "extent_keys_wf L t1"
    using g by (auto simp: lmdb.extents_of_get [OF assms(1)] heap_wf_def heap_nodes_def extent_keys_wf_def)
  obtain r2 t2 where t2: "mtl_initialize_extents L t1 (num_blocks md) = (r2, t2)"
    by (cases "mtl_initialize_extents L t1 (num_blocks md)")
  note v = initialize_extents_fresh [OF assms(1) e1(2,3,4,1) assms(6) t2, of 0]
  have "beside_extents L t2 = beside_extents L t1"
    using lmdb.initialize_extents_beside [OF assms(1) t2] .
  note w = lmdb.beside_extents_view [OF assms(1) this]
  let ?ctx = "mdb_txn_commit \<lparr>env = E, metadata = md, storage = s1\<rparr> t2"
  have "mtl_initialize L B now (Some E) s = Some (MTL_SUCCESS, Some ?ctx)"
    using beg assms(4,5) t1(1) t2 by (simp add: mtl_initialize_def)
  moreover have "next_id L t2 = 1" using w(1) g by (simp add: next_id_def)
  moreover have "is_dir (inodes_of L t2) 0 [(cstr ''.'', 0), (cstr ''..'', 0)]"
    "dom (inodes_of L t2) = {0}" using t1(2,3) w(2) by simp_all
  moreover have "extents_inv L (unat (num_blocks md)) t2" "no_adjacent_free (extents_of L t2)"
    "free_blocks (extents_of L t2) = {..<unat (num_blocks md)}" using v by blast+
  ultimately show ?thesis by (intro exI [of _ ?ctx] exI [of _ t2]) simp
qed

section \<open>Examples\<close>

text \<open>The reference store with the root directory, and a context over it.\<close>

definition root_db :: ref_db where
  "root_db = (case mtl_create_root_directory ref_ops 0 [] of None \<Rightarrow> [] | Some (_, t) \<Rightarrow> t)"

definition ref_ctx :: "ref_db \<Rightarrow> (ref_db, unit) mtl_context" where
  "ref_ctx t = \<lparr>env = \<lparr>env_store = t, env_writer = False\<rparr>,
     metadata = \<lparr>num_blocks = 8, block_size = 4096\<rparr>, storage = ()\<rparr>"

abbreviation dots :: "dir_entry list" where
  "dots \<equiv> [(cstr ''.'', 0), (cstr ''..'', 0)]"

lemma ref_ctx_simps [simp]: "env_store (env (ref_ctx t)) = t" "\<not> env_writer (env (ref_ctx t))"
  by (simp_all add: ref_ctx_def)

lemma ref_empty_inodes: "inodes_of ref_ops [] = Map.empty"
  by (simp add: ref.inodes_of_get ref_empty fun_eq_iff)

lemma root_db_view:
  "is_dir (inodes_of ref_ops root_db) 0 dots" "dom (inodes_of ref_ops root_db) = {0}"
  "next_id ref_ops root_db = 1"
proof -
  obtain q t' where t': "mtl_create_root_directory ref_ops 0 [] = Some (MTL_SUCCESS, t')"
    "inodes_of ref_ops t' = [0 \<mapsto> q]" "is_dir (inodes_of ref_ops t') 0 dots"
    "beside_inodes ref_ops t' = beside_inodes ref_ops []"
    using ref.create_root [OF ref_empty_inodes, of 0] by blast
  have "next_id ref_ops [] = 1" by (simp add: next_id_def ref_empty)
  with t' ref.beside_inodes_view(1) [OF t'(4)]
  show "is_dir (inodes_of ref_ops root_db) 0 dots" "dom (inodes_of ref_ops root_db) = {0}"
    "next_id ref_ops root_db = 1" by (simp_all add: root_db_def)
qed

lemma root_db_fresh: "inodes_of ref_ops root_db 1 = None"
  using root_db_view(2) by (metis domIff singletonD zero_neq_one)

lemma dots_facts:
  "fst ` set dots = {cstr ''.'', cstr ''..''}" "length (enc_dir dots) = 35"
  "cstr ''a'' \<notin> {cstr ''.'', cstr ''..''}" "component_ok (cstr ''a'')" "length (cstr ''a'') = 1"
  "dir_fits dots (cstr ''a'')"
  by (simp_all add: cstr_def component_ok_def slash_def dir_fits_def)

theorem resolve_inode_is_walk_witness:
  "mtl_resolve_inode ref_ops root_db (path_of [cstr ''.'']) = Some (MTL_SUCCESS, Some 0)"
proof -
  have "reaches (inodes_of ref_ops root_db) 0 [cstr ''.''] 0"
    using root_db_view(1) by (rule reaches.step) (simp_all add: cstr_def)
  moreover have "component_ok (cstr ''.'')" by (simp add: component_ok_def cstr_def slash_def)
  ultimately show ?thesis
    using resolve_inode_is_walk [OF ref.lmdb_axioms, of "[cstr ''.'']" root_db 0] by (auto simp del: path_of_simps walk.simps)
qed

theorem create_then_open_witness:
  "\<exists>ctx'. mtl_create ref_ops 0 (ref_ctx root_db) (path_of [cstr ''a'']) 0 =
       Some (MTL_SUCCESS, Some 1, ctx') \<and>
     mtl_open ref_ops ctx' (path_of [cstr ''a'']) = Some (MTL_SUCCESS, Some 1)"
proof -
  note d = dots_facts
  have ne: "cstr ''a'' \<notin> fst ` set dots" using d(1,3) by (simp only:) simp
  show ?thesis
    using create_then_open [OF ref.lmdb_axioms, of "ref_ctx root_db" "[]" "cstr ''a''" 0 dots 0 0,
        unfolded if_not_P [OF ne]] root_db_view(1,3) root_db_fresh d(4,6)
    by (auto simp del: path_of_simps)
qed

theorem mkdir_then_reach_witness:
  "\<exists>ctx'. mtl_mkdir ref_ops 0 (ref_ctx root_db) (path_of [cstr ''a'']) 0 = Some (MTL_SUCCESS, ctx') \<and>
     reaches (inodes_of ref_ops (env_store (env ctx'))) 0 [cstr ''a''] 1"
proof -
  note d = dots_facts
  have ne: "cstr ''a'' \<notin> fst ` set dots" using d(1,3) by (simp only:) simp
  show ?thesis
    using mkdir_then_reach [OF ref.lmdb_axioms, of "ref_ctx root_db" "[]" "cstr ''a''" 0 dots 0 0,
        unfolded if_not_P [OF ne]] root_db_view(1,3) root_db_fresh d(4,6)
    by (auto simp del: path_of_simps)
qed

theorem unlink_missing_file_witness:
  "\<exists>ctx'. mtl_unlink ref_ops (0, 7) (ref_ctx root_db) (path_of [cstr ''a'']) =
       Some (MTL_ERROR_NOENTRY, ctx') \<and> mtl_mkdir ref_ops 0 ctx' (path_of [cstr ''a'']) 0 = None"
proof -
  have "7 \<notin> dom (inodes_of ref_ops root_db)" using root_db_view(2) by simp
  then have "inodes_of ref_ops root_db 7 = None" by blast
  note d = dots_facts
  have ne: "cstr ''a'' \<notin> fst ` set dots" using d(1,3) by (simp only:) simp
  show ?thesis
    using unlink_missing_file [OF ref.lmdb_axioms, of "ref_ctx root_db" "[]" "cstr ''a''" 0 dots "(0, 7)"]
      root_db_view(1) d(2,4,5) ne \<open>inodes_of ref_ops root_db 7 = None\<close>
    by (auto simp del: path_of_simps list.set image_insert)
qed

theorem rename_moves_entry_witness:
  "\<exists>ctx'. mtl_rename ref_ops (ref_ctx root_db) (path_of [cstr ''..'']) (path_of [cstr ''a'']) =
       Some (MTL_SUCCESS, ctx') \<and>
     is_dir (inodes_of ref_ops (env_store (env ctx'))) 0 [(cstr ''.'', 0), (cstr ''a'', 0)]"
proof -
  note d = dots_facts
  have f: "filter (\<lambda>e. fst e \<noteq> cstr ''..'') dots = [(cstr ''.'', 0)]" "component_ok (cstr ''..'')"
    "map_of dots (cstr ''..'') = Some 0" "cstr ''a'' \<notin> fst ` set [(cstr ''.'', 0 :: u64)]"
    by (simp_all add: cstr_def component_ok_def slash_def)
  note r = rename_moves_entry [OF ref.lmdb_axioms, of "ref_ctx root_db" "[]" "cstr ''..''" "[]" "cstr ''a''"
      0 dots 0 0 dots, unfolded f(1) if_P [OF refl] if_not_P [OF f(4)]]
  show ?thesis using r root_db_view(1) d(4,6) f(2,3) by (auto simp del: path_of_simps map_of.simps)
qed

theorem rmdir_only_empty_witness:
  "\<exists>t ctx'. mtl_rmdir ref_ops (ref_ctx t) (path_of [cstr ''a'']) = Some (MTL_SUCCESS, ctx') \<and>
     is_dir (inodes_of ref_ops (env_store (env ctx'))) 0 dots"
proof -
  note d = dots_facts
  have ne: "cstr ''a'' \<notin> fst ` set dots" using d(1,3) by (simp only:) simp
  obtain t where t: "is_dir (inodes_of ref_ops t) 0 (dots @ [(cstr ''a'', 1)])"
      "is_dir (inodes_of ref_ops t) 1 [(cstr ''.'', 1), (cstr ''..'', 0)]"
    using ref.create_directory(2) [OF root_db_view(1) d(6) _ ne, of 0 0] root_db_view(3) root_db_fresh
    by auto
  have f: "filter (\<lambda>e. fst e \<noteq> cstr ''a'') (dots @ [(cstr ''a'', 1)]) = dots"
    "map_of (dots @ [(cstr ''a'', 1)]) (cstr ''a'') = Some 1"
    by (simp_all add: cstr_def)
  have sub: "fst ` set [(cstr ''.'', 1 :: u64), (cstr ''..'', 0)] \<subseteq> {cstr ''.'', cstr ''..''}" by simp
  note r = rmdir_only_empty [OF ref.lmdb_axioms, of "ref_ctx t" "[]" "cstr ''a''" 0
      "dots @ [(cstr ''a'', 1)]" 1 "[(cstr ''.'', 1), (cstr ''..'', 0)]", unfolded f(1) if_P [OF sub]]
  have "\<exists>ctx'. mtl_rmdir ref_ops (ref_ctx t) (path_of ([] @ [cstr ''a''])) = Some (MTL_SUCCESS, ctx') \<and>
     is_dir (inodes_of ref_ops (env_store (env ctx'))) 0 dots"
    using r t d(4) f(2) by (auto simp del: path_of_simps map_of.simps)
  then show ?thesis by auto
qed

theorem initialize_empty_store_witness:
  "\<exists>ctx. mtl_initialize ref_ops \<lparr>sb_initialize = (\<lambda>s. (MTL_SUCCESS, s)),
       sb_deinitialize = (\<lambda>s. (MTL_SUCCESS, s)),
       sb_get_metadata = (\<lambda>s. (MTL_SUCCESS, \<lparr>num_blocks = 8, block_size = 4096\<rparr>)),
       sb_write = (\<lambda>ctx i off bs. None), sb_read = (\<lambda>ctx i off n. None)\<rparr> 0
       (Some \<lparr>env_store = [], env_writer = False\<rparr>) () = Some (MTL_SUCCESS, Some ctx) \<and>
     extents_inv ref_ops 8 (env_store (env ctx))"
  using initialize_empty_store [OF ref.lmdb_axioms, of "\<lparr>env_store = [], env_writer = False\<rparr>"
      "\<lparr>sb_initialize = (\<lambda>s. (MTL_SUCCESS, s)), sb_deinitialize = (\<lambda>s. (MTL_SUCCESS, s)),
       sb_get_metadata = (\<lambda>s. (MTL_SUCCESS, \<lparr>num_blocks = 8, block_size = 4096\<rparr>)),
       sb_write = (\<lambda>ctx i off bs. None), sb_read = (\<lambda>ctx i off n. None)\<rparr>" "()" "()"
      MTL_SUCCESS "\<lparr>num_blocks = 8, block_size = 4096\<rparr>" 0]
  by (auto simp: ref_empty)

end
