(* ===== verification/Growth.thy ===== *)
theory Growth
  imports Names
begin

text \<open>
  How files grow: the blocks a file owns, and \<open>mtl_expand_inode\<close>, which reserves extents until the
  file is long enough.
\<close>

section \<open>The blocks of a file\<close>

definition blocks_of :: "mtl_file_extent list \<Rightarrow> nat list" where
  "blocks_of fes =
     concat (map (\<lambda>fe. [unat (fe_offset fe) ..< unat (fe_offset fe) + unat (fe_length fe)]) fes)"

text \<open>Every extent of the file is an extent of the storage that is in use.\<close>

definition owns :: "(u64 \<rightharpoonup> mtl_extent) \<Rightarrow> mtl_file_extent list \<Rightarrow> bool" where
  "owns M fes \<longleftrightarrow> distinct (map fe_offset fes) \<and>
     (\<forall>fe \<in> set fes. \<exists>e. M (fe_offset fe) = Some e \<and> ext_length e = fe_length fe \<and>
        ext_status e \<noteq> MTL_FREE)"

lemma blocks_of_simps [simp]:
  "blocks_of [] = []"
  "blocks_of (fe # fes) = [unat (fe_offset fe) ..< unat (fe_offset fe) + unat (fe_length fe)] @ blocks_of fes"
  "blocks_of (fes @ fes') = blocks_of fes @ blocks_of fes'"
  by (simp_all add: blocks_of_def)

lemma length_blocks_of: "length (blocks_of fes) = sum_list (map (unat \<circ> fe_length) fes)"
  by (induction fes) simp_all

lemma set_blocks_of: "set (blocks_of fes) = (\<Union>fe \<in> set fes. span (fe_offset fe) (fe_length fe))"
  by (induction fes) (auto simp: span_iff)

lemma ownsD:
  assumes "owns M fes" "fe \<in> set fes"
  obtains e where "M (fe_offset fe) = Some e" "ext_length e = fe_length fe" "ext_status e \<noteq> MTL_FREE"
  using assms by (auto simp: owns_def)

lemma owns_Cons: "owns M (fe # fes) \<longleftrightarrow> fe_offset fe \<notin> fe_offset ` set fes \<and> owns M fes \<and>
    (\<exists>e. M (fe_offset fe) = Some e \<and> ext_length e = fe_length fe \<and> ext_status e \<noteq> MTL_FREE)"
  by (auto simp: owns_def)

lemma owns_snoc: "owns M (fes @ [fe]) \<longleftrightarrow> fe_offset fe \<notin> fe_offset ` set fes \<and> owns M fes \<and>
    (\<exists>e. M (fe_offset fe) = Some e \<and> ext_length e = fe_length fe \<and> ext_status e \<noteq> MTL_FREE)"
  by (auto simp: owns_def)

text \<open>An extent that is not of the file has no block in common with it.\<close>

lemma owns_apart:
  assumes inv: "alloc_inv n M H" and o: "owns M fes"
    and a: "M a = Some e" "a \<notin> fe_offset ` set fes"
  shows "span a (ext_length e) \<inter> set (blocks_of fes) = {}"
proof (rule ccontr)
  assume "span a (ext_length e) \<inter> set (blocks_of fes) \<noteq> {}"
  then obtain x fe where x: "x \<in> span a (ext_length e)" "fe \<in> set fes"
      "x \<in> span (fe_offset fe) (fe_length fe)"
    by (auto simp: set_blocks_of)
  obtain e' where e': "M (fe_offset fe) = Some e'" "ext_length e' = fe_length fe"
    using ownsD [OF o x(2)] by metis
  have "a = fe_offset fe"
    using alloc_inv_disjoint [of n M H a e "fe_offset fe" e' x, OF inv a(1) e'(1)] x e'(2)
    by (simp add: span_def)
  then show False using a(2) x(2) by blast
qed

lemma owns_blocks:
  assumes inv: "alloc_inv n M H" and o: "owns M fes"
  shows "distinct (blocks_of fes)" "set (blocks_of fes) \<subseteq> {..<n}"
    "set (blocks_of fes) \<inter> free_blocks M = {}"
proof -
  show "distinct (blocks_of fes)"
    using o
  proof (induction fes)
    case (Cons fe fes)
    then obtain e where "M (fe_offset fe) = Some e" "ext_length e = fe_length fe"
      by (auto simp: owns_Cons)
    then have "span (fe_offset fe) (fe_length fe) \<inter> set (blocks_of fes) = {}"
      using owns_apart [of n M H fes "fe_offset fe" e, OF inv] Cons.prems by (simp add: owns_Cons)
    moreover have "set [unat (fe_offset fe) ..< unat (fe_offset fe) + unat (fe_length fe)] =
        span (fe_offset fe) (fe_length fe)" by (auto simp: span_iff)
    ultimately show ?case using Cons by (simp add: owns_Cons)
  qed simp
  show "set (blocks_of fes) \<subseteq> {..<n}"
  proof
    fix x assume "x \<in> set (blocks_of fes)"
    then obtain fe where fe: "fe \<in> set fes" "x \<in> span (fe_offset fe) (fe_length fe)"
      by (auto simp: set_blocks_of)
    obtain e where e: "M (fe_offset fe) = Some e" "ext_length e = fe_length fe"
      using ownsD [OF o fe(1)] by metis
    show "x \<in> {..<n}"
      using alloc_inv_bound(2) [of n M H "fe_offset fe" e, OF inv e(1)] fe(2) e(2) by (simp add: span_iff)
  qed
  show "set (blocks_of fes) \<inter> free_blocks M = {}"
  proof (rule ccontr)
    assume "set (blocks_of fes) \<inter> free_blocks M \<noteq> {}"
    then obtain x a e where x: "x \<in> set (blocks_of fes)" "M a = Some e" "ext_status e = MTL_FREE"
        "x \<in> span a (ext_length e)"
      by (auto simp: free_blocks_def span_def)
    have "a \<notin> fe_offset ` set fes" using o x(2,3) by (auto simp: owns_def)
    then show False using owns_apart [of n M H fes a e, OF inv o x(2)] x(1,4) by blast
  qed
qed

lemma owns_length:
  assumes inv: "alloc_inv n M H" and o: "owns M fes"
  shows "length (blocks_of fes) \<le> n" "unat (sum_list (map fe_length fes)) = length (blocks_of fes)"
proof -
  show le: "length (blocks_of fes) \<le> n"
    using owns_blocks(1,2) [OF inv o] by (metis card_lessThan card_mono distinct_card finite_lessThan)
  have "n < 2 ^ 64" using inv by (simp add: alloc_inv_def)
  with le have "length (blocks_of fes) < 2 ^ 64" by simp
  then show "unat (sum_list (map fe_length fes)) = length (blocks_of fes)"
    by (induction fes) (simp_all add: unat_add_exact)
qed

text \<open>The file keeps its extents and gets a new one, or its last one grows.\<close>

lemma owns_take_front:
  assumes inv: "alloc_inv n M H" and a: "M a = Some e" "ext_status e = MTL_FREE"
    and k: "0 < unat k" "k \<le> ext_length e" and o: "owns M fes"
  shows "owns (take_front M a e k True) (fes @ [\<lparr>fe_offset = a, fe_length = k\<rparr>])"
proof -
  have na: "a \<notin> fe_offset ` set fes" using o a by (auto simp: owns_def)
  have ins: "M (a + k) = None" if "k < ext_length e"
    using alloc_inv_inside(2) [of n M H a e k, OF inv a(1) k(1)] that by (simp add: word_less_nat_alt)
  have "take_front M a e k True (fe_offset fe) = M (fe_offset fe)" if fe: "fe \<in> set fes" for fe
  proof -
    have "fe_offset fe \<noteq> a" using na fe by blast
    moreover have "fe_offset fe \<noteq> a + k" if "k < ext_length e"
      using ins [OF that] ownsD [OF o fe] by (metis option.discI)
    ultimately show ?thesis by (simp add: take_front_def Let_def)
  qed
  then have "owns (take_front M a e k True) fes" using o by (simp add: owns_def)
  then show ?thesis using na by (simp add: owns_snoc take_front_def Let_def)
qed

lemma owns_grow:
  assumes inv: "alloc_inv n M H" and a: "M (fe_offset le) = Some e" "ext_length e = fe_length le"
    and b: "M (fe_offset le + ext_length e) = Some nx" "ext_status nx = MTL_FREE"
    and k: "0 < unat k" "unat k < unat (ext_length nx)" and o: "owns M (fes @ [le])"
  shows "owns (grow_into_next M (fe_offset le) e nx k True)
    (fes @ [le\<lparr>fe_length := fe_length le + k\<rparr>])"
proof -
  let ?a = "fe_offset le" and ?M' = "grow_into_next M (fe_offset le) e nx k True"
  have na: "?a \<notin> fe_offset ` set fes" "owns M fes" using o by (auto simp: owns_snoc)
  have c: "M (?a + (ext_length e + k)) = None"
    using alloc_inv_inside(2) [of n M H "?a + ext_length e" nx k, OF inv b(1) k] by (simp add: add.assoc)
  have "?M' (fe_offset fe) = M (fe_offset fe)" if fe: "fe \<in> set fes" for fe
  proof -
    obtain e' where e': "M (fe_offset fe) = Some e'" "ext_status e' \<noteq> MTL_FREE"
      using ownsD [OF na(2) fe] by metis
    have "fe_offset fe \<noteq> ?a" using na(1) fe by (metis image_eqI)
    moreover have "fe_offset fe \<noteq> ?a + ext_length e" "fe_offset fe \<noteq> ?a + (ext_length e + k)"
      using e' b c by auto
    ultimately show ?thesis by (simp add: grow_into_next_def)
  qed
  then have "owns ?M' fes" using na(2) by (simp add: owns_def)
  then show ?thesis using na(1) a(2) by (simp add: owns_snoc grow_into_next_def)
qed

section \<open>Growing\<close>

text \<open>
  A file with its extents, its length, and the storage as the allocator should leave it; and the
  condition that the extent behind the last one of the file is not free, or longer than needed.
\<close>

definition file_ok :: "'t mdb_ops \<Rightarrow> nat \<Rightarrow> 't \<Rightarrow> u64 \<Rightarrow> mtl_file_extent list \<Rightarrow> u64 \<Rightarrow> bool" where
  "file_ok L n t f fes len \<longleftrightarrow> extents_inv L n t \<and> no_adjacent_free (extents_of L t) \<and>
     is_file (inodes_of L t) f fes len \<and> owns (extents_of L t) fes"

definition behind_ok :: "(u64 \<rightharpoonup> mtl_extent) \<Rightarrow> mtl_file_extent list \<Rightarrow> u64 \<Rightarrow> bool" where
  "behind_ok M fes need \<longleftrightarrow> (fes \<noteq> [] \<longrightarrow>
     (\<forall>nx. M (fe_offset (last fes) + fe_length (last fes)) = Some nx \<longrightarrow>
        ext_status nx = MTL_FREE \<longrightarrow> need < ext_length nx))"

definition last_of :: "mtl_file_extent list \<Rightarrow> mtl_file_extent" where
  "last_of fes = (if fes = [] then \<lparr>fe_offset = 0, fe_length = 0\<rparr> else last fes)"

lemma blocks_for_enough:
  assumes "bs \<noteq> 0"
  shows "unat sz \<le> unat (blocks_for sz bs) * unat bs"
proof (cases "sz mod bs = 0")
  case True
  then have "unat sz mod unat bs = 0" by (metis unat_mod unsigned_0)
  then have "unat sz div unat bs * unat bs = unat sz" by (metis div_mult_mod_eq add.right_neutral)
  then show ?thesis using True by (simp add: blocks_for_def unat_div)
next
  case False
  have "unat sz mod unat bs < unat bs" using assms by (simp add: unat_gt_0)
  then have lt: "unat sz < (unat sz div unat bs + 1) * unat bs"
    by (simp add: dividend_less_div_times unat_gt_0 assms add.commute)
  have "unat bs \<noteq> 1"
  proof
    assume "unat bs = 1"
    then have "unat (sz mod bs) = 0" by (simp add: unat_mod)
    then show False using False by (simp add: unat_eq_zero)
  qed
  moreover have "unat bs \<noteq> 0" using assms by (simp add: unat_eq_zero)
  ultimately have "unat sz div unat bs \<le> unat sz div 2" by (intro div_le_mono2) auto
  moreover have "unat sz div 2 < 2 ^ 63" using unat_u64_bound [of sz] by (simp del: unat_u64_bound)
  ultimately have "unat sz div unat bs + 1 < 2 ^ 64" by simp
  then have "unat (blocks_for sz bs) = unat sz div unat bs + 1"
    using False by (simp add: blocks_for_def unat_div unat_word_ariths)
  then show ?thesis using lt by simp
qed

lemma free_blocks_bound: "alloc_inv n M H \<Longrightarrow> free_blocks M \<subseteq> {..<n}"
  using alloc_inv_bound(2) [of n M H] by (fastforce simp: free_blocks_def covers_def)

lemma finite_free_blocks: "alloc_inv n M H \<Longrightarrow> finite (free_blocks M)"
  using free_blocks_bound [of n M H] by (metis finite_lessThan finite_subset)

lemma span_free:
  assumes "M a = Some e" "ext_status e = MTL_FREE" "unat k \<le> unat (ext_length e)"
  shows "span a k \<subseteq> free_blocks M"
proof
  fix x assume "x \<in> span a k"
  then have "covers (unat a, unat (ext_length e)) x" using assms(3) by (simp add: span_iff covers_def)
  then show "x \<in> free_blocks M" using assms(1,2) by (auto simp: free_blocks_def)
qed

lemma span_list: "span a k = set [unat a ..< unat a + unat k]" "card (span a k) = unat k"
proof -
  show s: "span a k = set [unat a ..< unat a + unat k]" by (auto simp: span_iff)
  show "card (span a k) = unat k" unfolding s by simp
qed

context lmdb
begin

lemma add_extent:
  assumes "is_file (inodes_of L t) f fes len"
  obtains t' q where "mtl_add_extent_to_file L t f fe new = Some (MTL_SUCCESS, t')"
    "is_file (inodes_of L t') f (fes @ [fe]) new" "inodes_of L t' = (inodes_of L t)(f \<mapsto> q)"
    "beside_inodes L t' = beside_inodes L t"
proof -
  obtain i where i: "inodes_of L t f = Some (i, enc_extents fes)"
    using assms by (auto simp: is_file_def)
  let ?i = "i\<lparr>i_length := new\<rparr>"
  obtain r t' where p: "mtl_put_inode L t f ?i (enc_extents (fes @ [fe])) = (r, t')"
    by (cases "mtl_put_inode L t f ?i (enc_extents (fes @ [fe]))")
  note v = put_inode [OF p]
  show ?thesis
    using that [of t' "(?i, enc_extents (fes @ [fe]))"] i p v
    by (simp add: mtl_add_extent_to_file_def load_file_eq is_file_def)
qed

lemma extend_last_extent:
  assumes "is_file (inodes_of L t) f (fes @ [le]) len"
  obtains t' q where "mtl_extend_last_extent_in_file L t f fe new = Some (MTL_SUCCESS, t')"
    "is_file (inodes_of L t') f (fes @ [fe]) new" "inodes_of L t' = (inodes_of L t)(f \<mapsto> q)"
    "beside_inodes L t' = beside_inodes L t"
proof -
  obtain i where i: "inodes_of L t f = Some (i, enc_extents (fes @ [le]))"
    using assms by (auto simp: is_file_def)
  let ?i = "i\<lparr>i_length := new\<rparr>"
  obtain r t' where p: "mtl_put_inode L t f ?i (enc_extents (fes @ [fe])) = (r, t')"
    by (cases "mtl_put_inode L t f ?i (enc_extents (fes @ [fe]))")
  note v = put_inode [OF p]
  show ?thesis
    using that [of t' "(?i, enc_extents (fes @ [fe]))"] i p v
    by (simp add: mtl_extend_last_extent_in_file_def load_file_eq is_file_def)
qed

end

text \<open>How the file and the storage change while the file grows by the blocks \<open>new\<close>.\<close>

definition grown :: "'t mdb_ops \<Rightarrow> nat \<Rightarrow> 't \<Rightarrow> u64 \<Rightarrow> mtl_file_extent list \<Rightarrow> 't \<Rightarrow>
    mtl_file_extent list \<Rightarrow> u64 \<Rightarrow> nat list \<Rightarrow> bool" where
  "grown L n t f fes t' fes' len' new \<longleftrightarrow> file_ok L n t' f fes' len' \<and>
     blocks_of fes' = blocks_of fes @ new \<and> distinct new \<and> set new \<subseteq> free_blocks (extents_of L t) \<and>
     free_blocks (extents_of L t') = free_blocks (extents_of L t) - set new \<and>
     (\<forall>i. i \<noteq> f \<longrightarrow> inodes_of L t' i = inodes_of L t i) \<and> next_id L t' = next_id L t \<and>
     length fes' \<le> length fes + length new"

lemma grown_trans:
  assumes "grown L n t f fes t1 fes1 len1 new1" "grown L n t1 f fes1 t2 fes2 len2 new2"
  shows "grown L n t f fes t2 fes2 len2 (new1 @ new2)"
  using assms unfolding grown_def by auto

context lmdb
begin

lemma round_extend:
  assumes ok: "file_ok L n t f (fes @ [le]) len"
    and nx: "extents_of L t (fe_offset le + fe_length le) = Some nx" "ext_status nx = MTL_FREE"
    and sz: "sz \<noteq> 0" "sz < ext_length nx"
  defines "le' \<equiv> le\<lparr>fe_length := fe_length le + sz\<rparr>"
  obtains t1 t2 where
    "mtl_reserve_extent L t sz (Some le) True = Some (sz, Some (fe_offset le), t1)"
    "mtl_extend_last_extent_in_file L t1 f le' new = Some (MTL_SUCCESS, t2)"
    "\<exists>bs. grown L n t f (fes @ [le]) t2 (fes @ [le']) new bs \<and> length bs = unat sz"
proof -
  let ?M = "extents_of L t" and ?a = "fe_offset le"
  have inv: "extents_inv L n t" and na: "no_adjacent_free ?M" and o: "owns ?M (fes @ [le])"
    and fl: "is_file (inodes_of L t) f (fes @ [le]) len" using ok by (auto simp: file_ok_def)
  note al = extents_invD(3) [OF inv]
  obtain e where e: "?M ?a = Some e" "ext_length e = fe_length le" "ext_status e \<noteq> MTL_FREE"
    using ownsD [OF o, of le] by auto
  obtain t1 where t1: "mtl_reserve_extent L t sz (Some le) True = Some (sz, Some ?a, t1)"
    "extents_of L t1 = grow_into_next ?M ?a e nx sz True"
    "extents_inv L n t1" "beside_extents L t1 = beside_extents L t"
    using reserve_extend [OF inv e nx sz, of True] by metis
  note w1 = beside_extents_view [OF t1(4)]
  obtain t2 q where t2: "mtl_extend_last_extent_in_file L t1 f le' new = Some (MTL_SUCCESS, t2)"
    "is_file (inodes_of L t2) f (fes @ [le']) new" "inodes_of L t2 = (inodes_of L t1)(f \<mapsto> q)"
    "beside_inodes L t2 = beside_inodes L t1"
    using extend_last_extent [of t1 f fes le len le' new] fl w1(2) by auto
  note w2 = beside_inodes_view [OF t2(4)]
  have nx': "?M (?a + ext_length e) = Some nx" using nx(1) e(2) by simp
  have k: "0 < unat sz" "unat sz < unat (ext_length nx)"
    using sz by (simp_all add: unat_gt_0 word_less_nat_alt)
  have fb: "free_blocks (extents_of L t2) = free_blocks ?M - span (?a + ext_length e) sz"
    using grow_free_blocks [OF al e(1,3) nx' nx(2) k, of True] w2(2) t1(2) by simp
  have sub: "span (?a + ext_length e) sz \<subseteq> free_blocks ?M"
    using k(2) by (intro span_free [of ?M _ nx, OF nx' nx(2)]) simp
  have "unat (?a + ext_length e) = unat ?a + unat (ext_length e)"
    using alloc_inv_bound(4) [of n ?M _ ?a e, OF al e(1)] .
  moreover have "unat (fe_length le + sz) = unat (fe_length le) + unat sz"
    using alloc_inv_bound(3) [of n ?M _ "?a + ext_length e" nx, OF al nx'] k(2) e(2) calculation
    by (simp add: unat_add_exact)
  ultimately have bl: "blocks_of (fes @ [le']) =
      blocks_of (fes @ [le]) @ [unat (?a + ext_length e) ..< unat (?a + ext_length e) + unat sz]"
    using upt_add_eq_append [of "unat ?a" "unat ?a + unat (fe_length le)" "unat sz"] e(2)
    by (simp add: le'_def add.assoc)
  have "owns (extents_of L t2) (fes @ [le'])"
    using owns_grow [OF al e(1,2) nx' nx(2) k o] w2(2) t1(2) by (simp add: le'_def)
  moreover have "no_adjacent_free (extents_of L t2)"
    using grow_no_adjacent [OF al e(1,3) nx' nx(2) k na, of True] w2(2) t1(2) by simp
  ultimately have "file_ok L n t2 f (fes @ [le']) new"
    using t1(3) w2(3) t2(2) by (simp add: file_ok_def)
  then have "grown L n t f (fes @ [le]) t2 (fes @ [le']) new
      [unat (?a + ext_length e) ..< unat (?a + ext_length e) + unat sz]"
    using fb sub bl t2(3) w1 w2(1) by (simp add: grown_def span_list(1))
  then show ?thesis using that t1(1) t2(1) by fastforce
qed

lemma round_heap:
  assumes ok: "file_ok L n t f fes len"
    and nx: "\<not> extendable (extents_of L t) last_extent"
    and sz: "sz \<noteq> 0" and ne: "free_blocks (extents_of L t) \<noteq> {}"
  obtains k a t1 where
    "mtl_reserve_extent L t sz last_extent True = Some (k, Some a, t1)" "k \<noteq> 0" "unat k \<le> unat sz"
    "a \<notin> fe_offset ` set fes"
    "\<And>new. \<exists>t2 bs. mtl_add_extent_to_file L t1 f \<lparr>fe_offset = a, fe_length = k\<rparr> new = Some (MTL_SUCCESS, t2) \<and>
       grown L n t f fes t2 (fes @ [\<lparr>fe_offset = a, fe_length = k\<rparr>]) new bs \<and> length bs = unat k \<and>
       (unat k < unat sz \<longrightarrow> (\<forall>need. behind_ok (extents_of L t2) (fes @ [\<lparr>fe_offset = a, fe_length = k\<rparr>]) need))"
proof -
  let ?M = "extents_of L t"
  have inv: "extents_inv L n t" and na: "no_adjacent_free ?M" and o: "owns ?M fes"
    and fl: "is_file (inodes_of L t) f fes len" using ok by (auto simp: file_ok_def)
  note al = extents_invD(3) [OF inv]
  have "heap_nodes L t \<noteq> {}"
    using ne extents_invD(4) [OF inv] by (auto simp: free_blocks_def free_nodes_def)
  then obtain k a e t1 where t1: "mtl_reserve_extent L t sz last_extent True = Some (k, Some a, t1)"
    "?M a = Some e" "ext_status e = MTL_FREE" "unat k = min (unat sz) (unat (ext_length e))"
    "extents_of L t1 = take_front ?M a e k True" "extents_inv L n t1"
    "beside_extents L t1 = beside_extents L t"
    using reserve_from_heap [OF inv nx _ sz, of True] by metis
  note w1 = beside_extents_view [OF t1(7)] and bnd = alloc_inv_bound [of n ?M _ a e, OF al t1(2)]
  have k: "0 < unat k" "k \<le> ext_length e"
    using t1(4) sz bnd(1) by (auto simp: word_le_nat_alt unat_gt_0)
  let ?fe = "\<lparr>fe_offset = a, fe_length = k\<rparr>"
  have sub: "span a k \<subseteq> free_blocks ?M"
    using k(2) by (intro span_free [of ?M a e, OF t1(2,3)]) (simp add: word_le_nat_alt)
  have "\<exists>t2 bs. mtl_add_extent_to_file L t1 f ?fe new = Some (MTL_SUCCESS, t2) \<and>
       grown L n t f fes t2 (fes @ [?fe]) new bs \<and> length bs = unat k \<and>
       (unat k < unat sz \<longrightarrow> (\<forall>need. behind_ok (extents_of L t2) (fes @ [?fe]) need))" for new
  proof -
    obtain t2 q where t2: "mtl_add_extent_to_file L t1 f ?fe new = Some (MTL_SUCCESS, t2)"
      "is_file (inodes_of L t2) f (fes @ [?fe]) new" "inodes_of L t2 = (inodes_of L t1)(f \<mapsto> q)"
      "beside_inodes L t2 = beside_inodes L t1"
      using add_extent [of t1 f fes len ?fe new] fl w1(2) by auto
    note w2 = beside_inodes_view [OF t2(4)]
    have M2: "extents_of L t2 = take_front ?M a e k True" using w2(2) t1(5) by simp
    have "file_ok L n t2 f (fes @ [?fe]) new"
      using t1(6) w2(3) t2(2) owns_take_front [OF al t1(2,3) k o] M2
        take_front_no_adjacent [OF al t1(2,3) k na, of True] by (simp add: file_ok_def)
    then have "grown L n t f fes t2 (fes @ [?fe]) new [unat a ..< unat a + unat k]"
      using take_front_free_blocks [OF al t1(2,3) k, of True] sub t2(3) w1 w2(1) M2 k(1)
      by (simp add: grown_def span_list(1))
    moreover have "behind_ok (extents_of L t2) (fes @ [?fe]) need" if "unat k < unat sz" for need
    proof -
      have ke: "k = ext_length e" using that t1(4) by (simp add: word_eq_unat)
      have "a + k \<noteq> a" using bnd(1) ke by auto
      then have "extents_of L t2 (a + k) = ?M (a + ext_length e)" using M2 ke by (simp add: take_front_def)
      then show ?thesis using no_adjacent_freeD [OF na t1(2,3)] by (auto simp: behind_ok_def)
    qed
    ultimately show ?thesis using t2(1) by fastforce
  qed
  moreover have "a \<notin> fe_offset ` set fes" using o t1(2,3) by (auto simp: owns_def)
  moreover have "k \<noteq> 0" using k(1) by auto
  ultimately show ?thesis using that [of k a t1] t1(1,4) by simp
qed

lemma expand_loop_grows:
  assumes "file_ok L n t f fes len" "cur = sum_list (map fe_length fes)" "cur < web"
    and "behind_ok (extents_of L t) fes (web - cur)"
    and "unat (web - cur) \<le> card (free_blocks (extents_of L t))"
    and "n * unat bs < 2 ^ 64" "web = blocks_for sz bs" "bs \<noteq> 0"
  shows "\<exists>t' fes' new. expand_loop L bs f sz web cur (last_of fes) t = Some t' \<and>
    grown L n t f fes t' fes' sz new \<and> length new = unat (web - cur)"
  using assms(1-5)
proof (induction "unat (web - cur)" arbitrary: t fes len cur rule: less_induct)
  case less
  let ?M = "extents_of L t" and ?need = "web - cur"
  let ?last = "if fe_length (last_of fes) \<noteq> 0 then Some (last_of fes) else None"
  have inv: "extents_inv L n t" and o: "owns ?M fes" using less.prems(1) by (auto simp: file_ok_def)
  note al = extents_invD(3) [OF inv]
  have need: "?need \<noteq> 0" "unat ?need = unat web - unat cur"
    using less.prems(3) by (auto simp: unat_sub_exact word_less_nat_alt)
  have ucur: "unat cur = length (blocks_of fes)" using owns_length(2) [OF al o] less.prems(2) by simp
  have lastnz: "fe_length (last fes) \<noteq> 0" if "fes \<noteq> []"
    using ownsD [OF o, of "last fes"] that alloc_inv_bound(1) [of n ?M] al
    by (metis last_in_set neq0_conv unat_eq_zero)
  have "unat web \<le> n"
  proof -
    have "set (blocks_of fes) \<union> free_blocks ?M \<subseteq> {..<n}"
      using owns_blocks(2) [OF al o] free_blocks_bound [OF al] by blast
    then have "card (set (blocks_of fes) \<union> free_blocks ?M) \<le> n"
      using card_mono [of "{..<n}"] by fastforce
    moreover have "card (set (blocks_of fes) \<union> free_blocks ?M) = unat cur + card (free_blocks ?M)"
      using owns_blocks(1,3) [OF al o] finite_free_blocks [OF al] ucur
      by (simp add: card_Un_disjoint distinct_card)
    ultimately show ?thesis using less.prems(3,5) need(2) by (simp add: word_less_nat_alt)
  qed
  then have "unat web * unat bs < 2 ^ 64" using assms(6) by (meson le_less_trans mult_le_mono1)
  then have full: "\<not> web * bs < sz"
    using blocks_for_enough [OF assms(8), of sz] assms(7) by (simp add: word_less_nat_alt unat_mult_exact)
  show ?case
  proof (cases "extendable ?M ?last")
    case True
    then obtain nx where nx: "fes \<noteq> []" "?M (fe_offset (last fes) + fe_length (last fes)) = Some nx"
        "ext_status nx = MTL_FREE"
      by (auto simp: extendable_def last_of_def split: if_splits)
    obtain fes0 le where fes: "fes = fes0 @ [le]" using nx(1) by (metis append_butlast_last_id)
    have lt: "?need < ext_length nx" using less.prems(4) nx by (simp add: behind_ok_def)
    let ?le = "le\<lparr>fe_length := fe_length le + ?need\<rparr>"
    obtain t1 t2 bl where r: "mtl_reserve_extent L t ?need (Some le) True = Some (?need, Some (fe_offset le), t1)"
        "mtl_extend_last_extent_in_file L t1 f ?le sz = Some (MTL_SUCCESS, t2)"
        "grown L n t f (fes0 @ [le]) t2 (fes0 @ [?le]) sz bl" "length bl = unat ?need"
    proof -
      have "?M (fe_offset le + fe_length le) = Some nx" using nx(2) fes by simp
      then show ?thesis
        using round_extend [OF less.prems(1) [unfolded fes] _ nx(3) need(1) lt, of sz] that by metis
    qed
    have "expand_loop L bs f sz web cur (last_of fes) t = Some t2"
      using less.prems(3) lastnz [OF nx(1)] need(1) r(1,2) full
      by (subst expand_loop.simps) (simp add: fes last_of_def expand_loop.simps [of L bs f sz web web])
    then show ?thesis using r(3,4) fes by auto
  next
    case False
    have fn: "free_blocks ?M \<noteq> {}" using less.prems(3,5) need(2) by (auto simp: word_less_nat_alt)
    obtain k a t1 where r: "mtl_reserve_extent L t ?need ?last True = Some (k, Some a, t1)" "k \<noteq> 0"
        "unat k \<le> unat ?need" "a \<notin> fe_offset ` set fes"
      and add: "\<And>new. \<exists>t2 bs. mtl_add_extent_to_file L t1 f \<lparr>fe_offset = a, fe_length = k\<rparr> new = Some (MTL_SUCCESS, t2) \<and>
       grown L n t f fes t2 (fes @ [\<lparr>fe_offset = a, fe_length = k\<rparr>]) new bs \<and> length bs = unat k \<and>
       (unat k < unat ?need \<longrightarrow> (\<forall>need. behind_ok (extents_of L t2) (fes @ [\<lparr>fe_offset = a, fe_length = k\<rparr>]) need))"
      using round_heap [OF less.prems(1) False need(1) fn] by blast
    let ?fe = "\<lparr>fe_offset = a, fe_length = k\<rparr>" and ?cur = "cur + k"
    let ?new = "if sz > ?cur * bs then ?cur * bs else sz"
    obtain t2 bl where t2: "mtl_add_extent_to_file L t1 f ?fe ?new = Some (MTL_SUCCESS, t2)"
        "grown L n t f fes t2 (fes @ [?fe]) ?new bl" "length bl = unat k"
        "unat k < unat ?need \<Longrightarrow> behind_ok (extents_of L t2) (fes @ [?fe]) (web - ?cur)"
      using add [of ?new] by blast
    have no: "\<not> (fe_length (last_of fes) \<noteq> 0 \<and> fe_offset (last_of fes) = a)"
      using r(4) by (auto simp: last_of_def)
    have loop: "expand_loop L bs f sz web cur (last_of fes) t = expand_loop L bs f sz web ?cur (last_of (fes @ [?fe])) t2"
      using less.prems(3) r(1,2) t2(1) no
      by (subst expand_loop.simps) (auto simp: last_of_def)
    show ?thesis
    proof (cases "unat k = unat ?need")
      case True
      then have k: "k = ?need" by (simp add: word_eq_unat)
      then have "expand_loop L bs f sz web cur (last_of fes) t = Some t2"
        using loop by (simp add: expand_loop.simps [of L bs f sz web web])
      then show ?thesis using t2(2,3) k full by auto
    next
      case False
      then have klt: "unat k < unat ?need" using r(3) by simp
      have uc: "unat ?cur = unat cur + unat k"
        using klt need(2) unat_u64_bound [of web] by (intro unat_add_exact) (simp del: unat_u64_bound)
      then have lt: "?cur < web" and dec: "unat (web - ?cur) = unat ?need - unat k"
        using klt need(2) by (simp_all add: word_less_nat_alt unat_sub_exact)
      have ok2: "file_ok L n t2 f (fes @ [?fe]) ?new" and fb: "free_blocks (extents_of L t2) = free_blocks ?M - set bl"
        and bl: "distinct bl" "set bl \<subseteq> free_blocks ?M"
        using t2(2) by (auto simp: grown_def)
      have "card (free_blocks (extents_of L t2)) = card (free_blocks ?M) - unat k"
        using fb bl t2(3) by (simp add: card_Diff_subset distinct_card)
      then have "unat (web - ?cur) \<le> card (free_blocks (extents_of L t2))"
        using dec less.prems(5) by simp
      moreover have "unat (web - ?cur) < unat ?need" using dec klt unat_pos_iff [of k] r(2) by simp
      ultimately obtain t' fes' new where t': "expand_loop L bs f sz web ?cur (last_of (fes @ [?fe])) t2 = Some t'"
          "grown L n t2 f (fes @ [?fe]) t' fes' sz new" "length new = unat (web - ?cur)"
        using less.hyps [of ?cur t2 "fes @ [?fe]" ?new] ok2 lt less.prems(2) t2(4) [OF klt] by auto
      show ?thesis
        using loop t'(1) grown_trans [OF t2(2) t'(2)] t'(3) t2(3) dec klt
        by (intro exI [of _ t'] exI [of _ fes'] exI [of _ "bl @ new"]) simp
    qed
  qed
qed

end

end
