(* ===== verification/Storage.thy ===== *)
theory Storage
  imports Growth
begin

text \<open>
  Where the contents of files are: the in-memory storage backend,
  \<open>src/metal-filesystem/src/storage_in_memory.c\<close>, the contract of a storage backend as a locale, and
  what \<open>mtl_write\<close> and \<open>mtl_read\<close> do over any backend that keeps it.

  The buffer of the backend is a function from positions to bytes; \<open>junk\<close> is what \<open>malloc\<close> leaves in
  it.  The global variables \<open>_extents\<close> and \<open>_extents_length\<close> are written before they are read in every
  call and are local here.
\<close>

section \<open>The in-memory backend\<close>

definition NUM_BLOCKS :: u64 where "NUM_BLOCKS = 32768"
definition BLOCK_SIZE :: u64 where "BLOCK_SIZE = 4096"

text \<open>\<open>_storage\<close>, \<^term>\<open>None\<close> while it is NULL.\<close>

type_synonym mem_storage = "(nat \<Rightarrow> u8) option"

definition mtl_storage_initialize :: "(nat \<Rightarrow> u8) \<Rightarrow> mem_storage \<Rightarrow> int \<times> mem_storage" where
  "mtl_storage_initialize junk s = (MTL_SUCCESS, Some junk)"

definition mtl_storage_deinitialize :: "mem_storage \<Rightarrow> int \<times> mem_storage" where
  "mtl_storage_deinitialize s = (MTL_SUCCESS, None)"

definition mtl_storage_get_metadata :: "mem_storage \<Rightarrow> int \<times> mtl_storage_metadata" where
  "mtl_storage_get_metadata s = (MTL_SUCCESS, \<lparr>num_blocks = NUM_BLOCKS, block_size = BLOCK_SIZE\<rparr>)"

text \<open>
  The inner loop of both functions: the extent of the byte at \<open>current_offset\<close>, from the extent
  \<open>current_extent\<close> on, which begins at \<open>current_extent_offset\<close> in the file.  \<^term>\<open>None\<close> where the
  assertion fails or there is no extent to read.
\<close>

function seek_extent :: "mtl_file_extent list \<Rightarrow> u64 \<Rightarrow> nat \<Rightarrow> u64 \<Rightarrow> (nat \<times> u64) option" where
  "seek_extent extents current_offset current_extent current_extent_offset =
     (if current_extent \<ge> length extents then None
      else
        let extent_bytes = fe_length (extents ! current_extent) * BLOCK_SIZE
        in if current_extent_offset + extent_bytes \<le> current_offset
           then seek_extent extents current_offset (current_extent + 1)
                  (current_extent_offset + extent_bytes)
           else Some (current_extent, current_extent_offset))"
  by pat_completeness auto

termination
  by (relation "measure (\<lambda>(extents, off, i, eo). length extents - i)") auto

declare seek_extent.simps [simp del]

lemma seek_extent_end:
  "seek_extent extents off i eo = Some (i', eo') \<Longrightarrow>
     i' < length extents \<and> off < eo' + fe_length (extents ! i') * BLOCK_SIZE"
  by (induction extents off i eo rule: seek_extent.induct)
    (subst (asm) seek_extent.simps, auto simp: Let_def split: if_splits)

text \<open>\<open>memcpy\<close> into the buffer.\<close>

definition store_bytes :: "(nat \<Rightarrow> u8) \<Rightarrow> nat \<Rightarrow> bytes \<Rightarrow> nat \<Rightarrow> u8" where
  "store_bytes m p bs = (\<lambda>a. if p \<le> a \<and> a < p + length bs then bs ! (a - p) else m a)"

definition load_bytes :: "(nat \<Rightarrow> u8) \<Rightarrow> nat \<Rightarrow> nat \<Rightarrow> bytes" where
  "load_bytes m p n = map (\<lambda>k. m (p + k)) [0 ..< n]"

text \<open>How much of the extent is left from \<open>current_offset\<close> on, at most \<open>length\<close>.\<close>

definition chunk_length :: "mtl_file_extent \<Rightarrow> u64 \<Rightarrow> u64 \<Rightarrow> u64 \<Rightarrow> u64" where
  "chunk_length extent current_extent_offset current_offset len =
     (let pos = current_offset - current_extent_offset;
          l = fe_length extent * BLOCK_SIZE - pos
      in if l > len then len else l)"

definition chunk_address :: "mtl_file_extent \<Rightarrow> u64 \<Rightarrow> u64 \<Rightarrow> nat" where
  "chunk_address extent current_extent_offset current_offset =
     unat (fe_offset extent * BLOCK_SIZE) + unat (current_offset - current_extent_offset)"

lemma chunk_progress:
  assumes "len \<noteq> 0" "seek_extent extents off i eo = Some (i', eo')"
  shows "unat (len - chunk_length (extents ! i') eo' off len) < unat len"
    "chunk_length (extents ! i') eo' off len \<noteq> 0" "chunk_length (extents ! i') eo' off len \<le> len"
proof -
  let ?l = "fe_length (extents ! i') * BLOCK_SIZE - (off - eo')"
  have "eo' + fe_length (extents ! i') * BLOCK_SIZE \<noteq> off" using seek_extent_end [OF assms(2)] by auto
  then have l: "?l \<noteq> 0" by (auto simp: algebra_simps)
  then show "chunk_length (extents ! i') eo' off len \<noteq> 0" "chunk_length (extents ! i') eo' off len \<le> len"
    using assms(1) by (auto simp: chunk_length_def Let_def)
  then have "0 < unat (chunk_length (extents ! i') eo' off len)"
    "unat (chunk_length (extents ! i') eo' off len) \<le> unat len"
    by (simp_all add: unat_pos_iff word_le_nat_alt)
  then show "unat (len - chunk_length (extents ! i') eo' off len) < unat len"
    by (simp add: unat_sub_exact)
qed

function write_loop ::
  "mtl_file_extent list \<Rightarrow> bytes \<Rightarrow> u64 \<Rightarrow> nat \<Rightarrow> u64 \<Rightarrow> u64 \<Rightarrow> u64 \<Rightarrow> (nat \<Rightarrow> u8) \<Rightarrow> (nat \<Rightarrow> u8) option" where
  "write_loop extents buffer offset current_extent current_extent_offset current_offset len m =
     (if len = 0 then Some m
      else case seek_extent extents current_offset current_extent current_extent_offset of
        None \<Rightarrow> None
      | Some (i, eo) \<Rightarrow>
          let n = chunk_length (extents ! i) eo current_offset len;
              p = chunk_address (extents ! i) eo current_offset
          in if p + unat n > unat (NUM_BLOCKS * BLOCK_SIZE) then None
             else write_loop extents buffer offset i eo (current_offset + n) (len - n)
                    (store_bytes m p (take (unat n) (drop (unat (current_offset - offset)) buffer))))"
  by pat_completeness auto

termination
  by (relation "measure (\<lambda>(extents, buffer, offset, i, eo, off, len, m). unat len)")
    (auto intro: chunk_progress(1))

function read_loop ::
  "mtl_file_extent list \<Rightarrow> nat \<Rightarrow> u64 \<Rightarrow> u64 \<Rightarrow> u64 \<Rightarrow> (nat \<Rightarrow> u8) \<Rightarrow> bytes \<Rightarrow> bytes option" where
  "read_loop extents current_extent current_extent_offset current_offset len m buffer =
     (if len = 0 then Some buffer
      else case seek_extent extents current_offset current_extent current_extent_offset of
        None \<Rightarrow> None
      | Some (i, eo) \<Rightarrow>
          let n = chunk_length (extents ! i) eo current_offset len;
              p = chunk_address (extents ! i) eo current_offset
          in if p + unat n > unat (NUM_BLOCKS * BLOCK_SIZE) then None
             else read_loop extents i eo (current_offset + n) (len - n) m
                    (buffer @ load_bytes m p (unat n)))"
  by pat_completeness auto

termination
  by (relation "measure (\<lambda>(extents, i, eo, off, len, m, buffer). unat len)")
    (auto intro: chunk_progress(1))

declare write_loop.simps [simp del] read_loop.simps [simp del]

text \<open>The extents of the file as both functions load them; if that fails there is none.\<close>

definition storage_extents :: "'t mdb_ops \<Rightarrow> ('t, 's) mtl_context \<Rightarrow> u64 \<Rightarrow> mtl_file_extent list" where
  "storage_extents L ctx inode_id =
     (case snd (mtl_load_extent_list L ctx inode_id) of None \<Rightarrow> [] | Some (es, _) \<Rightarrow> es)"

definition mtl_storage_write ::
  "'t mdb_ops \<Rightarrow> (nat \<Rightarrow> u8) \<Rightarrow> ('t, mem_storage) mtl_context \<Rightarrow> u64 \<Rightarrow> u64 \<Rightarrow> bytes \<Rightarrow>
     (int \<times> mem_storage) option" where
  "mtl_storage_write L junk ctx inode_id offset buffer =
     (let m = (case storage ctx of None \<Rightarrow> junk | Some m \<Rightarrow> m);
          len = word_of_nat (length buffer)
      in if \<not> offset + len < NUM_BLOCKS * BLOCK_SIZE then None
         else do {
           m' \<leftarrow> write_loop (storage_extents L ctx inode_id) buffer offset 0 0 offset len m;
           Some (MTL_SUCCESS, Some m')
         })"

definition mtl_storage_read ::
  "'t mdb_ops \<Rightarrow> (nat \<Rightarrow> u8) \<Rightarrow> ('t, mem_storage) mtl_context \<Rightarrow> u64 \<Rightarrow> u64 \<Rightarrow> u64 \<Rightarrow>
     (int \<times> bytes \<times> mem_storage) option" where
  "mtl_storage_read L junk ctx inode_id offset len =
     (let m = (case storage ctx of None \<Rightarrow> junk | Some m \<Rightarrow> m)
      in if \<not> offset + len < NUM_BLOCKS * BLOCK_SIZE then None
         else do {
           data \<leftarrow> read_loop (storage_extents L ctx inode_id) 0 0 offset len m [];
           Some (MTL_SUCCESS, data, Some m)
         })"

definition in_memory_storage ::
  "'t mdb_ops \<Rightarrow> (nat \<Rightarrow> u8) \<Rightarrow> ('t, mem_storage) mtl_storage_backend" where
  "in_memory_storage L junk = \<lparr>sb_initialize = mtl_storage_initialize junk,
     sb_deinitialize = mtl_storage_deinitialize, sb_get_metadata = mtl_storage_get_metadata,
     sb_write = (\<lambda>ctx i off bs. map_option (map_prod id (\<lambda>s. ctx\<lparr>storage := s\<rparr>)) (mtl_storage_write L junk ctx i off bs)),
     sb_read = mtl_storage_read L junk\<rparr>"

section \<open>Positions in a file and in the storage\<close>

text \<open>Where the byte at position \<open>x\<close> of a file is, for blocks of \<open>B\<close> bytes.\<close>

definition phys :: "nat \<Rightarrow> mtl_file_extent list \<Rightarrow> nat \<Rightarrow> nat" where
  "phys B fes x = blocks_of fes ! (x div B) * B + x mod B"

lemma phys_inject:
  assumes "distinct (blocks_of fes)" "0 < B" "x < length (blocks_of fes) * B" "y < length (blocks_of fes) * B"
    and "phys B fes x = phys B fes y"
  shows "x = y"
proof -
  have m: "x mod B < B" "y mod B < B" using assms(2) by auto
  have q: "(u * B + r) div B = u \<and> (u * B + r) mod B = r" if "r < B" for u r
    using that by simp
  have "blocks_of fes ! (x div B) = blocks_of fes ! (y div B)" "x mod B = y mod B"
    using assms(5) q [OF m(1)] q [OF m(2)] unfolding phys_def by metis+
  moreover have "x div B < length (blocks_of fes)" "y div B < length (blocks_of fes)"
    using assms(2-4) by (auto simp: less_mult_imp_div_less)
  ultimately have "x div B = y div B" using assms(1) nth_eq_iff_index_eq by blast
  then show ?thesis using \<open>x mod B = y mod B\<close> by (metis div_mult_mod_eq)
qed

text \<open>The bytes at the positions of \<open>bs\<close> from \<open>x\<close> on have been written, and no others.\<close>

definition wrote :: "nat \<Rightarrow> mtl_file_extent list \<Rightarrow> (nat \<Rightarrow> u8) \<Rightarrow> nat \<Rightarrow> bytes \<Rightarrow> (nat \<Rightarrow> u8) \<Rightarrow> bool" where
  "wrote B fes m x bs m' \<longleftrightarrow>
     (\<forall>k < length bs. m' (phys B fes (x + k)) = bs ! k) \<and>
     (\<forall>a. (\<forall>k < length bs. a \<noteq> phys B fes (x + k)) \<longrightarrow> m' a = m a)"

lemma wrote_append:
  assumes "wrote B fes m x bs m1" "wrote B fes m1 (x + length bs) bs' m2"
    and "distinct (blocks_of fes)" "0 < B" "x + length bs + length bs' \<le> length (blocks_of fes) * B"
  shows "wrote B fes m x (bs @ bs') m2"
  unfolding wrote_def
proof (intro conjI allI impI)
  fix k assume k: "k < length (bs @ bs')"
  show "m2 (phys B fes (x + k)) = (bs @ bs') ! k"
  proof (cases "k < length bs")
    case True
    have "phys B fes (x + k) \<noteq> phys B fes (x + length bs + j)" if "j < length bs'" for j
      using phys_inject [OF assms(3,4), of "x + k" "x + length bs + j"] assms(5) True that by auto
    then have "m2 (phys B fes (x + k)) = m1 (phys B fes (x + k))"
      using assms(2) unfolding wrote_def by blast
    then show ?thesis using assms(1) True by (simp add: wrote_def nth_append)
  next
    case False
    then obtain j where j: "k = length bs + j" "j < length bs'" using k by (auto simp: le_iff_add not_less)
    then show ?thesis using assms(2) by (simp add: wrote_def nth_append add.assoc)
  qed
next
  fix a assume a: "\<forall>k < length (bs @ bs'). a \<noteq> phys B fes (x + k)"
  have "\<forall>k < length bs'. a \<noteq> phys B fes (x + length bs + k)"
    using a by (auto simp: add.assoc dest!: spec [of _ "length bs + _"])
  then have "m2 a = m1 a" using assms(2) by (simp add: wrote_def)
  moreover have "m1 a = m a" using assms(1) a by (simp add: wrote_def)
  ultimately show "m2 a = m a" by simp
qed

section \<open>The loops\<close>

text \<open>The extents lie in the storage, and the file is not longer than it.\<close>

definition fes_fit :: "mtl_file_extent list \<Rightarrow> bool" where
  "fes_fit fes \<longleftrightarrow> length (blocks_of fes) \<le> 32768 \<and>
     (\<forall>fe \<in> set fes. unat (fe_offset fe) + unat (fe_length fe) \<le> 32768)"

lemma BLOCK_SIZE_unat [simp]: "unat BLOCK_SIZE = 4096" "unat (NUM_BLOCKS * BLOCK_SIZE) = 134217728"
  by (simp_all add: BLOCK_SIZE_def NUM_BLOCKS_def)

lemma blocks_of_take:
  assumes "i < length fes"
  shows "length (blocks_of (take (Suc i) fes)) =
      length (blocks_of (take i fes)) + unat (fe_length (fes ! i))"
    "length (blocks_of (take i fes)) + unat (fe_length (fes ! i)) \<le> length (blocks_of fes)"
    "m < unat (fe_length (fes ! i)) \<Longrightarrow>
       blocks_of fes ! (length (blocks_of (take i fes)) + m) = unat (fe_offset (fes ! i)) + m"
proof -
  show "length (blocks_of (take (Suc i) fes)) =
      length (blocks_of (take i fes)) + unat (fe_length (fes ! i))"
    using assms by (simp add: take_Suc_conv_app_nth)
  have f: "blocks_of fes = blocks_of (take i fes) @ blocks_of (fes ! i # drop (Suc i) fes)"
    using assms by (metis id_take_nth_drop append_Cons append_Nil blocks_of_simps(3))
  then show "length (blocks_of (take i fes)) + unat (fe_length (fes ! i)) \<le> length (blocks_of fes)"
    by simp
  show "blocks_of fes ! (length (blocks_of (take i fes)) + m) = unat (fe_offset (fes ! i)) + m"
    if "m < unat (fe_length (fes ! i))"
    using that by (subst f) (simp add: nth_append)
qed

lemma seek_extent_finds:
  assumes "fes_fit fes" "unat eo = 4096 * length (blocks_of (take i fes))" "eo \<le> off"
    and "unat off < 4096 * length (blocks_of fes)"
  shows "\<exists>i' eo'. seek_extent fes off i eo = Some (i', eo') \<and> i' < length fes \<and>
    unat eo' = 4096 * length (blocks_of (take i' fes)) \<and> eo' \<le> off \<and>
    unat off < unat eo' + 4096 * unat (fe_length (fes ! i'))"
  using assms
proof (induction fes off i eo rule: seek_extent.induct)
  case (1 fes off i eo)
  let ?b = "fe_length (fes ! i) * BLOCK_SIZE"
  have i: "i < length fes"
  proof (rule ccontr)
    assume "\<not> i < length fes"
    then have "take i fes = fes" by simp
    then show False using 1(3,4,5) by (simp add: word_le_nat_alt)
  qed
  note b = blocks_of_take(1,2) [OF i]
  have "unat (fe_length (fes ! i)) \<le> 32768" using b(2) 1(2) by (simp add: fes_fit_def)
  then have ub: "unat ?b = 4096 * unat (fe_length (fes ! i))" by (simp add: unat_mult_exact)
  have ue: "unat (eo + ?b) = 4096 * length (blocks_of (take (Suc i) fes))"
    using ub 1(3) b 1(2) by (simp add: unat_add_exact fes_fit_def)
  show ?case
  proof (cases "eo + ?b \<le> off")
    case True
    then show ?thesis
      using 1(1) [OF _ refl, of] i ue 1(2,5) by (subst seek_extent.simps) (simp add: Let_def)
  next
    case False
    then have "unat off < unat eo + 4096 * unat (fe_length (fes ! i))"
      using ue b(1) 1(3) by (simp add: word_le_nat_alt)
    then show ?thesis using False i 1(3,4) by (subst seek_extent.simps) (simp add: Let_def)
  qed
qed

text \<open>A chunk lies in one extent, where positions in the file and in the storage advance together.\<close>

lemma chunk_phys:
  assumes fit: "fes_fit fes" and i: "i < length fes" and eo: "unat eo = 4096 * length (blocks_of (take i fes))"
    and le: "eo \<le> off" "unat off < unat eo + 4096 * unat (fe_length (fes ! i))"
  shows "unat (chunk_length (fes ! i) eo off len) =
      min (unat len) (unat eo + 4096 * unat (fe_length (fes ! i)) - unat off)"
    "k < unat eo + 4096 * unat (fe_length (fes ! i)) - unat off \<Longrightarrow>
       phys 4096 fes (unat off + k) = chunk_address (fes ! i) eo off + k"
    "chunk_address (fes ! i) eo off + (unat eo + 4096 * unat (fe_length (fes ! i)) - unat off) \<le> 134217728"
proof -
  let ?fe = "fes ! i"
  have bnd: "unat (fe_offset ?fe) + unat (fe_length ?fe) \<le> 32768"
    using fit i by (auto simp: fes_fit_def)
  have mul: "unat (fe_length ?fe * BLOCK_SIZE) = 4096 * unat (fe_length ?fe)"
    "unat (fe_offset ?fe * BLOCK_SIZE) = 4096 * unat (fe_offset ?fe)"
    using bnd by (simp_all add: unat_mult_exact)
  have pos: "unat (off - eo) = unat off - unat eo" using le(1) by (simp add: unat_sub_exact word_le_nat_alt)
  have le': "unat eo \<le> unat off" using le(1) by (simp add: word_le_nat_alt)
  have "unat (fe_length ?fe * BLOCK_SIZE - (off - eo)) = unat eo + 4096 * unat (fe_length ?fe) - unat off"
    using mul pos le(2) le' by (simp add: unat_sub_exact)
  then show "unat (chunk_length ?fe eo off len) =
      min (unat len) (unat eo + 4096 * unat (fe_length ?fe) - unat off)"
    by (simp add: chunk_length_def Let_def word_less_nat_alt)
  have ad: "chunk_address ?fe eo off = 4096 * unat (fe_offset ?fe) + (unat off - unat eo)"
    by (simp add: chunk_address_def mul pos)
  show "chunk_address ?fe eo off + (unat eo + 4096 * unat (fe_length ?fe) - unat off) \<le> 134217728"
    using ad bnd le(2) le' by simp
  show "phys 4096 fes (unat off + k) = chunk_address ?fe eo off + k"
    if k: "k < unat eo + 4096 * unat (fe_length ?fe) - unat off"
  proof -
    define r where "r = unat off - unat eo + k"
    have x: "unat off + k = 4096 * length (blocks_of (take i fes)) + r" using eo le' by (simp add: r_def)
    have r: "r div 4096 < unat (fe_length ?fe)" using k le' by (simp add: r_def less_mult_imp_div_less)
    have "blocks_of fes ! ((unat off + k) div 4096) = unat (fe_offset ?fe) + r div 4096"
      using blocks_of_take(3) [OF i r] by (simp add: x)
    moreover have "(unat off + k) mod 4096 = r mod 4096" by (simp add: x)
    ultimately have "phys 4096 fes (unat off + k) = 4096 * unat (fe_offset ?fe) + (4096 * (r div 4096) + r mod 4096)"
      by (simp add: phys_def)
    also have "\<dots> = 4096 * unat (fe_offset ?fe) + r" by simp
    finally show ?thesis using ad by (simp add: r_def)
  qed
qed

lemma wrote_chunk:
  assumes "\<And>k. k < length bs \<Longrightarrow> phys B fes (x + k) = p + k"
  shows "wrote B fes m x bs (store_bytes m p bs)"
proof -
  have "store_bytes m p bs a = m a" if "\<forall>k < length bs. a \<noteq> phys B fes (x + k)" for a
  proof (cases "p \<le> a \<and> a < p + length bs")
    case True
    then have "a = p + (a - p)" "a - p < length bs" by auto
    then show ?thesis using that assms [of "a - p"] by auto
  qed (auto simp: store_bytes_def)
  then show ?thesis using assms by (simp add: wrote_def store_bytes_def)
qed

lemma write_loop_wrote:
  assumes "fes_fit fes" "distinct (blocks_of fes)"
    and "unat eo = 4096 * length (blocks_of (take i fes))" "eo \<le> cur"
    and "offset \<le> cur" "unat cur - unat offset + unat len = length buffer"
    and "unat cur + unat len \<le> 4096 * length (blocks_of fes)"
  shows "\<exists>m'. write_loop fes buffer offset i eo cur len m = Some m' \<and>
    wrote 4096 fes m (unat cur) (drop (unat cur - unat offset) buffer) m'"
  using assms(3-7)
proof (induction "unat len" arbitrary: i eo cur len m rule: less_induct)
  case less
  show ?case
  proof (cases "len = 0")
    case True
    then show ?thesis using less.prems(4) by (simp add: write_loop.simps wrote_def)
  next
    case False
    have pos: "0 < unat len" using False by (simp add: unat_pos_iff)
    then have lt: "unat cur < 4096 * length (blocks_of fes)" using less.prems(5) by simp
    obtain i' eo' where s: "seek_extent fes cur i eo = Some (i', eo')" "i' < length fes"
        "unat eo' = 4096 * length (blocks_of (take i' fes))" "eo' \<le> cur"
        "unat cur < unat eo' + 4096 * unat (fe_length (fes ! i'))"
      using seek_extent_finds [OF assms(1) less.prems(1,2) lt] by blast
    define n where "n = chunk_length (fes ! i') eo' cur len"
    define p where "p = chunk_address (fes ! i') eo' cur"
    note c = chunk_phys [OF assms(1) s(2-5)]
    note pr = chunk_progress [OF False s(1), folded n_def]
    have un: "unat n = min (unat len) (unat eo' + 4096 * unat (fe_length (fes ! i')) - unat cur)"
      using c(1) by (simp add: n_def)
    let ?bs = "take (unat n) (drop (unat cur - unat offset) buffer)"
    have lb: "length ?bs = unat n" using less.prems(4) un by simp
    have w1: "wrote 4096 fes m (unat cur) ?bs (store_bytes m p ?bs)"
      using c(2) lb un by (intro wrote_chunk) (simp add: p_def)
    have small: "unat cur + unat len < 2 ^ 64" using less.prems(5) assms(1) by (simp add: fes_fit_def)
    have uc: "unat (cur + n) = unat cur + unat n" using small un by (intro unat_add_exact) simp
    have ul: "unat (len - n) = unat len - unat n" using un by (simp add: unat_sub_exact)
    have uo: "unat (cur - offset) = unat cur - unat offset"
      using less.prems(3) by (simp add: unat_sub_exact word_le_nat_alt)
    have le: "unat offset \<le> unat cur" using less.prems(3) by (simp add: word_le_nat_alt)
    obtain m' where m': "write_loop fes buffer offset i' eo' (cur + n) (len - n) (store_bytes m p ?bs) = Some m'"
        "wrote 4096 fes (store_bytes m p ?bs) (unat (cur + n)) (drop (unat (cur + n) - unat offset) buffer) m'"
      using less.hyps [OF pr(1) s(3), of "cur + n" "store_bytes m p ?bs"] s(4) le uc ul un less.prems(4,5)
      by (auto simp: word_le_nat_alt)
    have "p + unat n \<le> 134217728" using c(3) un by (simp add: p_def)
    then have wl: "write_loop fes buffer offset i eo cur len m = Some m'"
      using False s(1) m'(1) uo by (subst write_loop.simps) (simp add: Let_def n_def [symmetric] p_def [symmetric])
    define rest where "rest = drop (unat (cur + n) - unat offset) buffer"
    have "rest = drop (unat n) (drop (unat cur - unat offset) buffer)"
      using uc le by (simp add: rest_def add.commute)
    then have split: "drop (unat cur - unat offset) buffer = ?bs @ rest" by (metis append_take_drop_id)
    have "wrote 4096 fes (store_bytes m p ?bs) (unat cur + length ?bs) rest m'"
      using m'(2) unfolding lb rest_def uc .
    moreover have "length ?bs + length rest = unat len"
      using split less.prems(4) by (metis diff_add_inverse length_append length_drop)
    ultimately have "wrote 4096 fes m (unat cur) (?bs @ rest) m'"
      using less.prems(5) by (intro wrote_append [OF w1 _ assms(2)]) simp_all
    then have "wrote 4096 fes m (unat cur) (drop (unat cur - unat offset) buffer) m'"
      unfolding split [symmetric] .
    then show ?thesis using wl by blast
  qed
qed

text \<open>The bytes of the file from position \<open>x\<close> on.\<close>

definition file_bytes :: "nat \<Rightarrow> mtl_file_extent list \<Rightarrow> (nat \<Rightarrow> u8) \<Rightarrow> nat \<Rightarrow> nat \<Rightarrow> bytes" where
  "file_bytes B fes m x n = map (\<lambda>k. m (phys B fes (x + k))) [0 ..< n]"

lemma file_bytes_append:
  "file_bytes B fes m x (n + n') = file_bytes B fes m x n @ file_bytes B fes m (x + n) n'"
  by (rule nth_equalityI) (auto simp: file_bytes_def nth_append add.assoc)

lemma read_loop_bytes:
  assumes "fes_fit fes"
    and "unat eo = 4096 * length (blocks_of (take i fes))" "eo \<le> cur"
    and "unat cur + unat len \<le> 4096 * length (blocks_of fes)"
  shows "read_loop fes i eo cur len m buffer = Some (buffer @ file_bytes 4096 fes m (unat cur) (unat len))"
  using assms(2-4)
proof (induction "unat len" arbitrary: i eo cur len buffer rule: less_induct)
  case less
  show ?case
  proof (cases "len = 0")
    case True
    then show ?thesis by (simp add: read_loop.simps file_bytes_def)
  next
    case False
    have pos: "0 < unat len" using False by (simp add: unat_pos_iff)
    then have lt: "unat cur < 4096 * length (blocks_of fes)" using less.prems(3) by simp
    obtain i' eo' where s: "seek_extent fes cur i eo = Some (i', eo')" "i' < length fes"
        "unat eo' = 4096 * length (blocks_of (take i' fes))" "eo' \<le> cur"
        "unat cur < unat eo' + 4096 * unat (fe_length (fes ! i'))"
      using seek_extent_finds [OF assms(1) less.prems(1,2) lt] by blast
    define n where "n = chunk_length (fes ! i') eo' cur len"
    define p where "p = chunk_address (fes ! i') eo' cur"
    note c = chunk_phys [OF assms(1) s(2-5)]
    note pr = chunk_progress [OF False s(1), folded n_def]
    have un: "unat n = min (unat len) (unat eo' + 4096 * unat (fe_length (fes ! i')) - unat cur)"
      using c(1) by (simp add: n_def)
    have ch: "load_bytes m p (unat n) = file_bytes 4096 fes m (unat cur) (unat n)"
      using c(2) un by (simp add: load_bytes_def file_bytes_def p_def)
    have small: "unat cur + unat len < 2 ^ 64" using less.prems(3) assms(1) by (simp add: fes_fit_def)
    have uc: "unat (cur + n) = unat cur + unat n" using small un by (intro unat_add_exact) simp
    have ul: "unat (len - n) = unat len - unat n" using un by (simp add: unat_sub_exact)
    have "read_loop fes i' eo' (cur + n) (len - n) m (buffer @ load_bytes m p (unat n)) =
        Some ((buffer @ load_bytes m p (unat n)) @ file_bytes 4096 fes m (unat (cur + n)) (unat (len - n)))"
      using less.hyps [OF pr(1) s(3), of "cur + n"] s(4) uc ul un less.prems(3)
      by (simp add: word_le_nat_alt)
    moreover have "p + unat n \<le> 134217728" using c(3) un by (simp add: p_def)
    ultimately have "read_loop fes i eo cur len m buffer =
        Some (buffer @ file_bytes 4096 fes m (unat cur) (unat n) @
          file_bytes 4096 fes m (unat cur + unat n) (unat len - unat n))"
      using False s(1) ch uc ul
      by (subst read_loop.simps) (simp add: Let_def n_def [symmetric] p_def [symmetric])
    then show ?thesis
      using file_bytes_append [of 4096 fes m "unat cur" "unat n" "unat len - unat n"] un by simp
  qed
qed

section \<open>The contract of a storage backend\<close>

text \<open>
  \<open>view\<close> is what the storage holds, block after block of \<open>B\<close> bytes; \<open>usable\<close> says which extents of
  a file the backend can address, and \<open>within\<close> which ends of a range of bytes.
\<close>

locale storage_contract =
  fixes L :: "'t mdb_ops" and B :: "('t, 's) mtl_storage_backend"
    and view :: "'s \<Rightarrow> nat \<Rightarrow> u8" and bsize :: nat
    and usable :: "mtl_file_extent list \<Rightarrow> bool" and within :: "nat \<Rightarrow> bool"
  assumes bsize_pos: "0 < bsize"
    and within_small: "within x \<Longrightarrow> x < 2 ^ 64"
    and within_mono: "within x \<Longrightarrow> y \<le> x \<Longrightarrow> within y"
    and write_law: "mtl_load_extent_list L ctx f = (MTL_SUCCESS, Some (fes, len)) \<Longrightarrow> usable fes \<Longrightarrow>
      distinct (blocks_of fes) \<Longrightarrow> within (unat off + length buf) \<Longrightarrow>
      unat off + length buf \<le> bsize * length (blocks_of fes) \<Longrightarrow>
      \<exists>s'. sb_write B ctx f off buf = Some (MTL_SUCCESS, ctx\<lparr>storage := s'\<rparr>) \<and>
        wrote bsize fes (view (storage ctx)) (unat off) buf (view s')"
    and read_law: "mtl_load_extent_list L ctx f = (MTL_SUCCESS, Some (fes, len)) \<Longrightarrow> usable fes \<Longrightarrow>
      within (unat off + unat n) \<Longrightarrow> unat off + unat n \<le> bsize * length (blocks_of fes) \<Longrightarrow>
      \<exists>s'. sb_read B ctx f off n =
          Some (MTL_SUCCESS, file_bytes bsize fes (view (storage ctx)) (unat off) (unat n), s') \<and>
        view s' = view (storage ctx)"
begin

text \<open>What has been written is read back, and other files keep their bytes.\<close>

lemma wrote_file_bytes:
  "wrote bsize fes m x bs m' \<Longrightarrow> file_bytes bsize fes m' x (length bs) = bs"
  by (rule nth_equalityI) (simp_all add: wrote_def file_bytes_def)

lemma wrote_other_file:
  assumes "wrote bsize fes m x bs m'" "set (blocks_of fes) \<inter> set (blocks_of gs) = {}"
    and "x + length bs \<le> bsize * length (blocks_of fes)" "y + n \<le> bsize * length (blocks_of gs)"
  shows "file_bytes bsize gs m' y n = file_bytes bsize gs m y n"
proof -
  have "m' (phys bsize gs (y + k)) = m (phys bsize gs (y + k))" if k: "k < n" for k
  proof -
    have "phys bsize gs (y + k) \<noteq> phys bsize fes (x + j)" if j: "j < length bs" for j
    proof
      assume "phys bsize gs (y + k) = phys bsize fes (x + j)"
      then have "phys bsize gs (y + k) div bsize = phys bsize fes (x + j) div bsize" by simp
      then have "blocks_of gs ! ((y + k) div bsize) = blocks_of fes ! ((x + j) div bsize)"
        using bsize_pos by (simp add: phys_def)
      moreover have "(y + k) div bsize < length (blocks_of gs)" "(x + j) div bsize < length (blocks_of fes)"
        using assms(3,4) k j by (auto intro!: less_mult_imp_div_less simp: mult.commute)
      ultimately show False using assms(2) by (metis disjoint_iff nth_mem)
    qed
    then show ?thesis using assms(1) unfolding wrote_def by blast
  qed
  then show ?thesis by (simp add: file_bytes_def)
qed

end

section \<open>The in-memory backend keeps it\<close>

definition mem_view :: "(nat \<Rightarrow> u8) \<Rightarrow> mem_storage \<Rightarrow> nat \<Rightarrow> u8" where
  "mem_view junk s = (case s of None \<Rightarrow> junk | Some m \<Rightarrow> m)"

lemma in_memory_write:
  assumes "mtl_load_extent_list L ctx f = (MTL_SUCCESS, Some (fes, len))" "fes_fit fes"
    and "distinct (blocks_of fes)" "unat off + length buf < 134217728"
    and "unat off + length buf \<le> 4096 * length (blocks_of fes)"
  shows "\<exists>s'. mtl_storage_write L junk ctx f off buf = Some (MTL_SUCCESS, s') \<and>
    wrote 4096 fes (mem_view junk (storage ctx)) (unat off) buf (mem_view junk s')"
proof -
  let ?n = "word_of_nat (length buf) :: u64"
  have n: "unat ?n = length buf" using assms(4) by (simp add: unat_of_nat)
  have "unat (off + ?n) = unat off + length buf" using assms(4) n by (simp add: unat_add_exact)
  then have a: "off + ?n < NUM_BLOCKS * BLOCK_SIZE" using assms(4) by (simp add: word_less_nat_alt)
  have es: "storage_extents L ctx f = fes" using assms(1) by (simp add: storage_extents_def)
  obtain m' where "write_loop fes buf off 0 0 off ?n (mem_view junk (storage ctx)) = Some m'"
      "wrote 4096 fes (mem_view junk (storage ctx)) (unat off) buf m'"
    using write_loop_wrote [OF assms(2,3), of 0 0 off off ?n buf] assms(5) n by auto
  then show ?thesis using a es by (simp add: mtl_storage_write_def mem_view_def Let_def)
qed

lemma in_memory_read:
  assumes "mtl_load_extent_list L ctx f = (MTL_SUCCESS, Some (fes, len))" "fes_fit fes"
    and "unat off + unat n < 134217728" "unat off + unat n \<le> 4096 * length (blocks_of fes)"
  shows "\<exists>s'. mtl_storage_read L junk ctx f off n =
      Some (MTL_SUCCESS, file_bytes 4096 fes (mem_view junk (storage ctx)) (unat off) (unat n), s') \<and>
    mem_view junk s' = mem_view junk (storage ctx)"
proof -
  have "unat (off + n) = unat off + unat n" using assms(3) by (simp add: unat_add_exact)
  then have a: "off + n < NUM_BLOCKS * BLOCK_SIZE" using assms(3) by (simp add: word_less_nat_alt)
  have es: "storage_extents L ctx f = fes" using assms(1) by (simp add: storage_extents_def)
  have "read_loop fes 0 0 off n (mem_view junk (storage ctx)) [] =
      Some (file_bytes 4096 fes (mem_view junk (storage ctx)) (unat off) (unat n))"
    using read_loop_bytes [OF assms(2), of 0 0 off n "mem_view junk (storage ctx)" "[]"] assms(4) by simp
  then show ?thesis using a es by (simp add: mtl_storage_read_def mem_view_def Let_def)
qed

interpretation mem: storage_contract L "in_memory_storage L junk" "mem_view junk" 4096 fes_fit
  "\<lambda>x. x < 134217728" for L junk
proof unfold_locales
  fix ctx :: "('a, mem_storage) mtl_context" and f fes len and off :: u64 and buf :: bytes
  assume "mtl_load_extent_list L ctx f = (MTL_SUCCESS, Some (fes, len))" "fes_fit fes"
    "distinct (blocks_of fes)" "unat off + length buf < 134217728"
    "unat off + length buf \<le> 4096 * length (blocks_of fes)"
  from in_memory_write [OF this, of junk]
  show "\<exists>s'. sb_write (in_memory_storage L junk) ctx f off buf = Some (MTL_SUCCESS, ctx\<lparr>storage := s'\<rparr>) \<and>
      wrote 4096 fes (mem_view junk (storage ctx)) (unat off) buf (mem_view junk s')"
    by (auto simp: in_memory_storage_def)
qed (auto simp: in_memory_storage_def intro!: in_memory_read [simplified])

end
