(* ===== verification/Contents.thy ===== *)
theory Contents
  imports Storage
begin

text \<open>
  The contents of files: what \<open>mtl_expand_inode\<close>, \<open>mtl_write\<close> and \<open>mtl_read\<close> do, over the in-memory
  backend where the contents matter.
\<close>

section \<open>Growing a file\<close>

lemma expand_inode_cases:
  fixes sz :: u64
  assumes L: "lmdb L" and ok: "file_ok L n t f fes len"
    and bs: "bs = block_size (metadata ctx)" "bs \<noteq> 0" "n * unat bs < 2 ^ 64"
  defines "cur \<equiv> sum_list (map fe_length fes)" and "web \<equiv> blocks_for sz bs"
  shows "\<not> cur < web \<Longrightarrow> mtl_expand_inode L ctx t f fes sz = Some (MTL_SUCCESS, t)"
    and "cur < web \<Longrightarrow> behind_ok (extents_of L t) fes (web - cur) \<Longrightarrow>
      unat web - unat cur \<le> card (free_blocks (extents_of L t)) \<Longrightarrow>
      \<exists>t' fes' new. mtl_expand_inode L ctx t f fes sz = Some (MTL_SUCCESS, t') \<and>
        grown L n t f fes t' fes' sz new \<and> length new = unat web - unat cur"
proof -
  have e: "mtl_expand_inode L ctx t f fes sz =
      do { t' \<leftarrow> expand_loop L bs f sz web cur (last_of fes) t; Some (MTL_SUCCESS, t') }"
    using bs(1,2) by (simp add: mtl_expand_inode_def Let_def cur_def web_def last_of_def)
  show "mtl_expand_inode L ctx t f fes sz = Some (MTL_SUCCESS, t)" if "\<not> cur < web"
    using that e by (simp add: expand_loop.simps)
  show "\<exists>t' fes' new. mtl_expand_inode L ctx t f fes sz = Some (MTL_SUCCESS, t') \<and>
        grown L n t f fes t' fes' sz new \<and> length new = unat web - unat cur"
    if lt: "cur < web" and b: "behind_ok (extents_of L t) fes (web - cur)"
      and sp: "unat web - unat cur \<le> card (free_blocks (extents_of L t))"
  proof -
    have u: "unat (web - cur) = unat web - unat cur" using lt by (simp add: unat_sub_exact word_less_nat_alt)
    obtain t' fes' new where t': "expand_loop L bs f sz web cur (last_of fes) t = Some t'"
        "grown L n t f fes t' fes' sz new" "length new = unat web - unat cur"
      using lmdb.expand_loop_grows [OF L ok cur_def [THEN meta_eq_to_obj_eq] lt b _ bs(3)
          web_def [THEN meta_eq_to_obj_eq] bs(2)] sp u by auto
    then show ?thesis using e by auto
  qed
qed

text \<open>
  C2: growing a file terminates and succeeds whenever enough blocks are free (and the extent behind
  the file's last one is not free, or longer than needed): the file gets exactly the missing
  blocks, all of them free before and none of them twice, behind the blocks it had, its length is
  the requested size, and the invariants and all other inodes are kept.  If the file already has
  enough blocks, nothing changes, and in particular not its length.
\<close>

theorem expand_inode_grows:
  assumes "lmdb L" "file_ok L n t f fes len"
    and "bs = block_size (metadata ctx)" "bs \<noteq> 0" "n * unat bs < 2 ^ 64"
    and "cur = sum_list (map fe_length fes)" "web = blocks_for sz bs"
    and "behind_ok (extents_of L t) fes (web - cur)"
    and "unat web - unat cur \<le> card (free_blocks (extents_of L t))"
  shows "if cur < web
    then \<exists>t' fes' new. mtl_expand_inode L ctx t f fes sz = Some (MTL_SUCCESS, t') \<and>
      file_ok L n t' f fes' sz \<and> blocks_of fes' = blocks_of fes @ new \<and>
      length new = unat web - unat cur \<and> distinct new \<and> set new \<subseteq> free_blocks (extents_of L t) \<and>
      free_blocks (extents_of L t') = free_blocks (extents_of L t) - set new \<and>
      (\<forall>i. i \<noteq> f \<longrightarrow> inodes_of L t' i = inodes_of L t i)
    else mtl_expand_inode L ctx t f fes sz = Some (MTL_SUCCESS, t)"
proof (cases "cur < web")
  case True
  then obtain t' fes' new where "mtl_expand_inode L ctx t f fes sz = Some (MTL_SUCCESS, t')"
      "grown L n t f fes t' fes' sz new" "length new = unat web - unat cur"
    using expand_inode_cases(2) [OF assms(1-5), of sz] assms(6-9) by blast
  then show ?thesis unfolding if_P [OF True] grown_def by blast
next
  case False
  then show ?thesis using expand_inode_cases(1) [OF assms(1-5), of sz] assms(6,7) by simp
qed

section \<open>Writing and reading\<close>

definition read_length :: "u64 \<Rightarrow> u64 \<Rightarrow> u64 \<Rightarrow> u64" where
  "read_length len sz off =
     (if len < off then 0 else if len < off + sz then sz - ((off + sz) - len) else sz)"

lemma read_length_exact:
  assumes "unat off + unat sz < 2 ^ 64"
  shows "unat (read_length len sz off) = min (unat sz) (unat len - unat off)"
  using assms unat_add_exact [of off sz]
  by (auto simp: read_length_def word_less_nat_alt unat_sub_exact min_def)

lemma load_extents_of_file:
  assumes L: "lmdb L" and f: "is_file (inodes_of L (env_store (env ctx))) f fes len" and m: "length fes \<le> 512"
  shows "mtl_load_extent_list L ctx f = (MTL_SUCCESS, Some (fes, len))"
  using f m by (auto simp: mtl_load_extent_list_def is_file_def mdb_txn_begin_rdonly_def
      lmdb.load_file_eq [OF L] MTL_MAX_EXTENTS_def)

lemma file_ok_fit:
  assumes L: "lmdb L" and ok: "file_ok L n t f fes len" and n: "n \<le> 32768"
  shows "fes_fit fes" "distinct (blocks_of fes)"
proof -
  have inv: "extents_inv L n t" and o: "owns (extents_of L t) fes" using ok by (auto simp: file_ok_def)
  note al = lmdb.extents_invD(3) [OF L inv]
  have "unat (fe_offset fe) + unat (fe_length fe) \<le> 32768" if fe: "fe \<in> set fes" for fe
  proof -
    obtain e where e: "extents_of L t (fe_offset fe) = Some e" "ext_length e = fe_length fe"
      using ownsD [OF o fe] by metis
    show ?thesis
      using alloc_inv_bound(2) [of n "extents_of L t" _ "fe_offset fe" e, OF al e(1)] e(2) n by simp
  qed
  then show "fes_fit fes" using owns_length(1) [OF al o] n by (simp add: fes_fit_def)
  show "distinct (blocks_of fes)" using owns_blocks(1) [OF al o] .
qed

lemma read_eq:
  assumes "lmdb L" "inodes_of L (env_store (env ctx)) f = Some (i, data)"
  shows "mtl_read L B ctx f sz off =
    (if read_length (i_length i) sz off > 0 then do {
       (_, bs, s) \<leftarrow> sb_read B ctx f off (read_length (i_length i) sz off);
       Some (read_length (i_length i) sz off, bs, ctx\<lparr>storage := s\<rparr>)
     } else Some (read_length (i_length i) sz off, [], ctx))"
  unfolding mtl_read_def read_length_def [symmetric]
  by (simp add: assms(2) mdb_txn_begin_rdonly_def lmdb.load_file_eq [OF assms(1)] Let_def)

text \<open>Reading a file whose extents and length are known.\<close>

lemma read_file:
  assumes L: "lmdb L" and f: "is_file (inodes_of L (env_store (env ctx))) f fes len"
    and m: "length fes \<le> 512" "fes_fit fes"
    and b: "unat off + unat sz < 134217728" "min (unat len) (unat off + unat sz) \<le> 4096 * length (blocks_of fes)"
  obtains ctx' where "mtl_read L (in_memory_storage L junk) ctx f sz off =
      Some (read_length len sz off,
        file_bytes 4096 fes (mem_view junk (storage ctx)) (unat off) (unat (read_length len sz off)), ctx')"
proof -
  let ?n = "read_length len sz off"
  obtain i where i: "inodes_of L (env_store (env ctx)) f = Some (i, enc_extents fes)" "i_length i = len"
    using f by (auto simp: is_file_def)
  have n: "unat ?n = min (unat sz) (unat len - unat off)" using read_length_exact b(1) by simp
  show ?thesis
  proof (cases "?n = 0")
    case True
    have "mtl_read L (in_memory_storage L junk) ctx f sz off = Some (?n, [], ctx)"
      using i(2) True by (simp add: read_eq [OF L i(1)])
    then show ?thesis using that True by (simp add: file_bytes_def)
  next
    case False
    then have "0 < min (unat sz) (unat len - unat off)" using n unat_pos_iff [of ?n] by simp
    then have "unat off + unat ?n \<le> 4096 * length (blocks_of fes)" using n b(2) by linarith
    moreover have "unat off + unat ?n < 134217728" using n b(1) by simp
    ultimately obtain s' where "sb_read (in_memory_storage L junk) ctx f off ?n =
        Some (MTL_SUCCESS, file_bytes 4096 fes (mem_view junk (storage ctx)) (unat off) (unat ?n), s')"
      using mem.read_law [OF load_extents_of_file [OF L f m(1)] m(2)] by blast
    then have "mtl_read L (in_memory_storage L junk) ctx f sz off =
        Some (?n, file_bytes 4096 fes (mem_view junk (storage ctx)) (unat off) (unat ?n), ctx\<lparr>storage := s'\<rparr>)"
      using i(2) False by (simp add: read_eq [OF L i(1)] word_neq_0_conv)
    then show ?thesis using that by blast
  qed
qed

text \<open>How many blocks a file lacks to reach to the position \<open>e\<close>, and when it can be written up to there.\<close>

definition need :: "mtl_file_extent list \<Rightarrow> nat \<Rightarrow> nat" where
  "need fes e = (e + 4095) div 4096 - length (blocks_of fes)"

definition writable ::
  "'t mdb_ops \<Rightarrow> nat \<Rightarrow> ('t, 's) mtl_context \<Rightarrow> u64 \<Rightarrow> mtl_file_extent list \<Rightarrow> u64 \<Rightarrow> nat \<Rightarrow> bool" where
  "writable L n ctx f fes len e \<longleftrightarrow>
     (let M = extents_of L (env_store (env ctx))
      in \<not> env_writer (env ctx) \<and> block_size (metadata ctx) = 4096 \<and> n \<le> 32768 \<and>
         file_ok L n (env_store (env ctx)) f fes len \<and> e < 134217728 \<and>
         length fes + need fes e \<le> 512 \<and> need fes e \<le> card (free_blocks M) \<and>
         behind_ok M fes (word_of_nat (need fes e)))"

lemma blocks_for_4096: "unat (x :: u64) < 134217728 \<Longrightarrow> unat (blocks_for x 4096) = (unat x + 4095) div 4096"
proof -
  assume x: "unat x < 134217728"
  have m: "unat (x mod 4096) = unat x mod 4096" "unat (x div 4096) = unat x div 4096"
    by (simp_all add: unat_mod unat_div)
  show ?thesis
  proof (cases "x mod 4096 = 0")
    case True
    then have "unat x mod 4096 = 0" using m(1) by simp
    then have "(unat x + 4095) div 4096 = unat x div 4096" by (simp add: div_add1_eq)
    then show ?thesis using True m(2) by (simp add: blocks_for_def)
  next
    case False
    then have "unat x mod 4096 \<noteq> 0" using m(1) by (metis unat_eq_zero)
    then have "(unat x mod 4096 + 4095) div 4096 = 1" by (intro div_nat_eqI) auto
    moreover have "unat x + 4095 = unat x div 4096 * 4096 + (unat x mod 4096 + 4095)" by simp
    ultimately have "(unat x + 4095) div 4096 = unat x div 4096 + 1" by (metis div_mult_self3 add.commute zero_neq_numeral)
    moreover have "unat (x div 4096 + 1) = unat x div 4096 + 1"
      using x m(2) by (simp add: unat_word_ariths)
    ultimately show ?thesis using False by (simp add: blocks_for_def)
  qed
qed

text \<open>Writing to a file: the metadata grow first, then the contents are written.\<close>

lemma write_file:
  assumes L: "lmdb L" and wr: "writable L n ctx f fes len (unat off + length buf)"
  defines "e \<equiv> unat off + length buf"
  obtains ctx' fes' new where
    "mtl_write L (in_memory_storage L junk) ctx f buf off = Some (MTL_SUCCESS, ctx')"
    "file_ok L n (env_store (env ctx')) f fes' (if need fes e = 0 then len else word_of_nat e)"
    "blocks_of fes' = blocks_of fes @ new" "length new = need fes e" "length fes' \<le> 512"
    "set new \<subseteq> free_blocks (extents_of L (env_store (env ctx)))" "e \<le> 4096 * length (blocks_of fes')"
    "wrote 4096 fes' (mem_view junk (storage ctx)) (unat off) buf (mem_view junk (storage ctx'))"
    "\<forall>i. i \<noteq> f \<longrightarrow> inodes_of L (env_store (env ctx')) i = inodes_of L (env_store (env ctx)) i"
proof -
  let ?t = "env_store (env ctx)" and ?sz = "off + word_of_nat (length buf) :: u64"
  let ?cur = "sum_list (map fe_length fes)" and ?web = "blocks_for ?sz 4096"
  have w: "\<not> env_writer (env ctx)" "block_size (metadata ctx) = 4096" "n \<le> 32768"
    "file_ok L n ?t f fes len" "e < 134217728" "length fes + need fes e \<le> 512"
    "need fes e \<le> card (free_blocks (extents_of L ?t))"
    "behind_ok (extents_of L ?t) fes (word_of_nat (need fes e))"
    using wr by (auto simp: writable_def Let_def e_def)
  have inv: "extents_inv L n ?t" and o: "owns (extents_of L ?t) fes"
    and fl: "is_file (inodes_of L ?t) f fes len" using w(4) by (auto simp: file_ok_def)
  have sz: "unat ?sz = e" using w(5) by (simp add: e_def unat_add_exact unat_of_nat)
  have web: "unat ?web = (e + 4095) div 4096" using blocks_for_4096 [of ?sz] sz w(5) by simp
  have cur: "unat ?cur = length (blocks_of fes)"
    using owns_length(2) [OF lmdb.extents_invD(3) [OF L inv] o] .
  have nd: "need fes e = unat ?web - unat ?cur" using web cur by (simp add: need_def)
  have nb: "n * unat (4096 :: u64) < 2 ^ 64" using w(3) by simp
  have bs: "(4096 :: u64) = block_size (metadata ctx)" "(4096 :: u64) \<noteq> 0" using w(2) by simp_all
  note ex = expand_inode_cases [OF L w(4) bs nb, of ?sz]
  have "\<exists>t1 fes' new. mtl_expand_inode L ctx ?t f fes ?sz = Some (MTL_SUCCESS, t1) \<and>
      file_ok L n t1 f fes' (if need fes e = 0 then len else word_of_nat e) \<and>
      blocks_of fes' = blocks_of fes @ new \<and> length new = need fes e \<and> length fes' \<le> 512 \<and>
      set new \<subseteq> free_blocks (extents_of L ?t) \<and> (\<forall>i. i \<noteq> f \<longrightarrow> inodes_of L t1 i = inodes_of L ?t i)"
  proof (cases "?cur < ?web")
    case False
    then have "need fes e = 0" using nd by (simp add: word_less_nat_alt)
    then show ?thesis
      using ex(1) [OF False] w(4,6) by (intro exI [of _ ?t] exI [of _ fes] exI [of _ "[]"]) simp
  next
    case True
    then have nz: "need fes e \<noteq> 0" using nd by (simp add: word_less_nat_alt)
    have "word_of_nat (need fes e) = ?web - ?cur"
      using True nd by (simp add: word_eq_unat unat_of_nat unat_sub_exact word_less_nat_alt take_bit_nat_eq_self)
    then obtain t1 fes' new where "mtl_expand_inode L ctx ?t f fes ?sz = Some (MTL_SUCCESS, t1)"
        "grown L n ?t f fes t1 fes' ?sz new" "length new = unat ?web - unat ?cur"
      using ex(2) [OF True] w(7,8) nd by auto
    moreover have "?sz = word_of_nat e" using sz by (metis of_nat_unat ucast_id)
    ultimately show ?thesis
      unfolding grown_def using nd nz w(6)
      by (intro exI [of _ t1] exI [of _ fes'] exI [of _ new]) auto
  qed
  then obtain t1 fes' new where t1: "mtl_expand_inode L ctx ?t f fes ?sz = Some (MTL_SUCCESS, t1)"
      "file_ok L n t1 f fes' (if need fes e = 0 then len else word_of_nat e)"
      "blocks_of fes' = blocks_of fes @ new" "length new = need fes e" "length fes' \<le> 512"
      "set new \<subseteq> free_blocks (extents_of L ?t)" "\<forall>i. i \<noteq> f \<longrightarrow> inodes_of L t1 i = inodes_of L ?t i"
    by blast
  let ?ctx1 = "mdb_txn_commit ctx t1"
  have big: "e \<le> 4096 * length (blocks_of fes')" using t1(3,4) by (simp add: need_def)
  have fl1: "is_file (inodes_of L (env_store (env ?ctx1))) f fes' (if need fes e = 0 then len else word_of_nat e)"
    using t1(2) by (simp add: file_ok_def)
  obtain s' where s': "sb_write (in_memory_storage L junk) ?ctx1 f off buf =
      Some (MTL_SUCCESS, ?ctx1\<lparr>storage := s'\<rparr>)"
      "wrote 4096 fes' (mem_view junk (storage ?ctx1)) (unat off) buf (mem_view junk s')"
    using mem.write_law [OF load_extents_of_file [OF L fl1 t1(5)] file_ok_fit [OF L t1(2) w(3)]] w(5) big
    unfolding e_def by blast
  have beg: "mdb_txn_begin_write (env ctx) = Some ?t" using w(1) by (simp add: mdb_txn_begin_write_def)
  have "mtl_write L (in_memory_storage L junk) ctx f buf off = Some (MTL_SUCCESS, ?ctx1\<lparr>storage := s'\<rparr>)"
    using beg fl t1(1) s'(1)
    by (auto simp: mtl_write_def is_file_def lmdb.load_file_eq [OF L])
  then show ?thesis using that [of "?ctx1\<lparr>storage := s'\<rparr>" fes' new] t1 s'(2) big by simp
qed

text \<open>Writing and then reading the same range, with what the write leaves alone.\<close>

lemma write_read_back:
  assumes "lmdb L" "writable L n ctx f fes len (unat off + length buf)"
    and "need fes (unat off + length buf) \<noteq> 0 \<or> unat off + length buf \<le> unat len"
  shows "\<exists>ctx' ctx''. mtl_write L (in_memory_storage L junk) ctx f buf off = Some (MTL_SUCCESS, ctx') \<and>
    mtl_read L (in_memory_storage L junk) ctx' f (word_of_nat (length buf)) off =
      Some (word_of_nat (length buf), buf, ctx'') \<and>
    (\<forall>i. i \<noteq> f \<longrightarrow> inodes_of L (env_store (env ctx')) i = inodes_of L (env_store (env ctx)) i)"
proof -
  let ?e = "unat off + length buf" and ?n = "word_of_nat (length buf) :: u64"
  let ?len = "if need fes ?e = 0 then len else word_of_nat ?e"
  have cap: "?e < 134217728" and n: "n \<le> 32768" using assms(2) by (auto simp: writable_def Let_def)
  obtain ctx' fes' new where w: "mtl_write L (in_memory_storage L junk) ctx f buf off = Some (MTL_SUCCESS, ctx')"
    "file_ok L n (env_store (env ctx')) f fes' ?len" "length fes' \<le> 512"
    "?e \<le> 4096 * length (blocks_of fes')"
    "wrote 4096 fes' (mem_view junk (storage ctx)) (unat off) buf (mem_view junk (storage ctx'))"
    "\<forall>i. i \<noteq> f \<longrightarrow> inodes_of L (env_store (env ctx')) i = inodes_of L (env_store (env ctx)) i"
    using write_file [OF assms(1,2), of junk] by metis
  have un: "unat ?n = length buf" using cap by (simp add: unat_of_nat)
  have "unat (word_of_nat ?e :: u64) = ?e" using cap by (simp add: unat_of_nat del: of_nat_add)
  then have le: "?e \<le> unat ?len" using assms(3) by (auto simp del: of_nat_add)
  have rl: "read_length ?len ?n off = ?n"
    using read_length_exact [of off ?n ?len] un cap le by (simp add: word_eq_unat)
  have "is_file (inodes_of L (env_store (env ctx'))) f fes' ?len" using w(2) by (simp add: file_ok_def)
  moreover have "unat off + unat ?n < 134217728"
    "min (unat ?len) (unat off + unat ?n) \<le> 4096 * length (blocks_of fes')" using un cap w(4) by auto
  ultimately obtain ctx'' where "mtl_read L (in_memory_storage L junk) ctx' f ?n off =
      Some (?n, file_bytes 4096 fes' (mem_view junk (storage ctx')) (unat off) (unat ?n), ctx'')"
    using read_file [OF assms(1) _ w(3) file_ok_fit(1) [OF assms(1) w(2) n], of ctx' f ?len off ?n junk] rl
    by metis
  moreover have "file_bytes 4096 fes' (mem_view junk (storage ctx')) (unat off) (unat ?n) = buf"
    using mem.wrote_file_bytes [OF w(5)] un by simp
  ultimately show ?thesis using w(1,6) by auto
qed

text \<open>
  C1: what is written to a file is read back.  If the file can be written up to the end of the
  range, and the range ends in a block the file did not have yet or before its old end, then
  \<open>mtl_write\<close> succeeds and \<open>mtl_read\<close> of the same range returns all the bytes written.
\<close>

theorem write_then_read:
  assumes "lmdb L" "writable L n ctx f fes len (unat off + length buf)"
    and "need fes (unat off + length buf) \<noteq> 0 \<or> unat off + length buf \<le> unat len"
  shows "\<exists>ctx' ctx''. mtl_write L (in_memory_storage L junk) ctx f buf off = Some (MTL_SUCCESS, ctx') \<and>
    mtl_read L (in_memory_storage L junk) ctx' f (word_of_nat (length buf)) off =
      Some (word_of_nat (length buf), buf, ctx'')"
  using write_read_back [OF assms] by blast

text \<open>
  C21: writing past the end of a file inside its last block loses data.  If the file has enough
  blocks already, \<open>mtl_write\<close> succeeds but leaves the length of the file as it was, and reading the
  range just written returns only the bytes before the old end.
\<close>

theorem write_in_last_block_not_read:
  assumes "lmdb L" "writable L n ctx f fes len (unat off + length buf)"
    and "need fes (unat off + length buf) = 0" "off \<le> len" "unat len < unat off + length buf"
  shows "\<exists>ctx' ctx''. mtl_write L (in_memory_storage L junk) ctx f buf off = Some (MTL_SUCCESS, ctx') \<and>
    mtl_read L (in_memory_storage L junk) ctx' f (word_of_nat (length buf)) off =
      Some (len - off, take (unat len - unat off) buf, ctx'')"
proof -
  let ?e = "unat off + length buf" and ?n = "word_of_nat (length buf) :: u64"
  have cap: "?e < 134217728" and n: "n \<le> 32768" using assms(2) by (auto simp: writable_def Let_def)
  obtain ctx' fes' new where w: "mtl_write L (in_memory_storage L junk) ctx f buf off = Some (MTL_SUCCESS, ctx')"
    "file_ok L n (env_store (env ctx')) f fes' len" "length fes' \<le> 512"
    "?e \<le> 4096 * length (blocks_of fes')"
    "wrote 4096 fes' (mem_view junk (storage ctx)) (unat off) buf (mem_view junk (storage ctx'))"
    using write_file [OF assms(1,2), of junk, unfolded if_P [OF assms(3)]] by metis
  have un: "unat ?n = length buf" using cap by (simp add: unat_of_nat)
  have sub: "unat (len - off) = unat len - unat off"
    using assms(4) by (simp add: unat_sub_exact word_le_nat_alt)
  have rl: "read_length len ?n off = len - off"
    using read_length_exact [of off ?n len] un cap assms(5) sub by (simp add: word_eq_unat)
  have "is_file (inodes_of L (env_store (env ctx'))) f fes' len" using w(2) by (simp add: file_ok_def)
  moreover have "unat off + unat ?n < 134217728"
    "min (unat len) (unat off + unat ?n) \<le> 4096 * length (blocks_of fes')" using un cap w(4) by auto
  ultimately obtain ctx'' where "mtl_read L (in_memory_storage L junk) ctx' f ?n off =
      Some (len - off, file_bytes 4096 fes' (mem_view junk (storage ctx')) (unat off) (unat (len - off)), ctx'')"
    using read_file [OF assms(1) _ w(3) file_ok_fit(1) [OF assms(1) w(2) n], of ctx' f len off ?n junk] rl
    by metis
  moreover have "file_bytes 4096 fes' (mem_view junk (storage ctx')) (unat off) (unat (len - off)) =
      take (unat len - unat off) buf"
  proof -
    have "file_bytes 4096 fes' (mem_view junk (storage ctx')) (unat off) (unat (len - off)) =
        take (unat len - unat off) (file_bytes 4096 fes' (mem_view junk (storage ctx')) (unat off) (length buf))"
      using assms(5) sub by (simp add: file_bytes_def take_map min_def)
    then show ?thesis using mem.wrote_file_bytes [OF w(5)] by simp
  qed
  ultimately show ?thesis using w(1) by auto
qed

text \<open>
  C3: writing to a file leaves every other file alone: for a file that owns no block of the one
  written to, \<open>mtl_read\<close> returns after the write what it returned before.
\<close>

theorem write_keeps_other_files:
  assumes "lmdb L" "writable L n ctx f fes len (unat off + length buf)"
    and "g \<noteq> f" "file_ok L n (env_store (env ctx)) g gs glen" "length gs \<le> 512"
    and "set (blocks_of fes) \<inter> set (blocks_of gs) = {}" "unat glen \<le> 4096 * length (blocks_of gs)"
    and "unat p + unat sz < 134217728"
  shows "\<exists>ctx' r bs c c'. mtl_write L (in_memory_storage L junk) ctx f buf off = Some (MTL_SUCCESS, ctx') \<and>
    mtl_read L (in_memory_storage L junk) ctx g sz p = Some (r, bs, c) \<and>
    mtl_read L (in_memory_storage L junk) ctx' g sz p = Some (r, bs, c')"
proof -
  let ?e = "unat off + length buf" and ?r = "read_length glen sz p"
  let ?M = "extents_of L (env_store (env ctx))"
  have n: "n \<le> 32768" and fok: "file_ok L n (env_store (env ctx)) f fes len"
    using assms(2) by (auto simp: writable_def Let_def)
  obtain ctx' fes' new where w: "mtl_write L (in_memory_storage L junk) ctx f buf off = Some (MTL_SUCCESS, ctx')"
    "blocks_of fes' = blocks_of fes @ new" "set new \<subseteq> free_blocks ?M" "?e \<le> 4096 * length (blocks_of fes')"
    "wrote 4096 fes' (mem_view junk (storage ctx)) (unat off) buf (mem_view junk (storage ctx'))"
    "\<forall>i. i \<noteq> f \<longrightarrow> inodes_of L (env_store (env ctx')) i = inodes_of L (env_store (env ctx)) i"
    using write_file [OF assms(1,2), of junk] by metis
  have og: "owns ?M gs" "extents_inv L n (env_store (env ctx))" and
    fg: "is_file (inodes_of L (env_store (env ctx))) g gs glen" using assms(4) by (auto simp: file_ok_def)
  have fg': "is_file (inodes_of L (env_store (env ctx'))) g gs glen"
    using fg w(6) assms(3) by (simp add: is_file_def)
  note fit = file_ok_fit(1) [OF assms(1,4) n]
  have b: "min (unat glen) (unat p + unat sz) \<le> 4096 * length (blocks_of gs)" using assms(7) by simp
  have dis: "set (blocks_of fes') \<inter> set (blocks_of gs) = {}"
    using w(2,3) assms(6) owns_blocks(3) [OF lmdb.extents_invD(3) [OF assms(1) og(2)] og(1)] by auto
  have ur: "unat ?r = min (unat sz) (unat glen - unat p)" using read_length_exact assms(8) by simp
  have same: "file_bytes 4096 gs (mem_view junk (storage ctx')) (unat p) (unat ?r) =
      file_bytes 4096 gs (mem_view junk (storage ctx)) (unat p) (unat ?r)"
  proof (cases "unat ?r = 0")
    case False
    then have "unat p + unat ?r \<le> 4096 * length (blocks_of gs)" using ur assms(7) by linarith
    then show ?thesis using mem.wrote_other_file [OF w(5) dis w(4)] by simp
  qed (simp add: file_bytes_def)
  obtain c where "mtl_read L (in_memory_storage L junk) ctx g sz p =
      Some (?r, file_bytes 4096 gs (mem_view junk (storage ctx)) (unat p) (unat ?r), c)"
    using read_file [OF assms(1) fg assms(5) fit assms(8) b] by blast
  moreover obtain c' where "mtl_read L (in_memory_storage L junk) ctx' g sz p =
      Some (?r, file_bytes 4096 gs (mem_view junk (storage ctx')) (unat p) (unat ?r), c')"
    using read_file [OF assms(1) fg' assms(5) fit assms(8) b] by blast
  ultimately show ?thesis using w(1) same by auto
qed

section \<open>Examples\<close>

text \<open>A storage of ten blocks with two files of one block each.\<close>

definition ex_layout :: "(u64 \<times> mtl_extent_status) list" where
  "ex_layout = [(1, MTL_COMMITTED), (1, MTL_COMMITTED), (8, MTL_FREE)]"

definition ex_inode :: "u64 \<Rightarrow> mtl_inode" where
  "ex_inode len = (new_inode MTL_FILE S_IFREG 0)\<lparr>i_length := len\<rparr>"

definition ex_f :: "mtl_file_extent list" where "ex_f = [\<lparr>fe_offset = 1, fe_length = 1\<rparr>]"
definition ex_g :: "mtl_file_extent list" where "ex_g = [\<lparr>fe_offset = 0, fe_length = 1\<rparr>]"

definition ex_db :: ref_db where
  "ex_db = snd (mtl_put_inode ref_ops
     (snd (mtl_put_inode ref_ops (store_of ex_layout) 5 (ex_inode 10) (enc_extents ex_f)))
     6 (ex_inode 4) (enc_extents ex_g))"

definition ex_ctx :: "(ref_db, mem_storage) mtl_context" where
  "ex_ctx = \<lparr>env = \<lparr>env_store = ex_db, env_writer = False\<rparr>,
     metadata = \<lparr>num_blocks = 10, block_size = 4096\<rparr>, storage = None\<rparr>"

lemma ex_db_view:
  "extents_inv ref_ops 10 ex_db" "extents_of ref_ops ex_db = map_of (layout 0 ex_layout)"
  "is_file (inodes_of ref_ops ex_db) 5 ex_f 10" "is_file (inodes_of ref_ops ex_db) 6 ex_g 4"
  "inodes_of ref_ops ex_db 5 = Some (ex_inode 10, enc_extents ex_f)"
proof -
  let ?t0 = "store_of ex_layout"
  have s: "extents_inv ref_ops 10 ?t0" "extents_of ref_ops ?t0 = map_of (layout 0 ex_layout)"
    by (simp_all add: store_of_inv ex_layout_def)
  obtain r1 t1 where t1: "mtl_put_inode ref_ops ?t0 5 (ex_inode 10) (enc_extents ex_f) = (r1, t1)"
    by (cases "mtl_put_inode ref_ops ?t0 5 (ex_inode 10) (enc_extents ex_f)")
  obtain r2 t2 where t2: "mtl_put_inode ref_ops t1 6 (ex_inode 4) (enc_extents ex_g) = (r2, t2)"
    by (cases "mtl_put_inode ref_ops t1 6 (ex_inode 4) (enc_extents ex_g)")
  have db: "ex_db = t2" using t1 t2 by (simp add: ex_db_def)
  note v1 = ref.put_inode [OF t1] and v2 = ref.put_inode [OF t2]
  show "extents_inv ref_ops 10 ex_db" "extents_of ref_ops ex_db = map_of (layout 0 ex_layout)"
    using s ref.beside_inodes_view [OF v1(3)] ref.beside_inodes_view [OF v2(3)] by (simp_all add: db)
  show "is_file (inodes_of ref_ops ex_db) 5 ex_f 10" "is_file (inodes_of ref_ops ex_db) 6 ex_g 4"
    "inodes_of ref_ops ex_db 5 = Some (ex_inode 10, enc_extents ex_f)"
    using v1(2) v2(2) by (simp_all add: db is_file_def ex_inode_def)
qed

lemma ex_map: "map_of (layout 0 ex_layout) = [2 \<mapsto> free_ext 2 8,
    1 \<mapsto> \<lparr>ext_length = 1, ext_status = MTL_COMMITTED, pq_node = INVALID_NODE\<rparr>,
    0 \<mapsto> \<lparr>ext_length = 1, ext_status = MTL_COMMITTED, pq_node = INVALID_NODE\<rparr>]"
  by (auto simp: ex_layout_def)

lemma ex_file_ok: "file_ok ref_ops 10 ex_db 5 ex_f 10" "file_ok ref_ops 10 ex_db 6 ex_g 4"
proof -
  have "no_adjacent_free (extents_of ref_ops ex_db)"
    unfolding ex_db_view(2) ex_map by (auto simp: no_adjacent_free_def split: if_splits)
  moreover have "owns (extents_of ref_ops ex_db) ex_f" "owns (extents_of ref_ops ex_db) ex_g"
    unfolding ex_db_view(2) ex_map by (simp_all add: owns_def ex_f_def ex_g_def)
  ultimately show "file_ok ref_ops 10 ex_db 5 ex_f 10" "file_ok ref_ops 10 ex_db 6 ex_g 4"
    using ex_db_view by (simp_all add: file_ok_def)
qed

lemma ex_free: "card (free_blocks (extents_of ref_ops ex_db)) = 8"
proof -
  have "free_blocks (extents_of ref_ops ex_db) = span 2 8"
    unfolding ex_db_view(2) ex_map by (auto simp: free_blocks_def span_def split: if_splits)
  then show ?thesis by (simp add: span_list(2))
qed

lemma ex_blocks: "blocks_of ex_f = [1]" "blocks_of ex_g = [0]"
  by (simp_all add: ex_f_def ex_g_def)

lemma ex_behind: "k < 8 \<Longrightarrow> behind_ok (extents_of ref_ops ex_db) ex_f k"
  unfolding ex_db_view(2) ex_map by (simp add: behind_ok_def ex_f_def)

lemma ex_writable: "e \<le> 8192 \<Longrightarrow> writable ref_ops 10 ex_ctx 5 ex_f 10 e"
proof -
  assume e: "e \<le> 8192"
  have "(e + 4095) div 4096 \<le> (8192 + 4095) div 4096" using e by (intro div_le_mono) simp
  then have n: "need ex_f e \<le> 1" by (simp add: need_def ex_blocks)
  then have "(word_of_nat (need ex_f e) :: u64) < 8" by (cases "need ex_f e") auto
  then show ?thesis
    using e n ex_file_ok(1) ex_free ex_behind by (simp add: writable_def ex_ctx_def ex_f_def)
qed

theorem expand_inode_grows_witness:
  "\<exists>t' fes'. mtl_expand_inode ref_ops ex_ctx ex_db 5 ex_f 5000 = Some (MTL_SUCCESS, t') \<and>
     file_ok ref_ops 10 t' 5 fes' 5000 \<and> length (blocks_of fes') = 2"
proof -
  have w: "blocks_for 5000 4096 = (2 :: u64)" "sum_list (map fe_length ex_f) = 1" "(1 :: u64) < 2"
    by (simp_all add: blocks_for_def ex_f_def)
  have "behind_ok (extents_of ref_ops ex_db) ex_f (2 - 1)" using ex_behind [of 1] by simp
  then obtain t' fes' new where "mtl_expand_inode ref_ops ex_ctx ex_db 5 ex_f 5000 = Some (MTL_SUCCESS, t')"
      "file_ok ref_ops 10 t' 5 fes' 5000" "blocks_of fes' = blocks_of ex_f @ new" "length new = 1"
    using expand_inode_grows [OF ref.lmdb_axioms ex_file_ok(1), of 4096 ex_ctx 1 2 5000,
        unfolded if_P [OF w(3)]] w ex_free by (auto simp: ex_ctx_def)
  then show ?thesis by (intro exI [of _ t'] exI [of _ fes']) (simp add: ex_blocks)
qed

theorem write_then_read_witness:
  "\<exists>ctx' ctx''. mtl_write ref_ops (in_memory_storage ref_ops (\<lambda>_. 0)) ex_ctx 5 [7, 8, 9] 4096 =
       Some (MTL_SUCCESS, ctx') \<and>
     mtl_read ref_ops (in_memory_storage ref_ops (\<lambda>_. 0)) ctx' 5 3 4096 = Some (3, [7, 8, 9], ctx'')"
  using write_then_read [OF ref.lmdb_axioms, of 10 ex_ctx 5 ex_f 10 4096 "[7, 8, 9]" "\<lambda>_. 0"]
    ex_writable [of 4099] by (simp add: need_def ex_blocks)

theorem write_in_last_block_not_read_witness:
  "\<exists>ctx' ctx''. mtl_write ref_ops (in_memory_storage ref_ops (\<lambda>_. 0)) ex_ctx 5 [7, 8, 9] 9 =
       Some (MTL_SUCCESS, ctx') \<and>
     mtl_read ref_ops (in_memory_storage ref_ops (\<lambda>_. 0)) ctx' 5 3 9 = Some (1, [7], ctx'')"
  using write_in_last_block_not_read [OF ref.lmdb_axioms, of 10 ex_ctx 5 ex_f 10 9 "[7, 8, 9]" "\<lambda>_. 0"]
    ex_writable [of 12] by (simp add: need_def ex_blocks)

theorem write_keeps_other_files_witness:
  "\<exists>ctx' r bs c c'. mtl_write ref_ops (in_memory_storage ref_ops (\<lambda>_. 0)) ex_ctx 5 [7, 8, 9] 9 =
       Some (MTL_SUCCESS, ctx') \<and>
     mtl_read ref_ops (in_memory_storage ref_ops (\<lambda>_. 0)) ex_ctx 6 4 0 = Some (r, bs, c) \<and>
     mtl_read ref_ops (in_memory_storage ref_ops (\<lambda>_. 0)) ctx' 6 4 0 = Some (r, bs, c')"
  using write_keeps_other_files [OF ref.lmdb_axioms, of 10 ex_ctx 5 ex_f 10 9 "[7, 8, 9]" 6 ex_g 4 0 4 "\<lambda>_. 0"]
    ex_writable [of 12] ex_file_ok(2) by (simp add: ex_blocks ex_g_def ex_ctx_def)

end
