(* ===== verification/Fuse.thy ===== *)
theory Fuse
  imports Contents "HOL-Library.Sublist"
begin

text \<open>
  The FUSE side of the driver: the file system handler (\<open>filesystem_fuse_handler.cpp\<close>), the handlers
  of the operators directory and of the socket link (\<open>operator_fuse_handler.cpp\<close>,
  \<open>socket_fuse_handler.cpp\<close>), and the handler that dispatches on the prefix of a path
  (\<open>combined_fuse_handler.cpp\<close>, reached through \<open>metal_fuse_operations.cpp\<close>).

  A handler is the record of its virtual functions, over the state \<^typ>\<open>'h\<close> of all handlers.  What a
  call leaves in \<open>*stbuf\<close>, \<open>fi->fh\<close> or a buffer is a result; names passed to the \<open>filler\<close> are a list.
  \<^term>\<open>None\<close> is a call that never returns or fails an assertion.
\<close>

unbundle bit_operations_syntax

section \<open>Interface\<close>

definition ENOENT :: int where [simp]: "ENOENT = 2"
definition ENOSYS :: int where [simp]: "ENOSYS = 38"

definition S_IFLNK :: u32 where "S_IFLNK = 0xA000"

record stat =
  st_mode :: u32
  st_nlink :: u64
  st_uid :: u32
  st_gid :: u32
  st_size :: u64
  st_blocks :: u64
  st_atime :: u64
  st_mtime :: u64
  st_ctime :: u64

definition stat_zero :: stat where
  "stat_zero = \<lparr>st_mode = 0, st_nlink = 0, st_uid = 0, st_gid = 0, st_size = 0, st_blocks = 0,
     st_atime = 0, st_mtime = 0, st_ctime = 0\<rparr>"

record 'h fuse_handler =
  fuse_chown :: "bytes \<Rightarrow> u32 \<Rightarrow> u32 \<Rightarrow> 'h \<Rightarrow> (int \<times> 'h) option"
  fuse_create :: "bytes \<Rightarrow> u32 \<Rightarrow> u64 \<Rightarrow> 'h \<Rightarrow> (int \<times> u64 \<times> 'h) option"
  fuse_getattr :: "bytes \<Rightarrow> stat \<Rightarrow> 'h \<Rightarrow> (int \<times> stat) option"
  fuse_mkdir :: "bytes \<Rightarrow> u32 \<Rightarrow> 'h \<Rightarrow> (int \<times> 'h) option"
  fuse_open :: "bytes \<Rightarrow> u64 \<Rightarrow> 'h \<Rightarrow> (int \<times> u64) option"
  fuse_read :: "bytes \<Rightarrow> u64 \<Rightarrow> u64 \<Rightarrow> 'h \<Rightarrow> (int \<times> bytes \<times> 'h) option"
  fuse_readdir :: "bytes \<Rightarrow> 'h \<Rightarrow> (int \<times> bytes list) option"
  fuse_readlink :: "bytes \<Rightarrow> nat \<Rightarrow> 'h \<Rightarrow> (int \<times> bytes) option"
  fuse_release :: "bytes \<Rightarrow> 'h \<Rightarrow> int option"
  fuse_rename :: "bytes \<Rightarrow> bytes \<Rightarrow> 'h \<Rightarrow> (int \<times> 'h) option"
  fuse_rmdir :: "bytes \<Rightarrow> 'h \<Rightarrow> (int \<times> 'h) option"
  fuse_truncate :: "bytes \<Rightarrow> u64 \<Rightarrow> 'h \<Rightarrow> (int \<times> 'h) option"
  fuse_unlink :: "bytes \<Rightarrow> 'h \<Rightarrow> (int \<times> 'h) option"
  fuse_write :: "bytes \<Rightarrow> bytes \<Rightarrow> u64 \<Rightarrow> u64 \<Rightarrow> 'h \<Rightarrow> (int \<times> 'h) option"

section \<open>File system handler\<close>

text \<open>The functions of \<open>FilesystemFuseHandler\<close>, over the context of its file system.\<close>

definition fs_chown :: "'t mdb_ops \<Rightarrow> bytes \<Rightarrow> u32 \<Rightarrow> u32 \<Rightarrow> ('t, 's) mtl_context \<Rightarrow>
    (int \<times> ('t, 's) mtl_context) option" where
  "fs_chown L path uid gid ctx = mtl_chown L ctx path uid gid"

definition fs_getattr :: "'t mdb_ops \<Rightarrow> bytes \<Rightarrow> ('t, 's) mtl_context \<Rightarrow> (int \<times> stat) option" where
  "fs_getattr L path ctx =
     (if path = [] then Some (0, stat_zero\<lparr>st_mode := S_IFDIR OR 0x1ED, st_nlink := 2\<rparr>)
      else do {
        (res, inode) \<leftarrow> mtl_get_inode L ctx path;
        if res \<noteq> MTL_SUCCESS then Some (- res, stat_zero)
        else do {
          inode \<leftarrow> inode;
          Some (0, stat_zero\<lparr>st_mode := i_mode inode, st_nlink := 2, st_uid := i_user inode,
                   st_gid := i_group inode, st_size := i_length inode,
                   st_blocks := i_length inode div 512 + (if i_length inode mod 512 > 0 then 1 else 0),
                   st_atime := ucast (i_accessed inode), st_mtime := ucast (i_modified inode),
                   st_ctime := ucast (i_created inode)\<rparr>)
        }
      })"

partial_function (option) readdir_loop :: "mtl_dir \<Rightarrow> bytes list option" where
  "readdir_loop dir = do {
     (status, current_filename, dir) \<leftarrow> mtl_readdir dir 4096;
     if status = MTL_COMPLETE then Some []
     else do {
       names \<leftarrow> readdir_loop dir;
       Some (takeWhile (\<lambda>c. c \<noteq> 0) current_filename # names)
     }
   }"

definition fs_readdir :: "'t mdb_ops \<Rightarrow> u64 \<Rightarrow> bytes \<Rightarrow> ('t, 's) mtl_context \<Rightarrow> (int \<times> bytes list) option" where
  "fs_readdir L junk path ctx = do {
     (res, dir) \<leftarrow> mtl_opendir L junk ctx path;
     if res \<noteq> MTL_SUCCESS then Some (- res, [])
     else do { names \<leftarrow> readdir_loop dir; Some (0, names) }
   }"

definition fs_create :: "'t mdb_ops \<Rightarrow> u32 \<Rightarrow> bytes \<Rightarrow> u32 \<Rightarrow> u64 \<Rightarrow> ('t, 's) mtl_context \<Rightarrow>
    (int \<times> u64 \<times> ('t, 's) mtl_context) option" where
  "fs_create L now path mode fh ctx = do {
     (res, inode_id, ctx) \<leftarrow> mtl_create L now ctx path mode;
     if res \<noteq> MTL_SUCCESS then Some (- res, fh, ctx)
     else do { inode_id \<leftarrow> inode_id; Some (0, inode_id, ctx) }
   }"

definition fs_readlink :: "bytes \<Rightarrow> nat \<Rightarrow> int \<times> bytes" where
  "fs_readlink path sz = (- ENOENT, [])"

definition fs_open :: "'t mdb_ops \<Rightarrow> bytes \<Rightarrow> u64 \<Rightarrow> ('t, 's) mtl_context \<Rightarrow> (int \<times> u64) option" where
  "fs_open L path fh ctx = do {
     (res, inode_id) \<leftarrow> mtl_open L ctx path;
     if res \<noteq> MTL_SUCCESS then Some (- res, fh)
     else do { inode_id \<leftarrow> inode_id; Some (0, inode_id) }
   }"

text \<open>The result of \<open>mtl_read\<close> is converted to \<open>int\<close>.\<close>

definition fs_read :: "'t mdb_ops \<Rightarrow> ('t, 's) mtl_storage_backend \<Rightarrow> bytes \<Rightarrow> u64 \<Rightarrow> u64 \<Rightarrow> ('t, 's) mtl_context \<Rightarrow>
    (int \<times> bytes \<times> ('t, 's) mtl_context) option" where
  "fs_read L B path sz offset ctx = do {
     (res, inode_id) \<leftarrow> mtl_open L ctx path;
     if res \<noteq> MTL_SUCCESS then Some (- res, [], ctx)
     else do {
       inode_id \<leftarrow> inode_id;
       (len, data, ctx) \<leftarrow> mtl_read L B ctx inode_id sz offset;
       Some (sint (ucast len :: u32), data, ctx)
     }
   }"

definition fs_release :: "bytes \<Rightarrow> int" where
  "fs_release path = 0"

definition fs_truncate :: "'t mdb_ops \<Rightarrow> bytes \<Rightarrow> u64 \<Rightarrow> ('t, 's) mtl_context \<Rightarrow>
    (int \<times> ('t, 's) mtl_context) option" where
  "fs_truncate L path sz ctx = do {
     (res, inode_id) \<leftarrow> mtl_open L ctx path;
     if res \<noteq> MTL_SUCCESS then Some (- res, ctx)
     else do {
       inode_id \<leftarrow> inode_id;
       (res, ctx) \<leftarrow> mtl_truncate L ctx inode_id sz;
       if res \<noteq> MTL_SUCCESS then Some (- res, ctx) else Some (0, ctx)
     }
   }"

text \<open>The result of \<open>mtl_write\<close> is not looked at.\<close>

definition fs_write :: "'t mdb_ops \<Rightarrow> ('t, 's) mtl_storage_backend \<Rightarrow> bytes \<Rightarrow> bytes \<Rightarrow> u64 \<Rightarrow> u64 \<Rightarrow>
    ('t, 's) mtl_context \<Rightarrow> (int \<times> ('t, 's) mtl_context) option" where
  "fs_write L B path buf offset fh ctx =
     (if fh \<noteq> 0 then do {
        (_, ctx) \<leftarrow> mtl_write L B ctx fh buf offset;
        Some (sint (word_of_nat (length buf) :: u32), ctx)
      } else Some (- ENOSYS, ctx))"

definition fs_unlink :: "'t mdb_ops \<Rightarrow> u64 \<times> u64 \<Rightarrow> bytes \<Rightarrow> ('t, 's) mtl_context \<Rightarrow>
    (int \<times> ('t, 's) mtl_context) option" where
  "fs_unlink L junk path ctx = do {
     (res, ctx) \<leftarrow> mtl_unlink L junk ctx path;
     if res \<noteq> MTL_SUCCESS then Some (- res, ctx) else Some (0, ctx)
   }"

definition fs_mkdir :: "'t mdb_ops \<Rightarrow> u32 \<Rightarrow> bytes \<Rightarrow> u32 \<Rightarrow> ('t, 's) mtl_context \<Rightarrow>
    (int \<times> ('t, 's) mtl_context) option" where
  "fs_mkdir L now path mode ctx = do {
     (res, ctx) \<leftarrow> mtl_mkdir L now ctx path mode;
     if res \<noteq> MTL_SUCCESS then Some (- res, ctx) else Some (0, ctx)
   }"

definition fs_rmdir :: "'t mdb_ops \<Rightarrow> bytes \<Rightarrow> ('t, 's) mtl_context \<Rightarrow> (int \<times> ('t, 's) mtl_context) option" where
  "fs_rmdir L path ctx = do {
     (res, ctx) \<leftarrow> mtl_rmdir L ctx path;
     if res \<noteq> MTL_SUCCESS then Some (- res, ctx) else Some (0, ctx)
   }"

definition fs_rename :: "'t mdb_ops \<Rightarrow> bytes \<Rightarrow> bytes \<Rightarrow> ('t, 's) mtl_context \<Rightarrow>
    (int \<times> ('t, 's) mtl_context) option" where
  "fs_rename L from_path to_path ctx = do {
     (res, ctx) \<leftarrow> mtl_rename L ctx from_path to_path;
     if res \<noteq> MTL_SUCCESS then Some (- res, ctx) else Some (0, ctx)
   }"

text \<open>
  The handler, with what the operations take from their surroundings: the store, the backend, the
  time, and the values of variables that are read before they are written.
\<close>

definition FilesystemFuseHandler ::
  "'t mdb_ops \<Rightarrow> ('t, 's) mtl_storage_backend \<Rightarrow> u32 \<Rightarrow> u64 \<times> u64 \<Rightarrow> ('t, 's) mtl_context fuse_handler" where
  "FilesystemFuseHandler L B now junk =
     \<lparr>fuse_chown = fs_chown L, fuse_create = fs_create L now, fuse_getattr = (\<lambda>path _. fs_getattr L path),
      fuse_mkdir = fs_mkdir L now, fuse_open = fs_open L, fuse_read = fs_read L B,
      fuse_readdir = fs_readdir L (fst junk), fuse_readlink = (\<lambda>path sz _. Some (fs_readlink path sz)),
      fuse_release = (\<lambda>path _. Some (fs_release path)), fuse_rename = fs_rename L, fuse_rmdir = fs_rmdir L,
      fuse_truncate = fs_truncate L, fuse_unlink = fs_unlink L junk, fuse_write = fs_write L B\<rparr>"

section \<open>Operators and socket\<close>

text \<open>\<open>binary\<close> is the placeholder program that the build embeds.\<close>

definition op_getattr :: "bytes list \<Rightarrow> bytes \<Rightarrow> bytes \<Rightarrow> stat \<Rightarrow> (int \<times> stat) option" where
  "op_getattr operators binary path stbuf =
     (if path = [] then Some (0, stbuf\<lparr>st_mode := S_IFDIR OR 0x1ED, st_nlink := 2\<rparr>)
      else if \<not> (length path > 1 \<and> path ! 0 = slash) then None
      else if drop 1 path \<in> set operators
      then Some (0, stat_zero\<lparr>st_mode := S_IFREG OR 0x49, st_uid := 0, st_gid := 0,
                      st_size := word_of_nat (length binary)\<rparr>)
      else Some (- ENOENT, stbuf))"

definition op_readdir :: "bytes list \<Rightarrow> bytes \<Rightarrow> int \<times> bytes list" where
  "op_readdir operators path = (0, [[46], [46, 46]] @ operators)"

text \<open>A read behind the end of the binary has no defined result.\<close>

definition op_read :: "bytes list \<Rightarrow> bytes \<Rightarrow> bytes \<Rightarrow> u64 \<Rightarrow> u64 \<Rightarrow> (int \<times> bytes) option" where
  "op_read operators binary path sz offset =
     (if \<not> (length path > 1 \<and> path ! 0 = slash) then None
      else if drop 1 path \<in> set operators then
        let readLength = min sz (word_of_nat (length binary) - offset)
        in if unat offset + unat readLength \<le> length binary
           then Some (sint (ucast readLength :: u32), take (unat readLength) (drop (unat offset) binary))
           else None
      else Some (- ENOSYS, []))"

definition OperatorFuseHandler :: "bytes list \<Rightarrow> bytes \<Rightarrow> 'h fuse_handler" where
  "OperatorFuseHandler operators binary =
     \<lparr>fuse_chown = (\<lambda>_ _ _ h. Some (- ENOSYS, h)), fuse_create = (\<lambda>_ _ fh h. Some (- ENOSYS, fh, h)),
      fuse_getattr = (\<lambda>path stbuf _. op_getattr operators binary path stbuf),
      fuse_mkdir = (\<lambda>_ _ h. Some (- ENOSYS, h)), fuse_open = (\<lambda>_ fh _. Some (- ENOSYS, fh)),
      fuse_read = (\<lambda>path sz offset h. do { (res, data) \<leftarrow> op_read operators binary path sz offset; Some (res, data, h) }),
      fuse_readdir = (\<lambda>path _. Some (op_readdir operators path)),
      fuse_readlink = (\<lambda>_ _ _. Some (- ENOENT, [])), fuse_release = (\<lambda>_ _. Some 0),
      fuse_rename = (\<lambda>_ _ h. Some (- ENOSYS, h)), fuse_rmdir = (\<lambda>_ h. Some (- ENOSYS, h)),
      fuse_truncate = (\<lambda>_ _ h. Some (- ENOSYS, h)), fuse_unlink = (\<lambda>_ h. Some (- ENOSYS, h)),
      fuse_write = (\<lambda>_ _ _ _ h. Some (- ENOSYS, h))\<rparr>"

definition socket_getattr :: "bytes \<Rightarrow> bytes \<Rightarrow> int \<times> stat" where
  "socket_getattr socket_name path =
     (if path = [] then (0, stat_zero\<lparr>st_mode := S_IFLNK OR 0x1FF, st_nlink := 1,
                              st_size := word_of_nat (length socket_name)\<rparr>)
      else (- ENOENT, stat_zero))"

definition socket_readlink :: "bytes \<Rightarrow> bytes \<Rightarrow> nat \<Rightarrow> int \<times> bytes" where
  "socket_readlink socket_name path sz =
     (if path = [] then (0, strncpy socket_name sz) else (- ENOENT, []))"

definition SocketFuseHandler :: "bytes \<Rightarrow> 'h fuse_handler" where
  "SocketFuseHandler socket_name =
     \<lparr>fuse_chown = (\<lambda>_ _ _ h. Some (- ENOSYS, h)), fuse_create = (\<lambda>_ _ fh h. Some (- ENOSYS, fh, h)),
      fuse_getattr = (\<lambda>path _ _. Some (socket_getattr socket_name path)),
      fuse_mkdir = (\<lambda>_ _ h. Some (- ENOSYS, h)), fuse_open = (\<lambda>_ fh _. Some (- ENOSYS, fh)),
      fuse_read = (\<lambda>_ _ _ h. Some (- ENOSYS, [], h)), fuse_readdir = (\<lambda>_ _. Some (- ENOSYS, [])),
      fuse_readlink = (\<lambda>path sz _. Some (socket_readlink socket_name path sz)),
      fuse_release = (\<lambda>_ _. Some 0), fuse_rename = (\<lambda>_ _ h. Some (- ENOSYS, h)),
      fuse_rmdir = (\<lambda>_ h. Some (- ENOSYS, h)), fuse_truncate = (\<lambda>_ _ h. Some (- ENOSYS, h)),
      fuse_unlink = (\<lambda>_ h. Some (- ENOSYS, h)), fuse_write = (\<lambda>_ _ _ _ h. Some (- ENOSYS, h))\<rparr>"

section \<open>Dispatch on prefixes\<close>

text \<open>
  The handlers of \<open>CombinedFuseHandler\<close> are a \<open>std::map\<close>: an association list in the order of its
  keys.  \<open>emplace\<close> keeps a handler that is already there.
\<close>

type_synonym 'h handlers = "(bytes \<times> 'h fuse_handler) list"

fun addHandler :: "bytes \<Rightarrow> 'h fuse_handler \<Rightarrow> 'h handlers \<Rightarrow> 'h handlers" where
  "addHandler p h [] = [(p, h)]"
| "addHandler p h ((q, g) # H) =
     (if p = q then (q, g) # H
      else if ord_class.lexordp p q then (p, h) # (q, g) # H
      else (q, g) # addHandler p h H)"

text \<open>\<open>path.rfind(prefix, 0) == 0\<close>: the path starts with the prefix.\<close>

definition resolveHandler :: "'h handlers \<Rightarrow> bytes \<Rightarrow> (bytes \<times> 'h fuse_handler) option" where
  "resolveHandler H path = find (\<lambda>(p, _). prefix p path) H"

definition combined_chown :: "'h handlers \<Rightarrow> bytes \<Rightarrow> u32 \<Rightarrow> u32 \<Rightarrow> 'h \<Rightarrow> (int \<times> 'h) option" where
  "combined_chown H path uid gid h =
     (case resolveHandler H path of
        None \<Rightarrow> Some (- ENOENT, h)
      | Some (p, f) \<Rightarrow> fuse_chown f (drop (length p) path) uid gid h)"

definition combined_getattr :: "'h handlers \<Rightarrow> bytes \<Rightarrow> stat \<Rightarrow> 'h \<Rightarrow> (int \<times> stat) option" where
  "combined_getattr H path stbuf h =
     (if path = [slash] then Some (0, stbuf\<lparr>st_mode := S_IFDIR OR 0x1ED, st_nlink := 2\<rparr>)
      else case resolveHandler H path of
        None \<Rightarrow> Some (- ENOENT, stbuf)
      | Some (p, f) \<Rightarrow> fuse_getattr f (drop (length p) path) stbuf h)"

definition combined_readdir :: "'h handlers \<Rightarrow> bytes \<Rightarrow> 'h \<Rightarrow> (int \<times> bytes list) option" where
  "combined_readdir H path h =
     (case resolveHandler H path of
        Some (p, f) \<Rightarrow>
          let subpath = drop (length p) path
          in fuse_readdir f (if subpath = [] then [slash] else subpath) h
      | None \<Rightarrow>
          if path = [slash] then Some (0, [[46], [46, 46]] @ map (\<lambda>(p, _). drop 1 p) H)
          else Some (0, []))"

definition combined_create :: "'h handlers \<Rightarrow> bytes \<Rightarrow> u32 \<Rightarrow> u64 \<Rightarrow> 'h \<Rightarrow> (int \<times> u64 \<times> 'h) option" where
  "combined_create H path mode fh h =
     (case resolveHandler H path of
        None \<Rightarrow> Some (- ENOSYS, fh, h)
      | Some (p, f) \<Rightarrow> fuse_create f (drop (length p) path) mode fh h)"

definition combined_readlink :: "'h handlers \<Rightarrow> bytes \<Rightarrow> nat \<Rightarrow> 'h \<Rightarrow> (int \<times> bytes) option" where
  "combined_readlink H path sz h =
     (case resolveHandler H path of
        None \<Rightarrow> Some (- ENOENT, [])
      | Some (p, f) \<Rightarrow> fuse_readlink f (drop (length p) path) sz h)"

definition combined_open :: "'h handlers \<Rightarrow> bytes \<Rightarrow> u64 \<Rightarrow> 'h \<Rightarrow> (int \<times> u64) option" where
  "combined_open H path fh h =
     (case resolveHandler H path of
        None \<Rightarrow> Some (- ENOENT, fh)
      | Some (p, f) \<Rightarrow> fuse_open f (drop (length p) path) fh h)"

definition combined_read :: "'h handlers \<Rightarrow> bytes \<Rightarrow> u64 \<Rightarrow> u64 \<Rightarrow> 'h \<Rightarrow> (int \<times> bytes \<times> 'h) option" where
  "combined_read H path sz offset h =
     (case resolveHandler H path of
        None \<Rightarrow> Some (- ENOENT, [], h)
      | Some (p, f) \<Rightarrow> fuse_read f (drop (length p) path) sz offset h)"

definition combined_release :: "'h handlers \<Rightarrow> bytes \<Rightarrow> 'h \<Rightarrow> int option" where
  "combined_release H path h =
     (case resolveHandler H path of
        None \<Rightarrow> Some (- ENOSYS)
      | Some (p, f) \<Rightarrow> fuse_release f (drop (length p) path) h)"

definition combined_truncate :: "'h handlers \<Rightarrow> bytes \<Rightarrow> u64 \<Rightarrow> 'h \<Rightarrow> (int \<times> 'h) option" where
  "combined_truncate H path sz h =
     (case resolveHandler H path of
        None \<Rightarrow> Some (- ENOENT, h)
      | Some (p, f) \<Rightarrow> fuse_truncate f (drop (length p) path) sz h)"

definition combined_write :: "'h handlers \<Rightarrow> bytes \<Rightarrow> bytes \<Rightarrow> u64 \<Rightarrow> u64 \<Rightarrow> 'h \<Rightarrow> (int \<times> 'h) option" where
  "combined_write H path buf offset fh h =
     (case resolveHandler H path of
        None \<Rightarrow> Some (- ENOENT, h)
      | Some (p, f) \<Rightarrow> fuse_write f (drop (length p) path) buf offset fh h)"

definition combined_unlink :: "'h handlers \<Rightarrow> bytes \<Rightarrow> 'h \<Rightarrow> (int \<times> 'h) option" where
  "combined_unlink H path h =
     (case resolveHandler H path of
        None \<Rightarrow> Some (- ENOENT, h)
      | Some (p, f) \<Rightarrow> fuse_unlink f (drop (length p) path) h)"

definition combined_mkdir :: "'h handlers \<Rightarrow> bytes \<Rightarrow> u32 \<Rightarrow> 'h \<Rightarrow> (int \<times> 'h) option" where
  "combined_mkdir H path mode h =
     (case resolveHandler H path of
        None \<Rightarrow> Some (- ENOSYS, h)
      | Some (p, f) \<Rightarrow> fuse_mkdir f (drop (length p) path) mode h)"

definition combined_rmdir :: "'h handlers \<Rightarrow> bytes \<Rightarrow> 'h \<Rightarrow> (int \<times> 'h) option" where
  "combined_rmdir H path h =
     (case resolveHandler H path of
        None \<Rightarrow> Some (- ENOENT, h)
      | Some (p, f) \<Rightarrow> fuse_rmdir f (drop (length p) path) h)"

definition combined_rename :: "'h handlers \<Rightarrow> bytes \<Rightarrow> bytes \<Rightarrow> 'h \<Rightarrow> (int \<times> 'h) option" where
  "combined_rename H from_path to_path h =
     (case resolveHandler H from_path of
        None \<Rightarrow> Some (- ENOENT, h)
      | Some (p, f) \<Rightarrow>
          if \<not> prefix p to_path then Some (- ENOSYS, h)
          else fuse_rename f (drop (length p) from_path) (drop (length p) to_path) h)"

text \<open>The operations table that \<open>createHandler\<close> fills: each entry calls the combined handler.\<close>

definition createHandler :: "'h handlers \<Rightarrow> 'h fuse_handler" where
  "createHandler H =
     \<lparr>fuse_chown = combined_chown H, fuse_create = combined_create H, fuse_getattr = combined_getattr H,
      fuse_mkdir = combined_mkdir H, fuse_open = combined_open H, fuse_read = combined_read H,
      fuse_readdir = combined_readdir H, fuse_readlink = combined_readlink H,
      fuse_release = combined_release H, fuse_rename = combined_rename H, fuse_rmdir = combined_rmdir H,
      fuse_truncate = combined_truncate H, fuse_unlink = combined_unlink H, fuse_write = combined_write H\<rparr>"

section \<open>Mounts\<close>

text \<open>
  The mounts of \<open>main\<close>.  Every file system has a context of its own: a handler over one of them is a
  handler over all of them.
\<close>

definition within :: "('g \<Rightarrow> 'h) \<Rightarrow> ('h \<Rightarrow> 'g \<Rightarrow> 'g) \<Rightarrow> 'h fuse_handler \<Rightarrow> 'g fuse_handler" where
  "within part put f =
     (let keep = (\<lambda>g. map_option (map_prod id (\<lambda>h. put h g)));
          keep2 = (\<lambda>g. map_option (map_prod id (map_prod id (\<lambda>h. put h g))));
          keep3 = (\<lambda>g. map_option (map_prod id (map_prod id (\<lambda>h. put h g))))
      in \<lparr>fuse_chown = (\<lambda>path uid gid g. keep g (fuse_chown f path uid gid (part g))),
          fuse_create = (\<lambda>path mode fh g. keep2 g (fuse_create f path mode fh (part g))),
          fuse_getattr = (\<lambda>path stbuf g. fuse_getattr f path stbuf (part g)),
          fuse_mkdir = (\<lambda>path mode g. keep g (fuse_mkdir f path mode (part g))),
          fuse_open = (\<lambda>path fh g. fuse_open f path fh (part g)),
          fuse_read = (\<lambda>path sz offset g. keep3 g (fuse_read f path sz offset (part g))),
          fuse_readdir = (\<lambda>path g. fuse_readdir f path (part g)),
          fuse_readlink = (\<lambda>path sz g. fuse_readlink f path sz (part g)),
          fuse_release = (\<lambda>path g. fuse_release f path (part g)),
          fuse_rename = (\<lambda>from_path to_path g. keep g (fuse_rename f from_path to_path (part g))),
          fuse_rmdir = (\<lambda>path g. keep g (fuse_rmdir f path (part g))),
          fuse_truncate = (\<lambda>path sz g. keep g (fuse_truncate f path sz (part g))),
          fuse_unlink = (\<lambda>path g. keep g (fuse_unlink f path (part g))),
          fuse_write = (\<lambda>path buf offset fh g. keep g (fuse_write f path buf offset fh (part g)))\<rparr>)"

definition in_memory_mounts ::
  "'t mdb_ops \<Rightarrow> ('t, 's) mtl_storage_backend \<Rightarrow> u32 \<Rightarrow> u64 \<times> u64 \<Rightarrow> ('t, 's) mtl_context handlers" where
  "in_memory_mounts L B now junk = addHandler (cstr ''/files'') (FilesystemFuseHandler L B now junk) []"

definition card_mounts ::
  "'t mdb_ops \<Rightarrow> ('t, 's) mtl_storage_backend \<Rightarrow> ('t, 's) mtl_storage_backend \<Rightarrow> u32 \<Rightarrow> u64 \<times> u64 \<Rightarrow>
   bytes \<Rightarrow> bytes list \<Rightarrow> bytes \<Rightarrow> bool \<Rightarrow> bool \<Rightarrow>
   (('t, 's) mtl_context \<times> ('t, 's) mtl_context) handlers" where
  "card_mounts L dram nvme now junk socketFilename operators binary isDRAMEnabled isNVMeEnabled =
     (let H = addHandler (cstr ''/operators'') (OperatorFuseHandler operators binary)
                (addHandler (cstr ''/.hello'') (SocketFuseHandler socketFilename) [])
      in if isDRAMEnabled then
           let H = addHandler (cstr ''/tmp'')
                     (within fst (\<lambda>c g. (c, snd g)) (FilesystemFuseHandler L dram now junk)) H
           in if isNVMeEnabled then
                addHandler (cstr ''/files'')
                  (within snd (\<lambda>c g. (fst g, c)) (FilesystemFuseHandler L nvme now junk)) H
              else H
         else H)"

end
