(* ===== verification/Fuse_Props.thy ===== *)
theory Fuse_Props
  imports Fuse
begin

text \<open>
  Properties of the FUSE handlers: how a path is dispatched on its prefix, that what is written
  through the operations table is read back through it, that a directory is listed with its names,
  and which paths make a call never return.
\<close>

section \<open>Dispatch\<close>

lemma resolveHandler_here [simp]: "resolveHandler ((p, f) # H) (p @ q) = Some (p, f)"
  by (simp add: resolveHandler_def)

lemma resolveHandler_skip [simp]:
  "\<not> prefix p path \<Longrightarrow> resolveHandler ((p, f) # H) path = resolveHandler H path"
  by (simp add: resolveHandler_def)

lemma resolveHandler_prefix: "resolveHandler H path = Some (p, f) \<Longrightarrow> prefix p path \<and> (p, f) \<in> set H"
  by (auto simp: resolveHandler_def find_Some_iff) (metis nth_mem)

text \<open>The map of handlers is sorted by its keys, and a key that is there keeps its handler.\<close>

abbreviation keys_sorted :: "'h handlers \<Rightarrow> bool" where
  "keys_sorted H \<equiv> sorted_wrt ord_class.lexordp (map fst H)"

lemma lexordp_cases: "p \<noteq> q \<Longrightarrow> \<not> ord_class.lexordp p q \<Longrightarrow> ord_class.lexordp q (p :: bytes)"
  using lexordp_linear [of p q] by blast

lemma addHandler_keys: "fst ` set (addHandler p f H) = insert p (fst ` set H)"
  by (induction p f H rule: addHandler.induct) auto

lemma addHandler_sorted: "keys_sorted H \<Longrightarrow> keys_sorted (addHandler p f H)"
proof (induction p f H rule: addHandler.induct)
  case (2 p f q g H)
  have "\<forall>x \<in> fst ` set (addHandler p f H). ord_class.lexordp q x"
    if "p \<noteq> q" "\<not> ord_class.lexordp p q"
    using 2(2) lexordp_cases [OF that] by (auto simp: addHandler_keys)
  then show ?case using 2 by (auto intro: lexordp_trans)
qed simp

lemma addHandler_map_of:
  assumes "keys_sorted H"
  shows "map_of (addHandler p f H) = (if p \<in> dom (map_of H) then map_of H else (map_of H)(p \<mapsto> f))"
  using assms
proof (induction p f H rule: addHandler.induct)
  case (2 p f q g H)
  have "p \<notin> dom (map_of H)" if "ord_class.lexordp p q"
  proof
    assume "p \<in> dom (map_of H)"
    then have "ord_class.lexordp q p" using 2(2) by (auto simp: dom_map_of_conv_image_fst)
    then show False using lexordp_antisym [OF that] by blast
  qed
  then show ?case using 2 by (auto simp: fun_eq_iff)
qed simp

section \<open>Paths that do not begin with a slash\<close>

lemma relative_open: "relative path \<Longrightarrow> mtl_open L ctx path = None"
  by (simp add: mtl_open_def relative_diverges)

text \<open>
  C29: the prefix of a mount is compared without the slash behind it.  If the path that follows the
  prefix of a file system is empty or does not begin with a slash (\<open>/files\<close> itself, \<open>/filesystem\<close>),
  opening, reading and truncating it never return, and neither does a change of its owner.
\<close>

theorem prefix_without_slash_diverges:
  assumes "resolveHandler H (p @ q) = Some (p, FilesystemFuseHandler L B now junk)" "relative q"
  shows "fuse_open (createHandler H) (p @ q) fh ctx = None \<and>
    fuse_read (createHandler H) (p @ q) sz off ctx = None \<and>
    fuse_truncate (createHandler H) (p @ q) sz ctx = None \<and>
    fuse_chown (createHandler H) (p @ q) uid gid ctx = None"
  using assms relative_open [OF assms(2), of L ctx] relative_diverges [OF assms(2), of L]
  by (simp add: createHandler_def combined_open_def combined_read_def combined_truncate_def
      combined_chown_def FilesystemFuseHandler_def fs_open_def fs_read_def fs_truncate_def fs_chown_def
      mtl_chown_def bind_eq_None_conv)

theorem prefix_without_slash_diverges_witness:
  "fuse_open (createHandler (in_memory_mounts ref_ops (in_memory_storage ref_ops (\<lambda>_. 0)) 0 (0, 0)))
     (cstr ''/filesystem'') 0 ex_ctx = None"
proof -
  have "cstr ''/filesystem'' = cstr ''/files'' @ cstr ''ystem''" "relative (cstr ''ystem'')"
    by (simp_all add: cstr_def relative_def slash_def)
  then show ?thesis
    using prefix_without_slash_diverges [of "in_memory_mounts ref_ops (in_memory_storage ref_ops (\<lambda>_. 0)) 0 (0, 0)"
        "cstr ''/files''" "cstr ''ystem''" ref_ops "in_memory_storage ref_ops (\<lambda>_. 0)" 0 "(0, 0)" 0 ex_ctx 0 0 0 0]
    by (simp only: in_memory_mounts_def addHandler.simps resolveHandler_here simp_thms)
qed

section \<open>Writing and reading through the operations table\<close>

lemma sint_small:
  "n < 134217728 \<Longrightarrow> sint (ucast (word_of_nat n :: u64) :: u32) = int n"
  "n < 134217728 \<Longrightarrow> sint (word_of_nat n :: u32) = int n"
  by (simp_all add: signed_ucast_eq signed_of_nat signed_take_bit_int_eq_self take_bit_nat_eq_self unsigned_of_nat)

text \<open>
  C15: a file of a mounted file system is opened, written and read back through the operations table
  that FUSE calls.  Opening a path below the prefix of the mount yields the inode the path leads to;
  \<open>fuse_write\<close> with this handle returns the size written, and \<open>fuse_read\<close> of the same range through
  the path returns all these bytes.
\<close>

theorem fuse_write_then_read:
  assumes "lmdb L" "list_all component_ok cs" "cs \<noteq> []"
    and "resolveHandler H (p @ path_of cs) =
      Some (p, FilesystemFuseHandler L (in_memory_storage L mem0) now junk)"
    and "reaches (inodes_of L (env_store (env ctx))) 0 cs f" "f \<noteq> 0"
    and "\<nexists>es. is_dir (inodes_of L (env_store (env ctx))) f es"
    and "writable L n ctx f fes len (unat off + length buf)"
    and "need fes (unat off + length buf) \<noteq> 0 \<or> unat off + length buf \<le> unat len"
  shows "\<exists>ctx' ctx''. fuse_open (createHandler H) (p @ path_of cs) fh ctx = Some (0, f) \<and>
    fuse_write (createHandler H) (p @ path_of cs) buf off f ctx = Some (int (length buf), ctx') \<and>
    fuse_read (createHandler H) (p @ path_of cs) (word_of_nat (length buf)) off ctx' =
      Some (int (length buf), buf, ctx'')"
proof -
  let ?I = "inodes_of L (env_store (env ctx))"
  have cap: "unat off + length buf < 134217728" using assms(8) by (auto simp: writable_def Let_def)
  obtain ctx' ctx'' where w: "mtl_write L (in_memory_storage L mem0) ctx f buf off = Some (MTL_SUCCESS, ctx')"
      "mtl_read L (in_memory_storage L mem0) ctx' f (word_of_nat (length buf)) off =
        Some (word_of_nat (length buf), buf, ctx'')"
      "\<forall>i. i \<noteq> f \<longrightarrow> inodes_of L (env_store (env ctx')) i = ?I i"
    using write_read_back [OF assms(1,8,9)] by blast
  have keep: "\<exists>es'. is_dir (inodes_of L (env_store (env ctx'))) d (es @ es')" if "is_dir ?I d es" for d es
  proof -
    have "d \<noteq> f" using that assms(7) by blast
    then show ?thesis using that w(3) by (intro exI [of _ "[]"]) (simp add: is_dir_def)
  qed
  note o = open_reaches [OF assms(1-3) assms(5)]
    and o' = open_reaches [OF assms(1-3) reaches_grow [OF assms(5) keep]]
  have s: "sint (ucast (word_of_nat (length buf) :: u64) :: u32) = int (length buf)"
    "sint (word_of_nat (length buf) :: u32) = int (length buf)"
    using sint_small [of "length buf"] cap by simp_all
  show ?thesis
    using assms(4,6) o o' w(1,2) s
    by (simp add: createHandler_def combined_open_def combined_write_def combined_read_def
        FilesystemFuseHandler_def fs_open_def fs_write_def fs_read_def del: path_of_simps)
qed

text \<open>A store with a root directory in which a name leads to a file.\<close>

definition fuse_db :: ref_db where
  "fuse_db = snd (mtl_put_inode ref_ops ex_db 0
     ((new_inode MTL_DIRECTORY (or 0x1ED S_IFDIR) 0)\<lparr>i_length := 17\<rparr>) (enc_dir [(cstr ''a'', 5)]))"

definition fuse_ctx :: "(ref_db, mem_storage) mtl_context" where
  "fuse_ctx = ex_ctx\<lparr>env := \<lparr>env_store = fuse_db, env_writer = False\<rparr>\<rparr>"

lemma fuse_db_view:
  "is_dir (inodes_of ref_ops fuse_db) 0 [(cstr ''a'', 5)]"
  "inodes_of ref_ops fuse_db 5 = Some (ex_inode 10, enc_extents ex_f)"
  "beside_inodes ref_ops fuse_db = beside_inodes ref_ops ex_db"
proof -
  let ?n = "(new_inode MTL_DIRECTORY (or 0x1ED S_IFDIR) 0)\<lparr>i_length := 17\<rparr>"
  let ?d = "enc_dir [(cstr ''a'', 5)]"
  obtain r t where t: "mtl_put_inode ref_ops ex_db 0 ?n ?d = (r, t)"
    by (cases "mtl_put_inode ref_ops ex_db 0 ?n ?d")
  have db: "fuse_db = t" using t by (simp add: fuse_db_def)
  note v = ref.put_inode [OF t]
  show "beside_inodes ref_ops fuse_db = beside_inodes ref_ops ex_db" using v(3) by (simp add: db)
  show "is_dir (inodes_of ref_ops fuse_db) 0 [(cstr ''a'', 5)]"
    using v(2) by (simp add: db is_dir_def names_ok_def cstr_def new_inode_def)
  have "inodes_of ref_ops ex_db 5 = Some (ex_inode 10, enc_extents ex_f)" by (rule ex_db_view(5))
  then show "inodes_of ref_ops fuse_db 5 = Some (ex_inode 10, enc_extents ex_f)"
    using v(2) by (simp add: db)
qed

lemma fuse_ctx_writable: "e \<le> 8192 \<Longrightarrow> writable ref_ops 10 fuse_ctx 5 ex_f 10 e"
  using ex_writable [of e] ref.beside_inodes_view [OF fuse_db_view(3)] fuse_db_view(2)
  by (simp add: writable_def fuse_ctx_def ex_ctx_def file_ok_def is_file_def ex_inode_def Let_def)

theorem fuse_write_then_read_witness:
  "\<exists>ctx' ctx''. let ops = createHandler (in_memory_mounts ref_ops (in_memory_storage ref_ops (\<lambda>_. 0)) 0 (0, 0))
     in fuse_write ops (cstr ''/files'' @ path_of [cstr ''a'']) [7, 8, 9] 4096 5 fuse_ctx = Some (3, ctx') \<and>
        fuse_read ops (cstr ''/files'' @ path_of [cstr ''a'']) 3 4096 ctx' = Some (3, [7, 8, 9], ctx'')"
proof -
  let ?B = "in_memory_storage ref_ops (\<lambda>_. 0)"
  let ?H = "in_memory_mounts ref_ops ?B 0 (0, 0)" and ?d = "[7, 8, 9] :: bytes"
  have st: "env_store (env fuse_ctx) = fuse_db" by (simp add: fuse_ctx_def)
  have r: "reaches (inodes_of ref_ops (env_store (env fuse_ctx))) 0 [cstr ''a''] 5"
    unfolding st using fuse_db_view(1) by (rule reaches.step) simp_all
  have nd: "\<nexists>es. is_dir (inodes_of ref_ops (env_store (env fuse_ctx))) 5 es"
    unfolding st using fuse_db_view(2) by (auto simp: is_dir_def ex_inode_def new_inode_def MTL_FILE_def MTL_DIRECTORY_def)
  have h: "resolveHandler ?H (cstr ''/files'' @ path_of [cstr ''a'']) =
      Some (cstr ''/files'', FilesystemFuseHandler ref_ops ?B 0 (0, 0))"
    by (simp only: in_memory_mounts_def addHandler.simps resolveHandler_here)
  have w: "writable ref_ops 10 fuse_ctx 5 ex_f 10 (unat (4096 :: u64) + length ?d)"
    using fuse_ctx_writable [of 4099] by simp
  have n: "need ex_f (unat (4096 :: u64) + length ?d) \<noteq> 0 \<or> unat (4096 :: u64) + length ?d \<le> unat (10 :: u64)"
    by (simp add: need_def ex_blocks)
  show ?thesis
    using fuse_write_then_read [OF ref.lmdb_axioms _ _ h r _ nd w n, of 0] dots_facts(4)
    by (auto simp: Let_def simp del: path_of_simps)
qed

section \<open>Listing a directory\<close>

text \<open>The listing of an encoded directory, from an entry on.\<close>

lemma readdir_step:
  assumes "names_ok (pre @ e # post)" "0 \<notin> set (fst e)" "unat len = length (enc_dir (pre @ e # post))"
  defines "dir \<equiv> \<lparr>dir_length = len, dir_first = enc_dir (pre @ e # post), dir_next = Some (length (enc_dir pre))\<rparr>"
  shows "\<exists>w. mtl_readdir dir 4096 = Some (MTL_SUCCESS, w, dir\<lparr>dir_next :=
      (if post = [] then None else Some (length (enc_dir (pre @ [e]))))\<rparr>) \<and>
    takeWhile (\<lambda>c. c \<noteq> 0) w = fst e"
proof -
  have l: "length (fst e) < 256" using assms(1) by simp
  note en = entry_at [OF l, of pre post]
  have d: "drop (length (enc_dir pre) + 16) (enc_dir (pre @ e # post)) = fst e @ enc_dir post"
    by (simp add: enc_head_def)
  have tw: "takeWhile (\<lambda>c. c \<noteq> 0) (fst e @ 0 # xs) = fst e" "takeWhile (\<lambda>c. c \<noteq> 0) (fst e) = fst e" for xs
    using assms(2) by (subst takeWhile_append2, auto simp: takeWhile_eq_all_conv)
  have nx: "length (enc_dir pre) + 16 + length (fst e) + 16 > unat len \<longleftrightarrow> post = []"
    using assms(1,3) by (cases post) auto
  have "strncpy (fst e @ enc_dir post) (min 4096 (length (fst e))) = fst e"
    using l tw(2) by (simp add: strncpy_def Let_def min_absorb2 del: takeWhile_eq_all_conv)
  then show ?thesis
    using en l d nx tw by (auto simp: mtl_readdir_def dir_def Let_def add.assoc)
qed

lemma readdir_all:
  assumes "names_ok (pre @ es)" "\<forall>e \<in> set es. 0 \<notin> set (fst e)" "unat len = length (enc_dir (pre @ es))" "es \<noteq> []"
  shows "readdir_loop \<lparr>dir_length = len, dir_first = enc_dir (pre @ es), dir_next = Some (length (enc_dir pre))\<rparr> =
    Some (map fst es)"
  using assms
proof (induction es arbitrary: pre)
  case (Cons e es)
  let ?dir = "\<lparr>dir_length = len, dir_first = enc_dir (pre @ e # es), dir_next = Some (length (enc_dir pre))\<rparr>"
  let ?nx = "?dir\<lparr>dir_next := (if es = [] then None else Some (length (enc_dir (pre @ [e]))))\<rparr>"
  obtain w where w: "mtl_readdir ?dir 4096 = Some (MTL_SUCCESS, w, ?nx)" "takeWhile (\<lambda>c. c \<noteq> 0) w = fst e"
    using readdir_step [OF Cons.prems(1) _ Cons.prems(3)] Cons.prems(2) by auto
  have "readdir_loop ?nx = Some (map fst es)"
  proof (cases "es = []")
    case True
    then show ?thesis by (subst readdir_loop.simps) (simp add: mtl_readdir_def)
  next
    case False
    then show ?thesis using Cons.IH [of "pre @ [e]"] Cons.prems by simp
  qed
  then show ?case using w by (subst readdir_loop.simps) simp
qed simp

text \<open>
  C28: listing a directory of a mounted file system through the operations table passes the names of
  its entries to the filler, in the order in which they are stored, and ends.
\<close>

theorem fuse_readdir_lists:
  assumes "lmdb L" "list_all component_ok cs"
    and "resolveHandler H (p @ path_of cs) = Some (p, FilesystemFuseHandler L B now junk)"
    and "reaches (inodes_of L (env_store (env ctx))) 0 cs d"
    and "is_dir (inodes_of L (env_store (env ctx))) d es" "es \<noteq> []" "\<forall>e \<in> set es. 0 \<notin> set (fst e)"
  shows "fuse_readdir (createHandler H) (p @ path_of cs) ctx = Some (0, map fst es)"
proof -
  let ?t = "env_store (env ctx)" and ?q = "if path_of cs = [] then [slash] else path_of cs"
  have r: "mtl_resolve_inode L ?t ?q = Some (MTL_SUCCESS, Some d)"
  proof (cases "cs = []")
    case True
    then show ?thesis using assms(4) by (simp add: resolve_inode_root)
  next
    case False
    then have "path_of cs \<noteq> []" using path_of_neq_Nil [OF assms(2)] by auto
    then show ?thesis
      using resolve_inode_walk [OF assms(2) False, of L ?t] lmdb.walk_reaches [OF assms(1,4)] by simp
  qed
  obtain i where i: "inodes_of L ?t d = Some (i, enc_dir es)" "unat (i_length i) = length (enc_dir es)"
      "names_ok es" using assms(5) by (auto simp: is_dir_def)
  have "mtl_opendir L (fst junk) ctx ?q =
      Some (MTL_SUCCESS, \<lparr>dir_length = i_length i, dir_first = enc_dir es, dir_next = Some 0\<rparr>)"
    using i(1,2) unfolding mtl_opendir_def mdb_txn_begin_rdonly_def r Let_def
    by (simp add: lmdb.load_inode_eq [OF assms(1)])
  then have "fs_readdir L (fst junk) ?q ctx = Some (0, map fst es)"
    using readdir_all [of "[]" es "i_length i"] i(2,3) assms(6,7) by (simp add: fs_readdir_def split del: if_split)
  moreover have "fuse_readdir (createHandler H) (p @ path_of cs) ctx = fs_readdir L (fst junk) ?q ctx"
    using assms(3) by (simp add: createHandler_def combined_readdir_def FilesystemFuseHandler_def Let_def
        del: path_of_simps)
  ultimately show ?thesis by simp
qed

theorem fuse_readdir_lists_witness:
  "fuse_readdir (createHandler (in_memory_mounts ref_ops (in_memory_storage ref_ops (\<lambda>_. 0)) 0 (0, 0)))
     (cstr ''/files'') fuse_ctx = Some (0, [cstr ''a''])"
proof -
  let ?B = "in_memory_storage ref_ops (\<lambda>_. 0)"
  have h: "resolveHandler (in_memory_mounts ref_ops ?B 0 (0, 0)) (cstr ''/files'' @ path_of []) =
      Some (cstr ''/files'', FilesystemFuseHandler ref_ops ?B 0 (0, 0))"
    by (simp only: in_memory_mounts_def addHandler.simps resolveHandler_here)
  have "is_dir (inodes_of ref_ops (env_store (env fuse_ctx))) 0 [(cstr ''a'', 5)]"
    using fuse_db_view(1) by (simp add: fuse_ctx_def)
  then show ?thesis
    using fuse_readdir_lists [OF ref.lmdb_axioms _ h reaches.here] by (auto simp: cstr_def)
qed

end
