(* ===== verification/Fpga_Base.thy ===== *)
theory Fpga_Base
  imports Metal_Prelude
begin

text \<open>
  The interface between host and FPGA (\<open>snap_action_metal.h\<close> on the FPGA side, the identical
  \<open>fpga_interface.hpp\<close> on the host side), and the byte order of memory lines (\<open>mtl_endian.h\<close>).

  A memory line is the 512-bit word \<open>snap_membus_t\<close> of the SNAP bus, 64 bytes, so that
  \<open>ADDR_RIGHT_SHIFT\<close> is 6; the documented layout of the \<open>Map\<close> job, whose extents start one line
  behind the slot number at 64-bit word 8, rests on that width.  Bit ranges \<open>x(hi, lo)\<close> of an
  \<open>ap_uint\<close> are \<open>get_range\<close> and \<open>set_range\<close>.
\<close>

unbundle bit_operations_syntax

section \<open>Job interface (snap\_action\_metal.h)\<close>

datatype JobType =
    ReadImageInfo | Map | ConfigureStreams | ResetPerfmon | ConfigurePerfmon
  | ReadPerfmonCounters | RunOperators | ConfigureOperator

datatype ExtmapSlot = CardDRAMRead | CardDRAMWrite | NVMeRead | NVMeWrite

datatype AddressType = Host | CardDRAM | NVMe | Null | Random

datatype MapType = MapNone | MapDRAM | MapNVMe | MapDRAMAndNVMe

record Address =
  a_addr :: u64
  a_size :: u32
  a_type :: AddressType
  a_map :: MapType

definition ActionType :: u32 where "ActionType = 0xFB060001"
definition StorageBlockSizeD :: nat where [simp]: "StorageBlockSizeD = 18"
definition StorageBlockSize :: u64 where [simp]: "StorageBlockSize = 0x40000"
definition PagefileSize :: u64 where [simp]: "PagefileSize = 128 * StorageBlockSize"
definition MaxExtentsPerFile :: nat where [simp]: "MaxExtentsPerFile = 512"

fun slot_code :: "ExtmapSlot \<Rightarrow> u64" where
  "slot_code CardDRAMRead = 0"
| "slot_code CardDRAMWrite = 1"
| "slot_code NVMeRead = 2"
| "slot_code NVMeWrite = 3"

text \<open>\<open>static_cast<ExtmapSlot>\<close> of a number that no enumerator has is the \<open>default\<close> of a switch.\<close>

definition slot_of_code :: "u64 \<Rightarrow> ExtmapSlot option" where
  "slot_of_code c =
     (if c = 0 then Some CardDRAMRead else if c = 1 then Some CardDRAMWrite
      else if c = 2 then Some NVMeRead else if c = 3 then Some NVMeWrite else None)"

lemma slot_of_code_code [simp]: "slot_of_code (slot_code s) = Some s"
  by (cases s) (simp_all add: slot_of_code_def)

section \<open>Bit ranges of \<open>ap\_uint\<close>\<close>

definition get_range :: "'a::len word \<Rightarrow> nat \<Rightarrow> nat \<Rightarrow> 'b::len word" where
  "get_range w hi lo = ucast (take_bit (Suc hi - lo) (drop_bit lo w))"

definition set_range :: "'a::len word \<Rightarrow> nat \<Rightarrow> nat \<Rightarrow> 'b::len word \<Rightarrow> 'a word" where
  "set_range w hi lo v =
     (w AND NOT (push_bit lo (mask (Suc hi - lo)))) OR push_bit lo (take_bit (Suc hi - lo) (ucast v))"

lemma bit_get_range:
  fixes w :: "'a::len word"
  shows "bit (get_range w hi lo :: 'b::len word) n \<longleftrightarrow>
    n < LENGTH('b) \<and> n < Suc hi - lo \<and> bit w (lo + n)"
  unfolding get_range_def by (auto simp: bit_simps dest: bit_imp_le_length)

lemma bit_set_range:
  fixes w :: "'a::len word" and v :: "'b::len word"
  shows "bit (set_range w hi lo v) n \<longleftrightarrow>
    (if lo \<le> n \<and> n < Suc hi then n < LENGTH('a) \<and> bit v (n - lo) else bit w n)"
  unfolding set_range_def by (auto simp: bit_simps dest: bit_imp_le_length)

lemma ucast_of_unat: "(ucast w :: 'b::len word) = word_of_nat (unat (w :: 'a::len word))"
  by (metis ucast_eq word_of_int_uint uint_nat of_int_of_nat_eq unsigned_def)

section \<open>Memory lines\<close>

type_synonym membus = "512 word"
type_synonym membus_mem = "u64 \<Rightarrow> membus"

definition MFB_ADDRESS :: "u64 \<Rightarrow> u64" where
  "MFB_ADDRESS a = drop_bit 6 a"

definition MFB_INCREMENT :: u64 where [simp]: "MFB_INCREMENT = 64"

definition mtl_get64be :: "membus \<Rightarrow> nat \<Rightarrow> u64" where
  "mtl_get64be busline lowest_byte =
     (let o_bit = 8 * lowest_byte; pattern = (get_range busline (o_bit + 63) o_bit :: u64) in
        push_bit 56 (get_range pattern 7 0) + push_bit 48 (get_range pattern 15 8)
      + push_bit 40 (get_range pattern 23 16) + push_bit 32 (get_range pattern 31 24)
      + push_bit 24 (get_range pattern 39 32) + push_bit 16 (get_range pattern 47 40)
      + push_bit 8 (get_range pattern 55 48) + push_bit 0 (get_range pattern 63 56))"

definition mtl_get32be :: "membus \<Rightarrow> nat \<Rightarrow> u32" where
  "mtl_get32be busline lowest_byte =
     (let o_bit = 8 * lowest_byte; pattern = (get_range busline (o_bit + 31) o_bit :: u32) in
        push_bit 24 (get_range pattern 7 0) + push_bit 16 (get_range pattern 15 8)
      + push_bit 8 (get_range pattern 23 16) + push_bit 0 (get_range pattern 31 24))"

definition mtl_set64be :: "membus \<Rightarrow> nat \<Rightarrow> u64 \<Rightarrow> membus" where
  "mtl_set64be busline lowest_byte v =
     (let p0 = (0 :: u64);
          p1 = set_range p0 7 0 (drop_bit 56 v);
          p2 = set_range p1 15 8 (drop_bit 48 v);
          p3 = set_range p2 23 16 (drop_bit 40 v);
          p4 = set_range p3 31 24 (drop_bit 32 v);
          p5 = set_range p4 39 32 (drop_bit 24 v);
          p6 = set_range p5 47 40 (drop_bit 16 v);
          p7 = set_range p6 55 48 (drop_bit 8 v);
          pattern = set_range p7 63 56 (drop_bit 0 v);
          o_bit = 8 * lowest_byte
      in set_range busline (o_bit + 63) o_bit pattern)"

definition mtl_set32be :: "membus \<Rightarrow> nat \<Rightarrow> u32 \<Rightarrow> membus" where
  "mtl_set32be busline lowest_byte v =
     (let p0 = (0 :: u32);
          p1 = set_range p0 7 0 (drop_bit 24 v);
          p2 = set_range p1 15 8 (drop_bit 16 v);
          p3 = set_range p2 23 16 (drop_bit 8 v);
          pattern = set_range p3 31 24 (drop_bit 0 v);
          o_bit = 8 * lowest_byte
      in set_range busline (o_bit + 31) o_bit pattern)"

text \<open>The byte at an offset of a line, and the line that 64 bytes of host memory make.\<close>

definition line_byte :: "membus \<Rightarrow> nat \<Rightarrow> u8" where
  "line_byte w i = ucast (drop_bit (8 * i) w)"

definition line_of :: "bytes \<Rightarrow> membus" where
  "line_of bs = word_of_nat (le_val (take 64 bs))"


lemma unat_drop_bit_bytes: "unat (drop_bit (8 * i) (w :: 'a::len word)) = unat w div 256 ^ i"
proof -
  have "(256 :: nat) ^ i = 2 ^ (8 * i)" by (simp add: power_mult)
  moreover have "unat w < 2 ^ LENGTH('a)" using unsigned_less [of w] by simp
  ultimately show ?thesis by (simp add: unsigned_drop_bit_eq drop_bit_nat_def take_bit_nat_eq_self)
qed

lemma line_byte_unat: "line_byte w i = word_of_nat (unat w div 256 ^ i)"
  by (simp only: line_byte_def ucast_of_unat unat_drop_bit_bytes)

text \<open>The bytes of a line after writing \<open>n\<close> bytes of a word at a byte offset.\<close>

lemma line_byte_set_range:
  fixes v :: "'b::len word"
  assumes "k + n \<le> 64" "i < 64" "hi + 1 = 8 * k + 8 * n"
  shows "line_byte (set_range line hi (8 * k) v) i =
    (if k \<le> i \<and> i < k + n then ucast (drop_bit (8 * (i - k)) v) else line_byte line i)"
proof (rule bit_word_eqI)
  fix b assume b: "b < LENGTH(8)"
  have "8 * i + b - 8 * k = 8 * (i - k) + b" if "k \<le> i" using that by simp
  with b assms show "bit (line_byte (set_range line hi (8 * k) v) i) b =
      bit (if k \<le> i \<and> i < k + n then ucast (drop_bit (8 * (i - k)) v) else line_byte line i) b"
    by (auto simp: line_byte_def bit_ucast_iff bit_drop_bit_eq bit_set_range)
qed

lemma le_bytes_nth: "i < n \<Longrightarrow> le_bytes n x ! i = word_of_nat (x div 256 ^ i)"
proof (induction n arbitrary: x i)
  case (Suc n)
  then show ?case by (cases i) (simp_all add: div_mult2_eq)
qed simp

lemma line_byte_line_of:
  assumes "i < 64" "length bs \<ge> 64"
  shows "line_byte (line_of bs) i = bs ! i"
proof -
  let ?bs = "take 64 bs"
  have len: "length ?bs = 64" using assms by simp
  then have "le_val ?bs < 256 ^ 64" using le_val_bound [of ?bs] by simp
  then have "unat (line_of bs) = le_val ?bs" by (simp add: line_of_def unat_of_nat)
  then have "line_byte (line_of bs) i = le_bytes 64 (le_val ?bs) ! i"
    using assms by (simp add: line_byte_unat le_bytes_nth)
  also have "\<dots> = ?bs ! i" using le_bytes_le_val [of ?bs] len by simp
  finally show ?thesis using assms by simp
qed

lemma get_range_byte:
  fixes w :: "'a::len word"
  assumes "hi = lo + 7" "8 * i + lo + 7 < 512" "lo mod 8 = 0"
    and "\<And>n. n < 8 \<Longrightarrow> bit w (lo + n) = bit line (8 * i + lo + n)"
  shows "(get_range w hi lo :: 'b::len word) = ucast (line_byte line (i + lo div 8))"
proof (rule bit_word_eqI)
  fix n assume n: "n < LENGTH('b)"
  have "8 * (i + lo div 8) = 8 * i + lo" using assms(3) by presburger
  with n assms show "bit (get_range w hi lo :: 'b word) n = bit (ucast (line_byte line (i + lo div 8)) :: 'b word) n"
    by (auto simp: bit_get_range line_byte_def bit_simps ac_simps)
qed

lemma be64_sum:
  fixes a b c d e f g h :: u8
  shows "push_bit 56 (ucast a) + push_bit 48 (ucast b) + push_bit 40 (ucast c) + push_bit 32 (ucast d)
    + push_bit 24 (ucast e) + push_bit 16 (ucast f) + push_bit 8 (ucast g) + push_bit 0 (ucast h)
    = dec64 [h, g, f, e, d, c, b, a]"
proof -
  have t: "take 8 [h, g, f, e, d, c, b, a] = [h, g, f, e, d, c, b, a]" by simp
  show ?thesis
    unfolding dec64_def t le_val.simps of_nat_add of_nat_mult ucast_of_unat push_bit_eq_mult
    by (simp add: distrib_left mult.assoc [symmetric])
qed

lemma be32_sum:
  fixes a b c d :: u8
  shows "push_bit 24 (ucast a) + push_bit 16 (ucast b) + push_bit 8 (ucast c) + push_bit 0 (ucast d)
    = dec32 [d, c, b, a]"
proof -
  have t: "take 4 [d, c, b, a] = [d, c, b, a]" by simp
  show ?thesis
    unfolding dec32_def t le_val.simps of_nat_add of_nat_mult ucast_of_unat push_bit_eq_mult
    by (simp add: distrib_left mult.assoc [symmetric])
qed

lemma mtl_get64be_bytes:
  assumes "k + 8 \<le> 64"
  shows "mtl_get64be line k = dec64 (rev (map (line_byte line) [k..<k + 8]))"
proof -
  let ?p = "get_range line (8 * k + 63) (8 * k) :: u64"
  have b: "bit ?p n = bit line (8 * k + n)" if "n < 64" for n
    using that by (simp add: bit_get_range)
  have r: "(get_range ?p hi lo :: u64) = ucast (line_byte line (k + lo div 8))"
    if "lo \<in> {0, 8, 16, 24, 32, 40, 48, 56}" "hi = lo + 7" for hi lo
    by (rule get_range_byte) (use that assms in \<open>auto intro!: b simp: add.assoc\<close>)
  have u: "[k..<k + 8] = [k, k+1, k+2, k+3, k+4, k+5, k+6, k+7]"
    by (simp add: upt_rec numeral_eq_Suc)
  show ?thesis
    unfolding mtl_get64be_def Let_def u list.map rev.simps append.simps be64_sum [symmetric]
    by (simp add: r del: push_bit_numeral)
qed

lemma mtl_get32be_bytes:
  assumes "k + 4 \<le> 64"
  shows "mtl_get32be line k = dec32 (rev (map (line_byte line) [k..<k + 4]))"
proof -
  let ?p = "get_range line (8 * k + 31) (8 * k) :: u32"
  have b: "bit ?p n = bit line (8 * k + n)" if "n < 32" for n
    using that by (simp add: bit_get_range)
  have r: "(get_range ?p hi lo :: u32) = ucast (line_byte line (k + lo div 8))"
    if "lo \<in> {0, 8, 16, 24}" "hi = lo + 7" for hi lo
    by (rule get_range_byte) (use that assms in \<open>auto intro!: b simp: add.assoc\<close>)
  have u: "[k..<k + 4] = [k, k+1, k+2, k+3]"
    by (simp add: upt_rec numeral_eq_Suc)
  show ?thesis
    unfolding mtl_get32be_def Let_def u list.map rev.simps append.simps be32_sum [symmetric]
    by (simp add: r del: push_bit_numeral)
qed

definition be64_byte :: "u64 \<Rightarrow> nat \<Rightarrow> u8" where
  "be64_byte v j = ucast (drop_bit (56 - 8 * j) v)"

lemma bit_be64_pattern:
  assumes "j < 8" "n < 8"
  shows "bit (set_range (set_range (set_range (set_range (set_range (set_range (set_range (set_range
      (0 :: u64) 7 0 (drop_bit 56 v)) 15 8 (drop_bit 48 v)) 23 16 (drop_bit 40 v)) 31 24 (drop_bit 32 v))
      39 32 (drop_bit 24 v)) 47 40 (drop_bit 16 v)) 55 48 (drop_bit 8 v)) 63 56 (drop_bit 0 (v :: u64)))
      (8 * j + n) = bit (be64_byte v j) n"
proof -
  consider "j = 0" | "j = 1" | "j = 2" | "j = 3" | "j = 4" | "j = 5" | "j = 6" | "j = 7"
    using assms(1) by linarith
  then show ?thesis
    by cases (use assms(2) in \<open>simp_all add: bit_set_range bit_drop_bit_eq be64_byte_def bit_ucast_iff\<close>)
qed

lemma line_byte_set64be:
  assumes "k + 8 \<le> 64" "i < 64"
  shows "line_byte (mtl_set64be line k v) i =
    (if k \<le> i \<and> i < k + 8 then be64_byte v (i - k) else line_byte line i)"
proof (rule bit_word_eqI)
  fix n assume n: "n < LENGTH(8)"
  show "bit (line_byte (mtl_set64be line k v) i) n =
    bit (if k \<le> i \<and> i < k + 8 then be64_byte v (i - k) else line_byte line i) n"
  proof (cases "k \<le> i \<and> i < k + 8")
    case True
    then have "8 * i + n - 8 * k = 8 * (i - k) + n" "i - k < 8" by auto
    with True n assms show ?thesis
      by (simp add: mtl_set64be_def line_byte_def bit_ucast_iff bit_drop_bit_eq
          bit_set_range [of line] bit_be64_pattern Let_def del: drop_bit_0)
  next
    case False
    with n assms show ?thesis
      by (auto simp add: mtl_set64be_def line_byte_def bit_ucast_iff bit_drop_bit_eq
          bit_set_range [of line] Let_def)
  qed
qed

definition be32_byte :: "u32 \<Rightarrow> nat \<Rightarrow> u8" where
  "be32_byte v j = ucast (drop_bit (24 - 8 * j) v)"

lemma bit_be32_pattern:
  assumes "j < 4" "n < 8"
  shows "bit (set_range (set_range (set_range (set_range
      (0 :: u32) 7 0 (drop_bit 24 v)) 15 8 (drop_bit 16 v)) 23 16 (drop_bit 8 v)) 31 24 (drop_bit 0 (v :: u32)))
      (8 * j + n) = bit (be32_byte v j) n"
proof -
  consider "j = 0" | "j = 1" | "j = 2" | "j = 3"
    using assms(1) by linarith
  then show ?thesis
    by cases (use assms(2) in \<open>simp_all add: bit_set_range bit_drop_bit_eq be32_byte_def bit_ucast_iff\<close>)
qed

lemma line_byte_set32be:
  assumes "k + 4 \<le> 64" "i < 64"
  shows "line_byte (mtl_set32be line k v) i =
    (if k \<le> i \<and> i < k + 4 then be32_byte v (i - k) else line_byte line i)"
proof (rule bit_word_eqI)
  fix n assume n: "n < LENGTH(8)"
  show "bit (line_byte (mtl_set32be line k v) i) n =
    bit (if k \<le> i \<and> i < k + 4 then be32_byte v (i - k) else line_byte line i) n"
  proof (cases "k \<le> i \<and> i < k + 4")
    case True
    then have "8 * i + n - 8 * k = 8 * (i - k) + n" "i - k < 4" by auto
    with True n assms show ?thesis
      by (simp add: mtl_set32be_def line_byte_def bit_ucast_iff bit_drop_bit_eq
          bit_set_range [of line] bit_be32_pattern Let_def del: drop_bit_0)
  next
    case False
    with n assms show ?thesis
      by (auto simp add: mtl_set32be_def line_byte_def bit_ucast_iff bit_drop_bit_eq
          bit_set_range [of line] Let_def)
  qed
qed

text \<open>\<open>htobe64\<close> and \<open>htobe32\<close> of the little-endian host: the most significant byte comes first.\<close>

definition htobe64 :: "u64 \<Rightarrow> bytes" where
  "htobe64 v = rev (enc64 v)"

definition htobe32 :: "u32 \<Rightarrow> bytes" where
  "htobe32 v = rev (enc32 v)"

lemma length_htobe [simp]: "length (htobe64 v) = 8" "length (htobe32 w) = 4"
  by (simp_all add: htobe64_def htobe32_def)

lemma ucast_drop_bit: "(ucast (drop_bit (8 * i) (w :: 'a::len word)) :: u8) = word_of_nat (unat w div 256 ^ i)"
  by (simp only: ucast_of_unat unat_drop_bit_bytes)

lemma htobe64_nth: "j < 8 \<Longrightarrow> htobe64 v ! j = be64_byte v j"
proof -
  assume j: "j < 8"
  then have "56 - 8 * j = 8 * (7 - j)" by auto
  with j show ?thesis
    by (simp add: htobe64_def be64_byte_def rev_nth enc64_def le_bytes_nth ucast_drop_bit del: unsigned_drop_bit_eq)
qed

lemma htobe32_nth: "j < 4 \<Longrightarrow> htobe32 v ! j = be32_byte v j"
proof -
  assume j: "j < 4"
  then have "24 - 8 * j = 8 * (3 - j)" by auto
  with j show ?thesis
    by (simp add: htobe32_def be32_byte_def rev_nth enc32_def le_bytes_nth ucast_drop_bit)
qed

text \<open>The 64 bits at an offset of a line are \<open>v\<close> when its eight bytes are those of \<open>htobe64 v\<close>.\<close>

lemma mtl_get64be_eqI:
  assumes "k + 8 \<le> 64" "\<And>j. j < 8 \<Longrightarrow> line_byte line (k + j) = htobe64 v ! j"
  shows "mtl_get64be line k = v"
proof -
  have "map (line_byte line) [k..<k + 8] = htobe64 v"
    by (rule nth_equalityI) (use assms in simp_all)
  then show ?thesis using assms(1) by (simp add: mtl_get64be_bytes htobe64_def)
qed

lemma mtl_get32be_eqI:
  assumes "k + 4 \<le> 64" "\<And>j. j < 4 \<Longrightarrow> line_byte line (k + j) = htobe32 v ! j"
  shows "mtl_get32be line k = v"
proof -
  have "map (line_byte line) [k..<k + 4] = htobe32 v"
    by (rule nth_equalityI) (use assms in simp_all)
  then show ?thesis using assms(1) by (simp add: mtl_get32be_bytes htobe32_def)
qed

lemma mtl_get64be_cong:
  assumes "k + 8 \<le> 64" "\<And>j. j < 8 \<Longrightarrow> line_byte line (k + j) = line_byte line' (k + j)"
  shows "mtl_get64be line k = mtl_get64be line' k"
proof -
  have "map (line_byte line) [k..<k + 8] = map (line_byte line') [k..<k + 8]"
    by (rule nth_equalityI) (use assms in simp_all)
  then show ?thesis by (simp only: mtl_get64be_bytes [OF assms(1)])
qed

text \<open>
  \<open>mtl\_get64\<close> reads back what \<open>mtl\_set64\<close> wrote at the same byte offset of a line, reads
  what was there before at an offset whose eight bytes do not overlap, and \<open>mtl\_get32\<close> reads
  back what \<open>mtl\_set32\<close> wrote.
\<close>
theorem get_set_be:
  assumes "k + 8 \<le> 64" "l + 8 \<le> k \<or> k + 8 \<le> l" "l + 8 \<le> 64" "m + 4 \<le> 64"
  shows "mtl_get64be (mtl_set64be line k v) k = v
    \<and> mtl_get64be (mtl_set64be line k v) l = mtl_get64be line l
    \<and> mtl_get32be (mtl_set32be line m w) m = w"
proof (intro conjI)
  show "mtl_get64be (mtl_set64be line k v) k = v"
    by (rule mtl_get64be_eqI) (use assms in \<open>simp_all add: line_byte_set64be htobe64_nth\<close>)
  show "mtl_get64be (mtl_set64be line k v) l = mtl_get64be line l"
    by (rule mtl_get64be_cong) (use assms in \<open>auto simp: line_byte_set64be\<close>)
  show "mtl_get32be (mtl_set32be line m w) m = w"
    by (rule mtl_get32be_eqI) (use assms in \<open>simp_all add: line_byte_set32be htobe32_nth\<close>)
qed

theorem get_set_be_witness:
  "mtl_get64be (mtl_set64be 7 8 0x1122334455667788) 8 = 0x1122334455667788
    \<and> mtl_get64be (mtl_set64be 7 8 0x1122334455667788) 0 = mtl_get64be 7 0
    \<and> mtl_get32be (mtl_set32be 7 60 0xdeadbeef) 60 = 0xdeadbeef"
  by (rule get_set_be) simp_all

section \<open>Host memory that the FPGA reads\<close>

text \<open>The bytes \<open>bs\<close> lie in memory from the line of \<open>ja\<close> on.\<close>

definition holds :: "membus_mem \<Rightarrow> u64 \<Rightarrow> bytes \<Rightarrow> bool" where
  "holds mem ja bs \<longleftrightarrow>
     (\<forall>k < length bs. line_byte (mem (MFB_ADDRESS ja + word_of_nat (k div 64))) (k mod 64) = bs ! k)"

lemma holds_byte:
  assumes "holds mem ja bs" "64 * q + k < length bs" "k < 64"
  shows "line_byte (mem (MFB_ADDRESS ja + word_of_nat q)) k = bs ! (64 * q + k)"
proof -
  have "(64 * q + k) div 64 = q" "(64 * q + k) mod 64 = k" using assms(3) by simp_all
  then show ?thesis using assms(1,2) unfolding holds_def by metis
qed

lemma holds_get64:
  assumes "holds mem ja bs" "64 * q + k + 8 \<le> length bs" "k + 8 \<le> 64"
    and "take 8 (drop (64 * q + k) bs) = htobe64 v"
  shows "mtl_get64be (mem (MFB_ADDRESS ja + word_of_nat q)) k = v"
proof (rule mtl_get64be_eqI)
  fix j :: nat assume j: "j < 8"
  have "htobe64 v ! j = bs ! (64 * q + (k + j))"
    using assms(2,4) j by (metis add.assoc add_leD1 nth_drop nth_take)
  then show "line_byte (mem (MFB_ADDRESS ja + word_of_nat q)) (k + j) = htobe64 v ! j"
    using holds_byte [OF assms(1), of q "k + j"] assms(2,3) j by simp
qed (rule assms)

lemma holds_get32:
  assumes "holds mem ja bs" "64 * q + k + 4 \<le> length bs" "k + 4 \<le> 64"
    and "take 4 (drop (64 * q + k) bs) = htobe32 v"
  shows "mtl_get32be (mem (MFB_ADDRESS ja + word_of_nat q)) k = v"
proof (rule mtl_get32be_eqI)
  fix j :: nat assume j: "j < 4"
  have "htobe32 v ! j = bs ! (64 * q + (k + j))"
    using assms(2,4) j by (metis add.assoc add_leD1 nth_drop nth_take)
  then show "line_byte (mem (MFB_ADDRESS ja + word_of_nat q)) (k + j) = htobe32 v ! j"
    using holds_byte [OF assms(1), of q "k + j"] assms(2,3) j by simp
qed (rule assms)

text \<open>A memory that holds given bytes.\<close>

definition host_mem :: "u64 \<Rightarrow> bytes \<Rightarrow> membus_mem" where
  "host_mem ja bs l = line_of (take 64 (drop (64 * unat (l - MFB_ADDRESS ja)) bs @ replicate 64 0))"

lemma holds_host_mem: "length bs \<le> 2 ^ 32 \<Longrightarrow> holds (host_mem ja bs) ja bs"
proof (unfold holds_def, intro allI impI)
  fix k assume l: "length bs \<le> 2 ^ 32" and k: "k < length bs"
  have "k div 64 < 2 ^ 64" using l k by (intro le_less_trans [OF div_le_dividend]) simp
  then have u: "unat (word_of_nat (k div 64) :: u64) = k div 64" by (simp add: unat_of_nat)
  let ?xs = "take 64 (drop (64 * (k div 64)) bs @ replicate 64 0)"
  have "64 * (k div 64) + k mod 64 < length bs" using k by simp
  then have "k mod 64 < length bs - 64 * (k div 64)" by linarith
  then have "?xs ! (k mod 64) = bs ! k" by (simp add: nth_append)
  then show "line_byte (host_mem ja bs (MFB_ADDRESS ja + word_of_nat (k div 64))) (k mod 64) = bs ! k"
    by (simp add: host_mem_def u line_byte_line_of)
qed

text \<open>The 32-bit word at a byte offset of a line, as the host stores it.\<close>

lemma line_word:
  assumes "m + 4 \<le> 64"
  shows "(get_range (drop_bit (8 * m) line) 31 0 :: u32) = dec32 (map (line_byte line) [m..<m + 4])"
proof -
  have "(get_range (drop_bit (8 * m) line) 31 0 :: u32) = ucast (drop_bit (8 * m) line)"
    by (rule bit_word_eqI) (simp add: bit_get_range bit_simps)
  then have g: "(get_range (drop_bit (8 * m) line) 31 0 :: u32) = word_of_nat (unat line div 256 ^ m)"
    by (simp only: ucast_of_unat unat_drop_bit_bytes)
  have b: "map (line_byte line) [m..<m + 4] = le_bytes 4 (unat line div 256 ^ m)"
    by (rule nth_equalityI) (simp_all add: le_bytes_nth line_byte_unat power_add div_mult2_eq)
  have "dec32 (le_bytes 4 y) = word_of_nat y" for y
    by (simp add: dec32_def le_val_le_bytes word_of_nat_eq_iff take_bit_nat_def)
  then show ?thesis by (simp only: g b)
qed

end
