(* ===== verification/Extmap.thy ===== *)
theory Extmap
  imports Fpga_Base Storage
begin

text \<open>
  The extent maps of the FPGA (\<open>mtl_extmap.cpp\<close>): a file's extent list, loaded from host memory by
  the \<open>Map\<close> job, and a cursor that translates logical to physical block numbers.
\<close>

section \<open>Operations\<close>

type_synonym u9 = "9 word"
type_synonym u10 = "10 word"

record mtl_extmap =
  current_extent :: u9
  current_pblock :: u64
  extents_begin :: "u64 list"
  extents_count :: "u64 list"
  extents_nextlblock :: "u64 list"

text \<open>The zero-initialised static maps of \<open>mtl_op_mem.cpp\<close>.\<close>

definition extmap_zero :: mtl_extmap where
  "extmap_zero = \<lparr>current_extent = 0, current_pblock = 0,
     extents_begin = replicate MaxExtentsPerFile 0, extents_count = replicate MaxExtentsPerFile 0,
     extents_nextlblock = replicate MaxExtentsPerFile 0\<rparr>"

definition mtl_extmap_firstlblock :: "mtl_extmap \<Rightarrow> nat \<Rightarrow> u64" where
  "mtl_extmap_firstlblock M extent =
     (if extent = 0 then 0 else extents_nextlblock M ! (extent - 1))"

definition load_step ::
  "membus_mem \<Rightarrow> nat \<Rightarrow> u64 \<times> membus \<times> u64 \<times> mtl_extmap \<Rightarrow> u64 \<times> membus \<times> u64 \<times> mtl_extmap" where
  "load_step mem i_extent = (\<lambda>(line_address, line, last_block, M).
     let o_line_extent = (ucast ((word_of_nat i_extent :: u10) AND 7) :: 2 word);
         (line, line_address) =
           (if o_line_extent = 0 then (mem (MFB_ADDRESS line_address), line_address + MFB_INCREMENT)
            else (line, line_address));
         begin = mtl_get64be line 0;
         count = mtl_get64be line 8;
         last_block = last_block + count;
         M = M\<lparr>extents_begin := (extents_begin M)[i_extent := begin],
               extents_count := (extents_count M)[i_extent := count],
               extents_nextlblock := (extents_nextlblock M)[i_extent := last_block]\<rparr>;
         line = drop_bit ((8 + 8) * 8) line
     in (line_address, line, last_block, M))"

definition mtl_extmap_load :: "mtl_extmap \<Rightarrow> u64 \<Rightarrow> membus_mem \<Rightarrow> mtl_extmap" where
  "mtl_extmap_load M extent_address mem =
     (let (_, _, _, M) = fold (load_step mem) [0..<MaxExtentsPerFile] (extent_address, 0, 0, M)
      in M\<lparr>current_extent := 0, current_pblock := extents_begin M ! 0\<rparr>)"

fun seek_from :: "mtl_extmap \<Rightarrow> u64 \<Rightarrow> nat list \<Rightarrow> bool \<times> mtl_extmap" where
  "seek_from M lblock [] = (False, M)"
| "seek_from M lblock (i_extent # is) =
     (let extent_begin = mtl_extmap_firstlblock M i_extent;
          extent_end = extents_nextlblock M ! i_extent
      in if extent_begin \<le> lblock \<and> lblock < extent_end then
           let offset = lblock - extent_begin; base = extents_begin M ! i_extent
           in (True, M\<lparr>current_pblock := base + offset, current_extent := word_of_nat i_extent\<rparr>)
         else seek_from M lblock is)"

definition mtl_extmap_seek :: "mtl_extmap \<Rightarrow> u64 \<Rightarrow> bool \<times> mtl_extmap" where
  "mtl_extmap_seek M lblock = seek_from M lblock [0..<MaxExtentsPerFile]"

definition mtl_extmap_next :: "mtl_extmap \<Rightarrow> mtl_extmap" where
  "mtl_extmap_next M =
     (let boffset = current_pblock M - extents_begin M ! unat (current_extent M)
      in if boffset < extents_count M ! unat (current_extent M)
         then M\<lparr>current_pblock := current_pblock M + 1\<rparr>
         else M\<lparr>current_extent := current_extent M + 1,
                current_pblock := extents_begin M ! unat (current_extent M + 1)\<rparr>)"

definition mtl_extmap_pblock :: "mtl_extmap \<Rightarrow> u64" where
  "mtl_extmap_pblock M = current_pblock M"

definition mtl_extmap_extent :: "mtl_extmap \<Rightarrow> u9" where
  "mtl_extmap_extent M = current_extent M"

section \<open>What a loaded map holds\<close>

definition nth_or0 :: "u64 list \<Rightarrow> nat \<Rightarrow> u64" where
  "nth_or0 xs i = (if i < length xs then xs ! i else 0)"

text \<open>The map describes the first \<open>n\<close> extents of a file; past its end the extents are empty.\<close>

definition extmap_upto :: "nat \<Rightarrow> mtl_extmap \<Rightarrow> mtl_file_extent list \<Rightarrow> bool" where
  "extmap_upto n M fes \<longleftrightarrow>
     length (extents_begin M) = MaxExtentsPerFile \<and> length (extents_count M) = MaxExtentsPerFile \<and>
     length (extents_nextlblock M) = MaxExtentsPerFile \<and>
     (\<forall>i < n. extents_begin M ! i = nth_or0 (map fe_offset fes) i \<and>
              extents_count M ! i = nth_or0 (map fe_length fes) i \<and>
              extents_nextlblock M ! i = word_of_nat (length (blocks_of (take (Suc i) fes))))"

abbreviation extmap_ok :: "mtl_extmap \<Rightarrow> mtl_file_extent list \<Rightarrow> bool" where
  "extmap_ok \<equiv> extmap_upto MaxExtentsPerFile"

text \<open>The 64-bit words of the extent at index \<open>i\<close> of a list in host memory, four to a line.\<close>

definition ext_word :: "membus_mem \<Rightarrow> u64 \<Rightarrow> nat \<Rightarrow> nat \<Rightarrow> u64" where
  "ext_word mem ea i k =
     mtl_get64be (mem (MFB_ADDRESS (ea + word_of_nat (64 * (i div 4))))) (16 * (i mod 4) + k)"

definition ext_mem :: "membus_mem \<Rightarrow> u64 \<Rightarrow> mtl_file_extent list \<Rightarrow> bool" where
  "ext_mem mem ea fes \<longleftrightarrow>
     (\<forall>i < MaxExtentsPerFile. ext_word mem ea i 0 = nth_or0 (map fe_offset fes) i \<and>
                              ext_word mem ea i 8 = nth_or0 (map fe_length fes) i)"

lemma o_line_extent_zero:
  "i < 512 \<Longrightarrow> (ucast ((word_of_nat i :: u10) AND 7) :: 2 word) = 0 \<longleftrightarrow> i mod 4 = 0"
proof -
  assume i: "i < 512"
  have "(ucast ((word_of_nat i :: u10) AND 7) :: 2 word) = ucast (word_of_nat i :: u10)"
    by (intro bit_word_eqI) (auto simp: bit_simps less_2_cases_iff)
  also have "\<dots> = word_of_nat i" using i by (simp add: ucast_of_unat unat_of_nat)
  finally show ?thesis by (simp add: word_of_nat_eq_0_iff dvd_eq_mod_eq_0)
qed

lemma line_byte_drop_bit: "line_byte (drop_bit (8 * m) line) i = line_byte line (m + i)"
  by (rule bit_word_eqI) (simp add: line_byte_def bit_simps algebra_simps)

lemma mtl_get64be_drop_bit:
  assumes "16 * j + k + 8 \<le> 64"
  shows "mtl_get64be (drop_bit (128 * j) line) k = mtl_get64be line (16 * j + k)"
proof -
  have "128 * j = 8 * (16 * j)" by simp
  then have "map (line_byte (drop_bit (128 * j) line)) [k..<k + 8] =
      map (line_byte line) [16 * j + k..<16 * j + k + 8]"
    by (intro nth_equalityI) (simp_all only: line_byte_drop_bit length_map length_upt nth_map nth_upt, simp_all add: add.assoc)
  then show ?thesis using assms by (simp only: mtl_get64be_bytes)
qed

text \<open>The state of the loading loop before extent \<open>n\<close>.\<close>

definition load_inv ::
  "membus_mem \<Rightarrow> u64 \<Rightarrow> mtl_file_extent list \<Rightarrow> nat \<Rightarrow> u64 \<times> membus \<times> u64 \<times> mtl_extmap \<Rightarrow> bool" where
  "load_inv mem ea fes n = (\<lambda>(line_address, line, last_block, M).
     line_address = ea + word_of_nat (64 * ((n + 3) div 4)) \<and>
     (n mod 4 \<noteq> 0 \<longrightarrow>
        line = drop_bit (128 * (n mod 4)) (mem (MFB_ADDRESS (ea + word_of_nat (64 * (n div 4)))))) \<and>
     last_block = word_of_nat (length (blocks_of (take n fes))) \<and> extmap_upto n M fes)"

lemma div4_add: "((4 * q + r) div 4 :: nat) = q + r div 4" "((4 * q + r) mod 4 :: nat) = r mod 4"
  by simp_all

lemma div4_cases:
  "(n :: nat) mod 4 = 0 \<Longrightarrow> (n + 3) div 4 = n div 4 \<and> (Suc n + 3) div 4 = Suc (n div 4)"
  "n mod 4 \<noteq> 0 \<Longrightarrow> (n + 3) div 4 = Suc (n div 4) \<and> (Suc n + 3) div 4 = Suc (n div 4)"
  "Suc n mod 4 \<noteq> 0 \<Longrightarrow> Suc n mod 4 = Suc (n mod 4) \<and> Suc n div 4 = n div 4"
proof -
  define q r where "q = n div 4" and "r = n mod 4"
  have n: "n = 4 * q + r" and "r < 4" by (simp_all add: q_def r_def)
  have r: "r = 0 \<or> r = 1 \<or> r = 2 \<or> r = 3" using \<open>r < 4\<close> by linarith
  have n3: "n + 3 = 4 * q + (r + 3)" "Suc n + 3 = 4 * q + (r + 4)" "Suc n = 4 * q + Suc r" using n by simp_all
  show "n mod 4 = 0 \<Longrightarrow> (n + 3) div 4 = n div 4 \<and> (Suc n + 3) div 4 = Suc (n div 4)"
    using r unfolding n3 div4_add by (auto simp: r_def [symmetric] q_def [symmetric])
  show "n mod 4 \<noteq> 0 \<Longrightarrow> (n + 3) div 4 = Suc (n div 4) \<and> (Suc n + 3) div 4 = Suc (n div 4)"
    using r unfolding n3 div4_add by (auto simp: r_def [symmetric] q_def [symmetric])
  show "Suc n mod 4 \<noteq> 0 \<Longrightarrow> Suc n mod 4 = Suc (n mod 4) \<and> Suc n div 4 = n div 4"
    using r unfolding n3(3) div4_add by (auto simp: r_def [symmetric] q_def [symmetric])
qed

lemma take_Suc_blocks:
  "word_of_nat (length (blocks_of (take n fes))) + nth_or0 (map fe_length fes) n =
     (word_of_nat (length (blocks_of (take (Suc n) fes))) :: u64)"
  by (cases "n < length fes") (simp_all add: nth_or0_def take_Suc_conv_app_nth)

lemma extmap_upto_Suc:
  assumes "extmap_upto n M fes" "n < 512"
  shows "extmap_upto (Suc n) (M\<lparr>extents_begin := (extents_begin M)[n := nth_or0 (map fe_offset fes) n],
      extents_count := (extents_count M)[n := nth_or0 (map fe_length fes) n],
      extents_nextlblock := (extents_nextlblock M)[n := word_of_nat (length (blocks_of (take (Suc n) fes)))]\<rparr>) fes"
  using assms unfolding extmap_upto_def by (simp add: less_Suc_eq nth_list_update)

lemma load_step_inv:
  assumes mem: "ext_mem mem ea fes" and n: "n < 512" and inv: "load_inv mem ea fes n s"
  shows "load_inv mem ea fes (Suc n) (load_step mem n s)"
proof -
  obtain la line lb M where s: "s = (la, line, lb, M)" by (cases s)
  let ?L = "mem (MFB_ADDRESS (ea + word_of_nat (64 * (n div 4))))"
  let ?line = "drop_bit (128 * (n mod 4)) ?L"
  have la: "la = ea + word_of_nat (64 * ((n + 3) div 4))"
    and line: "n mod 4 \<noteq> 0 \<Longrightarrow> line = ?line"
    and lb: "lb = word_of_nat (length (blocks_of (take n fes)))" and M: "extmap_upto n M fes"
    using inv by (auto simp: load_inv_def s)
  have g: "mtl_get64be ?line 0 = nth_or0 (map fe_offset fes) n"
    "mtl_get64be ?line 8 = nth_or0 (map fe_length fes) n"
    using mem n mtl_get64be_drop_bit [of "n mod 4" 0 ?L] mtl_get64be_drop_bit [of "n mod 4" 8 ?L]
    by (simp_all add: ext_mem_def ext_word_def)
  have next_line: "drop_bit 128 ?line = drop_bit (128 * Suc (n mod 4)) ?L" by simp
  have "load_step mem n s =
     (ea + word_of_nat (64 * ((Suc n + 3) div 4)), drop_bit (128 * Suc (n mod 4)) ?L,
      word_of_nat (length (blocks_of (take (Suc n) fes))),
      M\<lparr>extents_begin := (extents_begin M)[n := nth_or0 (map fe_offset fes) n],
        extents_count := (extents_count M)[n := nth_or0 (map fe_length fes) n],
        extents_nextlblock := (extents_nextlblock M)[n := word_of_nat (length (blocks_of (take (Suc n) fes)))]\<rparr>)"
  proof (cases "n mod 4 = 0")
    case True
    then have "la = ea + word_of_nat (64 * (n div 4))"
      "la + 64 = ea + word_of_nat (64 * ((Suc n + 3) div 4))"
      using div4_cases(1) [OF True] by (simp_all add: la algebra_simps del: div_mult_self1)
    then show ?thesis using True g
      by (simp add: load_step_def s Let_def o_line_extent_zero [OF n] lb take_Suc_blocks)
  next
    case False
    then show ?thesis using div4_cases(2) [OF False] g next_line
      by (simp add: load_step_def s Let_def o_line_extent_zero [OF n] la lb line take_Suc_blocks del: drop_bit_drop_bit)
  qed
  then show ?thesis
    using div4_cases(3) [of n] extmap_upto_Suc [OF M n] by (auto simp: load_inv_def)
qed

lemma load_fold_inv:
  assumes mem: "ext_mem mem ea fes" and "n \<le> 512"
    and len: "length (extents_begin M) = 512" "length (extents_count M) = 512"
      "length (extents_nextlblock M) = 512"
  shows "load_inv mem ea fes n (fold (load_step mem) [0..<n] (ea, 0, 0, M))"
  using \<open>n \<le> 512\<close>
proof (induction n)
  case 0
  show ?case using len by (simp add: load_inv_def extmap_upto_def)
next
  case (Suc n)
  then show ?case using load_step_inv [OF mem] by simp
qed

definition extmap_sized :: "mtl_extmap \<Rightarrow> bool" where
  "extmap_sized M \<longleftrightarrow> length (extents_begin M) = MaxExtentsPerFile \<and>
     length (extents_count M) = MaxExtentsPerFile \<and> length (extents_nextlblock M) = MaxExtentsPerFile"

lemma extmap_zero_sized [simp]: "extmap_sized extmap_zero"
  by (simp add: extmap_sized_def extmap_zero_def)

lemma mtl_extmap_load_ok:
  assumes "ext_mem mem ea fes" "extmap_sized M"
  shows "extmap_ok (mtl_extmap_load M ea mem) fes \<and> current_extent (mtl_extmap_load M ea mem) = 0
    \<and> mtl_extmap_pblock (mtl_extmap_load M ea mem) = nth_or0 (map fe_offset fes) 0"
proof -
  obtain la line lb M' where f: "fold (load_step mem) [0..<512] (ea, 0, 0, M) = (la, line, lb, M')"
    by (metis prod_cases4)
  then have "load_inv mem ea fes 512 (la, line, lb, M')"
    using load_fold_inv [of mem ea fes 512 M] assms by (simp add: extmap_sized_def)
  then have "extmap_upto 512 M' fes" by (simp add: load_inv_def)
  moreover have "extents_begin M' ! 0 = nth_or0 (map fe_offset fes) 0"
    using \<open>extmap_upto 512 M' fes\<close> unfolding extmap_upto_def by simp
  ultimately show ?thesis
    using f by (simp add: mtl_extmap_load_def extmap_upto_def mtl_extmap_pblock_def)
qed

section \<open>Translating block numbers\<close>

text \<open>Extents whose block numbers are 64-bit numbers.\<close>

definition ext_fit :: "mtl_file_extent list \<Rightarrow> bool" where
  "ext_fit fes \<longleftrightarrow> length fes \<le> MaxExtentsPerFile \<and> length (blocks_of fes) < 2 ^ 64 \<and>
     (\<forall>fe \<in> set fes. unat (fe_offset fe) + unat (fe_length fe) \<le> 2 ^ 64)"

text \<open>The cursor stands on the \<open>m\<close>-th block of the \<open>i\<close>-th extent.\<close>

definition cursor_at :: "mtl_extmap \<Rightarrow> mtl_file_extent list \<Rightarrow> nat \<Rightarrow> nat \<Rightarrow> bool" where
  "cursor_at M fes i m \<longleftrightarrow> extmap_ok M fes \<and> i < length fes \<and> m < unat (fe_length (fes ! i)) \<and>
     unat (current_extent M) = i \<and> current_pblock M = fe_offset (fes ! i) + word_of_nat m"

lemma extmap_ok_nth:
  assumes "extmap_ok M fes" "i < 512"
  shows "extents_begin M ! i = nth_or0 (map fe_offset fes) i"
    "extents_count M ! i = nth_or0 (map fe_length fes) i"
    "extents_nextlblock M ! i = word_of_nat (length (blocks_of (take (Suc i) fes)))"
  using assms by (simp_all add: extmap_upto_def)

lemma extmap_ok_update [simp]:
  "extmap_upto n (M\<lparr>current_pblock := p\<rparr>) fes = extmap_upto n M fes"
  "extmap_upto n (M\<lparr>current_extent := x\<rparr>) fes = extmap_upto n M fes"
  by (simp_all add: extmap_upto_def)

lemma length_blocks_of_take: "length (blocks_of (take i fes)) \<le> length (blocks_of fes)"
proof -
  have "blocks_of fes = blocks_of (take i fes) @ blocks_of (drop i fes)"
    by (metis append_take_drop_id blocks_of_simps(3))
  then show ?thesis by simp
qed

lemma firstlblock_unat:
  assumes "extmap_ok M fes" "ext_fit fes" "i < 512"
  shows "unat (mtl_extmap_firstlblock M i) = length (blocks_of (take i fes))"
proof (cases i)
  case 0
  then show ?thesis by (simp add: mtl_extmap_firstlblock_def)
next
  case (Suc j)
  then have "extents_nextlblock M ! j = word_of_nat (length (blocks_of (take i fes)))"
    using extmap_ok_nth(3) [OF assms(1), of j] assms(3) by simp
  moreover have "length (blocks_of (take i fes)) < 2 ^ 64"
    using length_blocks_of_take [of i fes] assms(2) by (simp add: ext_fit_def)
  ultimately show ?thesis using Suc by (simp add: mtl_extmap_firstlblock_def unat_of_nat)
qed

lemma nextlblock_unat:
  assumes "extmap_ok M fes" "ext_fit fes" "i < 512"
  shows "unat (extents_nextlblock M ! i) = length (blocks_of (take (Suc i) fes))"
proof -
  have "length (blocks_of (take (Suc i) fes)) < 2 ^ 64"
    using length_blocks_of_take [of "Suc i" fes] assms(2) by (simp add: ext_fit_def)
  then show ?thesis using extmap_ok_nth(3) [OF assms(1,3)] by (simp add: unat_of_nat)
qed

lemma cursor_at_pblock:
  assumes "cursor_at M fes i m" "ext_fit fes"
  shows "unat (mtl_extmap_pblock M) = blocks_of fes ! (length (blocks_of (take i fes)) + m)"
    "length (blocks_of (take i fes)) + m < length (blocks_of fes)"
proof -
  have i: "i < length fes" "m < unat (fe_length (fes ! i))"
    and p: "current_pblock M = fe_offset (fes ! i) + word_of_nat m"
    using assms(1) by (auto simp: cursor_at_def)
  have f: "unat (fe_offset (fes ! i)) + unat (fe_length (fes ! i)) \<le> 2 ^ 64"
    using assms(2) i(1) by (simp add: ext_fit_def)
  then have "unat (word_of_nat m :: u64) = m" using i(2) by (simp add: unat_of_nat)
  then have "unat (current_pblock M) = unat (fe_offset (fes ! i)) + m"
    using f i(2) by (simp add: p unat_add_exact)
  then show "unat (mtl_extmap_pblock M) = blocks_of fes ! (length (blocks_of (take i fes)) + m)"
    using blocks_of_take(3) [OF i] by (simp add: mtl_extmap_pblock_def)
  show "length (blocks_of (take i fes)) + m < length (blocks_of fes)"
    using blocks_of_take(2) [OF i(1)] i(2) by linarith
qed

lemma seek_hit:
  assumes M: "extmap_ok M fes" and fit: "ext_fit fes" and n: "n < 512"
    and le: "length (blocks_of (take n fes)) \<le> unat lb"
    and lt: "unat lb < length (blocks_of (take (Suc n) fes))"
  shows "cursor_at (M\<lparr>current_pblock := extents_begin M ! n + (lb - mtl_extmap_firstlblock M n),
      current_extent := word_of_nat n\<rparr>) fes n (unat lb - length (blocks_of (take n fes)))"
proof -
  have nl: "n < length fes" using le lt by (cases "n < length fes") auto
  then have "unat lb - length (blocks_of (take n fes)) < unat (fe_length (fes ! n))"
    using blocks_of_take(1) [OF nl] le lt by linarith
  moreover have d: "unat (lb - mtl_extmap_firstlblock M n) = unat lb - length (blocks_of (take n fes))"
    using firstlblock_unat [OF M fit n] le by (simp add: unat_sub_exact)
  have "lb - mtl_extmap_firstlblock M n = word_of_nat (unat lb - length (blocks_of (take n fes)))"
    by (simp only: d [symmetric] word_of_nat_unat)
  ultimately show ?thesis
    using M n nl extmap_ok_nth(1) [OF M n] by (simp add: cursor_at_def nth_or0_def unat_of_nat)
qed

lemma seek_from_spec:
  assumes M: "extmap_ok M fes" and fit: "ext_fit fes" and "n \<le> 512"
    and "length (blocks_of (take n fes)) \<le> unat lb"
  shows "if unat lb < length (blocks_of fes)
    then \<exists>i m x p. seek_from M lb [n..<512] = (True, M\<lparr>current_pblock := p, current_extent := x\<rparr>)
           \<and> cursor_at (M\<lparr>current_pblock := p, current_extent := x\<rparr>) fes i m
           \<and> length (blocks_of (take i fes)) + m = unat lb
    else seek_from M lb [n..<512] = (False, M)"
  using assms(3,4)
proof (induction "512 - n" arbitrary: n)
  case 0
  then have "take n fes = fes" using fit by (simp add: ext_fit_def)
  with 0 show ?case by simp
next
  case (Suc k)
  then have n: "n < 512" by simp
  have u: "[n..<512] = n # [Suc n..<512]" using n by (rule upt_conv_Cons)
  have hit: "mtl_extmap_firstlblock M n \<le> lb \<and> lb < extents_nextlblock M ! n \<longleftrightarrow>
      unat lb < length (blocks_of (take (Suc n) fes))"
    using Suc.prems(2) firstlblock_unat [OF M fit n] nextlblock_unat [OF M fit n]
    by (simp add: word_le_nat_alt word_less_nat_alt)
  show ?case
  proof (cases "unat lb < length (blocks_of (take (Suc n) fes))")
    case True
    then have "unat lb < length (blocks_of fes)"
      using length_blocks_of_take [of "Suc n" fes] by linarith
    then show ?thesis
      using seek_hit [OF M fit n Suc.prems(2) True] True hit Suc.prems(2)
      by (simp add: u Let_def) (metis le_add_diff_inverse)
  next
    case False
    then have "seek_from M lb [n..<512] = seek_from M lb [Suc n..<512]" using hit by (auto simp: u Let_def)
    then show ?thesis using Suc.hyps(1) [of "Suc n"] Suc.hyps(2) False n by simp
  qed
qed

lemma seek_finds:
  assumes "extmap_ok M fes" "ext_fit fes" "unat lb < length (blocks_of fes)"
  shows "fst (mtl_extmap_seek M lb)
    \<and> unat (mtl_extmap_pblock (snd (mtl_extmap_seek M lb))) = blocks_of fes ! unat lb
    \<and> extmap_ok (snd (mtl_extmap_seek M lb)) fes"
proof -
  obtain i m M' where "mtl_extmap_seek M lb = (True, M')" "cursor_at M' fes i m"
      "length (blocks_of (take i fes)) + m = unat lb"
    using seek_from_spec [OF assms(1,2), of 0 lb] assms(3) by (auto simp: mtl_extmap_seek_def)
  then show ?thesis using cursor_at_pblock(1) [of M' fes i m] assms(2) by (simp add: cursor_at_def)
qed

text \<open>
  C19: with the extents of a file in the map, \<open>mtl\_extmap\_seek\<close> finds a logical block of the file
  and moves the cursor to the physical block that the file's extent list gives it, the same that
  the file system's own read and write use; it fails exactly for a block past the end of the
  file, and then it leaves the map as it is.
\<close>
theorem seek_translates:
  assumes "extmap_ok M fes" "ext_fit fes"
  shows "if unat lb < length (blocks_of fes)
    then fst (mtl_extmap_seek M lb)
       \<and> unat (mtl_extmap_pblock (snd (mtl_extmap_seek M lb))) = blocks_of fes ! unat lb
       \<and> extmap_ok (snd (mtl_extmap_seek M lb)) fes
    else mtl_extmap_seek M lb = (False, M)"
proof (cases "unat lb < length (blocks_of fes)")
  case True
  then show ?thesis using seek_finds [OF assms True] by simp
next
  case False
  then show ?thesis using seek_from_spec [OF assms, of 0 lb] by (simp add: mtl_extmap_seek_def)
qed

text \<open>A map that holds a given extent list, for the concrete instances below.\<close>

definition extmap_of :: "mtl_file_extent list \<Rightarrow> mtl_extmap" where
  "extmap_of fes = \<lparr>current_extent = 0, current_pblock = nth_or0 (map fe_offset fes) 0,
     extents_begin = map (nth_or0 (map fe_offset fes)) [0..<512],
     extents_count = map (nth_or0 (map fe_length fes)) [0..<512],
     extents_nextlblock = map (\<lambda>i. word_of_nat (length (blocks_of (take (Suc i) fes)))) [0..<512]\<rparr>"

lemma extmap_of_ok [simp]: "n \<le> 512 \<Longrightarrow> extmap_upto n (extmap_of fes) fes"
  by (simp add: extmap_upto_def extmap_of_def)

theorem seek_translates_witness:
  "fst (mtl_extmap_seek (extmap_of [\<lparr>fe_offset = 5, fe_length = 2\<rparr>, \<lparr>fe_offset = 9, fe_length = 3\<rparr>]) 3)
   \<and> unat (mtl_extmap_pblock (snd (mtl_extmap_seek
       (extmap_of [\<lparr>fe_offset = 5, fe_length = 2\<rparr>, \<lparr>fe_offset = 9, fe_length = 3\<rparr>]) 3))) = 10"
proof -
  have b: "blocks_of [\<lparr>fe_offset = 5, fe_length = 2\<rparr>, \<lparr>fe_offset = 9, fe_length = 3\<rparr>] = [5, 6, 9, 10, 11]"
    by (simp add: upt_rec)
  then show ?thesis
    using seek_translates [of "extmap_of [\<lparr>fe_offset = 5, fe_length = 2\<rparr>, \<lparr>fe_offset = 9, fe_length = 3\<rparr>]"
        "[\<lparr>fe_offset = 5, fe_length = 2\<rparr>, \<lparr>fe_offset = 9, fe_length = 3\<rparr>]" 3]
    by (simp add: ext_fit_def)
qed

lemma cursor_offset:
  assumes "cursor_at M fes i m" "ext_fit fes"
  shows "current_pblock M - extents_begin M ! unat (current_extent M) = word_of_nat m"
    "extents_count M ! unat (current_extent M) = fe_length (fes ! i)"
    "word_of_nat m < fe_length (fes ! i)"
proof -
  have i: "i < length fes" "unat (current_extent M) = i" "extmap_ok M fes" "m < unat (fe_length (fes ! i))"
    and p: "current_pblock M = fe_offset (fes ! i) + word_of_nat m"
    using assms(1) by (auto simp: cursor_at_def)
  have "i < 512" using i(1) assms(2) by (simp add: ext_fit_def)
  then have n: "extents_begin M ! i = fe_offset (fes ! i)" "extents_count M ! i = fe_length (fes ! i)"
    using extmap_ok_nth [OF i(3), of i] i(1) by (simp_all add: nth_or0_def)
  show "current_pblock M - extents_begin M ! unat (current_extent M) = word_of_nat m"
    "extents_count M ! unat (current_extent M) = fe_length (fes ! i)"
    using n i(2) by (simp_all add: p)
  have "m < 2 ^ 64" using i(4) unat_u64_bound [of "fe_length (fes ! i)"] by (simp del: unat_u64_bound)
  then show "word_of_nat m < fe_length (fes ! i)"
    using i(4) by (simp add: word_less_nat_alt unat_of_nat)
qed

lemma next_stays:
  assumes "cursor_at M fes i m" "ext_fit fes"
  shows "mtl_extmap_next M = M\<lparr>current_pblock := current_pblock M + 1\<rparr>"
  using cursor_offset [OF assms] by (simp add: mtl_extmap_next_def)

lemma next_in_extent:
  assumes "cursor_at M fes i m" "ext_fit fes" "Suc m < unat (fe_length (fes ! i))"
  shows "cursor_at (mtl_extmap_next M) fes i (Suc m)"
  using assms(1,3) next_stays [OF assms(1,2)] by (simp add: cursor_at_def algebra_simps)

text \<open>
  \<open>mtl\_extmap\_next\<close> moves to the next block as long as the extent has one; on the last block
  of an extent it does not move to the next extent but to the block behind the extent, which is
  not the file's, because it compares the offset of the current block, not of the next one, with
  the number of blocks.
\<close>
theorem next_overruns_extent:
  assumes "cursor_at M fes i m" "ext_fit fes"
  shows "(Suc m < unat (fe_length (fes ! i)) \<longrightarrow> cursor_at (mtl_extmap_next M) fes i (Suc m))
    \<and> (Suc m = unat (fe_length (fes ! i)) \<longrightarrow>
         mtl_extmap_extent (mtl_extmap_next M) = mtl_extmap_extent M
         \<and> mtl_extmap_pblock (mtl_extmap_next M) = fe_offset (fes ! i) + fe_length (fes ! i))"
proof (intro conjI impI)
  show "cursor_at (mtl_extmap_next M) fes i (Suc m)" if "Suc m < unat (fe_length (fes ! i))"
    using next_in_extent [OF assms that] .
next
  assume e: "Suc m = unat (fe_length (fes ! i))"
  then have "word_of_nat m + 1 = fe_length (fes ! i)"
    by (metis of_nat_Suc add.commute word_of_nat_unat)
  then show "mtl_extmap_pblock (mtl_extmap_next M) = fe_offset (fes ! i) + fe_length (fes ! i)"
    using next_stays [OF assms] assms(1) by (simp add: mtl_extmap_pblock_def cursor_at_def add.assoc)
qed (use next_stays [OF assms] in \<open>simp add: mtl_extmap_extent_def\<close>)

theorem next_overruns_extent_witness:
  "mtl_extmap_pblock (mtl_extmap_next (extmap_of [\<lparr>fe_offset = 5, fe_length = 1\<rparr>, \<lparr>fe_offset = 9, fe_length = 1\<rparr>])) = 6"
proof -
  let ?fes = "[\<lparr>fe_offset = 5, fe_length = 1\<rparr>, \<lparr>fe_offset = 9, fe_length = 1\<rparr>]"
  have "cursor_at (extmap_of ?fes) ?fes 0 0"
    by (simp add: cursor_at_def) (simp add: extmap_of_def nth_or0_def)
  then show ?thesis
    using next_overruns_extent [of "extmap_of ?fes" ?fes 0 0] by (simp add: ext_fit_def)
qed

end
