(* ===== verification/Op_Mem.thy ===== *)
theory Op_Mem
  imports Extmap
begin

text \<open>
  The data source and sink of the FPGA (\<open>mtl_op_mem.cpp\<close>, \<open>mtl_op_mem.hpp\<close>): a transfer of a range
  of host memory, card DRAM or NVMe is cut at storage block boundaries, translated through the
  extent maps, and handed to the DataMover and the NVMe host controller.

  The stages of a \<open>#pragma HLS dataflow\<close> region communicate over FIFO streams.  A stream is the
  list of the elements that will be written to it; a stage maps its input streams to its output
  streams, and is \<^term>\<open>None\<close> when it waits for an element that never comes.  The build switch
  \<open>NVME_ENABLED\<close> is the argument \<open>nvme\<close>.
\<close>

section \<open>Commands and transfers\<close>

definition DRAMBaseOffset :: u64 where "DRAMBaseOffset = 0x8000000000000000"
definition NVMeDRAMBaseOffset :: u64 where "NVMeDRAMBaseOffset = 0x200000000"
definition NVMeDRAMReadOffset :: u64 where "NVMeDRAMReadOffset = 0"
definition NVMeDRAMWriteOffset :: u64 where "NVMeDRAMWriteOffset = 0x80000000"

record DatamoverCommand =
  dm_effective_address :: u64
  dm_end_of_frame :: bool
  dm_axi_burst_type :: bool
  dm_transfer_bytes :: "23 word"

record NVMeCommand =
  dram_offset :: u64
  nvme_block_offset :: u64
  num_blocks :: u32
  drive :: "3 word"

record Transfer =
  t_address :: u64
  t_size :: u64
  t_type :: AddressType

record TransferElement =
  t_data :: Transfer
  t_last :: bool

datatype TransferType = TransferRead | TransferWrite

definition issue_block_transfer_command :: "u64 \<Rightarrow> bool \<Rightarrow> u64 \<Rightarrow> DatamoverCommand" where
  "issue_block_transfer_command transfer_bytes end_of_frame effective_address =
     \<lparr>dm_effective_address = effective_address, dm_end_of_frame = end_of_frame, dm_axi_burst_type = True,
      dm_transfer_bytes = ucast transfer_bytes\<rparr>"

definition issue_nvme_block_transfer_command :: "u64 \<Rightarrow> u64 \<Rightarrow> NVMeCommand" where
  "issue_nvme_block_transfer_command nvme_address dram_address =
     (let logical_block_offset = nvme_address div StorageBlockSize;
          physical_block_offset = logical_block_offset * (StorageBlockSize div 512);
          aligned_dram_address = set_range dram_address (StorageBlockSizeD - 1) 0 (0 :: u64)
      in \<lparr>dram_offset = aligned_dram_address, nvme_block_offset = physical_block_offset,
          num_blocks = ucast (StorageBlockSize div 512 - 1), drive = 0\<rparr>)"

section \<open>Cutting a transfer\<close>

text \<open>The seeks before the loop, and the translation of one partial transfer.\<close>

definition seek_maps :: "bool \<Rightarrow> Address \<Rightarrow> mtl_extmap \<Rightarrow> mtl_extmap \<Rightarrow> mtl_extmap \<times> mtl_extmap" where
  "seek_maps nvme transfer dram_map nvme_map =
     (case a_map transfer of
        MapDRAM \<Rightarrow> (snd (mtl_extmap_seek dram_map (a_addr transfer div StorageBlockSize)), nvme_map)
      | MapNVMe \<Rightarrow>
          (if nvme then (dram_map, snd (mtl_extmap_seek nvme_map (a_addr transfer div StorageBlockSize)))
           else (dram_map, nvme_map))
      | MapDRAMAndNVMe \<Rightarrow>
          (if nvme then
             (snd (mtl_extmap_seek dram_map ((a_addr transfer mod PagefileSize) div StorageBlockSize)),
              snd (mtl_extmap_seek nvme_map (a_addr transfer div StorageBlockSize)))
           else (dram_map, nvme_map))
      | MapNone \<Rightarrow> (dram_map, nvme_map))"

definition translate ::
  "bool \<Rightarrow> TransferType \<Rightarrow> MapType \<Rightarrow> u64 \<Rightarrow> u64 \<Rightarrow> mtl_extmap \<Rightarrow> mtl_extmap \<Rightarrow>
     u64 \<times> u64 list \<times> mtl_extmap \<times> mtl_extmap" where
  "translate nvme T mt current_address intra_block_offset dram_map nvme_map =
     (let dram_address = mtl_extmap_pblock dram_map * StorageBlockSize + intra_block_offset;
          nvme_address = mtl_extmap_pblock nvme_map * StorageBlockSize + intra_block_offset
      in case mt of
           MapDRAM \<Rightarrow> (dram_address, [], mtl_extmap_next dram_map, nvme_map)
         | MapNVMe \<Rightarrow>
             (if nvme then
                ((if T = TransferRead then NVMeDRAMReadOffset else NVMeDRAMWriteOffset)
                   + current_address mod 0x80000000,
                 [nvme_address], dram_map, mtl_extmap_next nvme_map)
              else (current_address, [], dram_map, nvme_map))
         | MapDRAMAndNVMe \<Rightarrow>
             (if nvme then
                (dram_address, [nvme_address], mtl_extmap_next dram_map, mtl_extmap_next nvme_map)
              else (current_address, [], dram_map, nvme_map))
         | MapNone \<Rightarrow> (current_address, [], dram_map, nvme_map))"

definition round_bytes :: "u64 \<Rightarrow> u64 \<Rightarrow> u64" where
  "round_bytes current_address bytes_remaining =
     (let transfer_limit = StorageBlockSize - current_address mod StorageBlockSize
      in if bytes_remaining \<le> transfer_limit then bytes_remaining else transfer_limit)"

lemma round_bytes_bounds:
  assumes "0 < r"
  shows "0 < round_bytes c r" "round_bytes c r \<le> r"
    "unat c mod 262144 + unat (round_bytes c r) \<le> 262144"
    "round_bytes c r \<noteq> r \<Longrightarrow> unat c mod 262144 + unat (round_bytes c r) = 262144"
proof -
  have m: "unat (c mod 0x40000) = unat c mod 262144" by (simp add: unat_mod)
  have "unat c mod 262144 < 262144" by simp
  then have l: "unat (0x40000 - c mod 0x40000) = 262144 - unat c mod 262144"
    using m by (subst unat_sub_exact) simp_all
  show "0 < round_bytes c r"
    using assms l \<open>unat c mod 262144 < 262144\<close>
    by (auto simp: round_bytes_def Let_def word_less_nat_alt)
  show "round_bytes c r \<le> r" by (auto simp: round_bytes_def Let_def)
  show "unat c mod 262144 + unat (round_bytes c r) \<le> 262144"
    "round_bytes c r \<noteq> r \<Longrightarrow> unat c mod 262144 + unat (round_bytes c r) = 262144"
    using l \<open>unat c mod 262144 < 262144\<close>
    by (auto simp: round_bytes_def Let_def word_le_nat_alt)
qed

function issue_loop ::
  "bool \<Rightarrow> TransferType \<Rightarrow> Address \<Rightarrow> u64 \<Rightarrow> mtl_extmap \<Rightarrow> mtl_extmap \<Rightarrow>
     TransferElement list \<times> u64 list \<times> mtl_extmap \<times> mtl_extmap" where
  "issue_loop nvme T transfer bytes_transferred dram_map nvme_map =
     (if bytes_transferred < ucast (a_size transfer) then
        let bytes_remaining = ucast (a_size transfer) - bytes_transferred;
            current_address = a_addr transfer + bytes_transferred;
            intra_block_offset = current_address mod StorageBlockSize;
            bytes_this_round = round_bytes current_address bytes_remaining;
            (address, nvme_out, dram_map, nvme_map) =
              translate nvme T (a_map transfer) current_address intra_block_offset dram_map nvme_map;
            partial_transfer =
              \<lparr>t_data = \<lparr>t_address = address, t_size = bytes_this_round, t_type = a_type transfer\<rparr>,
               t_last = (bytes_this_round = bytes_remaining)\<rparr>;
            (elements, nvme_elements, dram_map, nvme_map) =
              issue_loop nvme T transfer (bytes_transferred + bytes_this_round) dram_map nvme_map
        in (partial_transfer # elements, nvme_out @ nvme_elements, dram_map, nvme_map)
      else ([], [], dram_map, nvme_map))"
  by pat_completeness auto

lemma issue_loop_progress:
  assumes "bt < (s :: u64)"
  shows "unat (bt + round_bytes c (s - bt)) = unat bt + unat (round_bytes c (s - bt))"
    "unat bt + unat (round_bytes c (s - bt)) \<le> unat s" "0 < unat (round_bytes c (s - bt))"
proof -
  have "0 < s - bt" using assms by (simp add: word_less_nat_alt unat_sub_exact)
  then have r: "0 < round_bytes c (s - bt)" "round_bytes c (s - bt) \<le> s - bt"
    by (rule round_bytes_bounds)+
  then show le: "unat bt + unat (round_bytes c (s - bt)) \<le> unat s" "0 < unat (round_bytes c (s - bt))"
    using assms by (auto simp: word_le_nat_alt word_less_nat_alt unat_sub_exact)
  then show "unat (bt + round_bytes c (s - bt)) = unat bt + unat (round_bytes c (s - bt))"
    using unat_u64_bound [of s] by (simp add: unat_add_exact del: unat_u64_bound)
qed

termination issue_loop
proof (relation "measure (\<lambda>(nvme, T, transfer, bt, d, n). unat (ucast (a_size transfer) :: u64) - unat bt)")
  show "wf (measure (\<lambda>(nvme, T, transfer, bt, d, n). unat (ucast (a_size transfer) :: u64) - unat bt))" by simp
next
  fix nvme T transfer and bt :: u64 and d n x xa xb xc xd y xe ya xf yb xg
  assume "bt < ucast (a_size transfer)" "x = ucast (a_size transfer) - bt" "xa = a_addr transfer + bt"
    "xc = round_bytes xa x"
  then show "((nvme, T, transfer, bt + xc, yb, xg), nvme, T, transfer, bt, d, n)
    \<in> measure (\<lambda>(nvme, T, transfer, bt, d, n). unat (ucast (a_size transfer) :: u64) - unat bt)"
    using issue_loop_progress [of bt "ucast (a_size transfer)" "a_addr transfer + bt"] by simp
qed

declare issue_loop.simps [simp del]

definition issue_partial_transfers ::
  "bool \<Rightarrow> TransferType \<Rightarrow> Address \<Rightarrow> mtl_extmap \<Rightarrow> mtl_extmap \<Rightarrow>
     TransferElement list \<times> u64 list \<times> mtl_extmap \<times> mtl_extmap" where
  "issue_partial_transfers nvme T transfer dram_map nvme_map =
     (let (dram_map, nvme_map) = seek_maps nvme transfer dram_map nvme_map
      in issue_loop nvme T transfer 0 dram_map nvme_map)"

section \<open>The stages of a read\<close>

text \<open>
  First loop of \<open>load_nvme_data\<close>: the elements handed to the second loop, the NVMe commands, and
  the rest of the queue of NVMe addresses.
\<close>

fun load_nvme_issue ::
  "TransferElement list \<Rightarrow> u64 list \<Rightarrow> (TransferElement list \<times> NVMeCommand list \<times> u64 list) option" where
  "load_nvme_issue [] nvme_transfers = None"
| "load_nvme_issue (cur # ins) nvme_transfers =
     (if t_type (t_data cur) \<noteq> NVMe then
        if t_last cur then Some ([cur], [], nvme_transfers)
        else do { (pending, cmds, rest) \<leftarrow> load_nvme_issue ins nvme_transfers;
                  Some (cur # pending, cmds, rest) }
      else case nvme_transfers of
          [] \<Rightarrow> None
        | nvme_address # nvme_transfers \<Rightarrow>
            let dram_address = NVMeDRAMBaseOffset + t_address (t_data cur);
                cmd = issue_nvme_block_transfer_command nvme_address dram_address
            in if t_last cur then Some ([cur], [cmd], nvme_transfers)
               else do { (pending, cmds, rest) \<leftarrow> load_nvme_issue ins nvme_transfers;
                         Some (cur # pending, cmd # cmds, rest) })"

text \<open>Second loop: one NVMe response per NVMe element.\<close>

fun load_nvme_collect ::
  "TransferElement list \<Rightarrow> bool list \<Rightarrow> (TransferElement list \<times> bool list) option" where
  "load_nvme_collect [] nvme_resp = None"
| "load_nvme_collect (cur # pending) nvme_resp =
     do { nvme_resp \<leftarrow>
            (if t_type (t_data cur) = NVMe
             then (case nvme_resp of [] \<Rightarrow> None | _ # resp \<Rightarrow> Some resp) else Some nvme_resp);
          if t_last cur then Some ([cur], nvme_resp)
          else do { (outs, rest) \<leftarrow> load_nvme_collect pending nvme_resp; Some (cur # outs, rest) } }"

text \<open>The build without NVMe passes the elements on.\<close>

fun pass_through :: "TransferElement list \<Rightarrow> TransferElement list option" where
  "pass_through [] = None"
| "pass_through (cur # ins) =
     (if t_last cur then Some [cur] else do { outs \<leftarrow> pass_through ins; Some (cur # outs) })"

definition load_nvme_data ::
  "bool \<Rightarrow> TransferElement list \<Rightarrow> u64 list \<Rightarrow> bool list \<Rightarrow>
     (TransferElement list \<times> NVMeCommand list \<times> bool list) option" where
  "load_nvme_data nvme ins nvme_transfers nvme_resp =
     (if nvme then
        do { (pending, cmds, _) \<leftarrow> load_nvme_issue ins nvme_transfers;
             (outs, resp) \<leftarrow> load_nvme_collect pending nvme_resp;
             Some (outs, cmds, resp) }
      else do { outs \<leftarrow> pass_through ins; Some (outs, [], nvme_resp) })"

definition dm_address :: "TransferElement \<Rightarrow> u64" where
  "dm_address cur =
     (if t_type (t_data cur) = CardDRAM \<or> t_type (t_data cur) = NVMe
      then t_address (t_data cur) + DRAMBaseOffset else t_address (t_data cur))"

definition dm_command :: "TransferElement \<Rightarrow> DatamoverCommand" where
  "dm_command cur = issue_block_transfer_command (t_size (t_data cur)) (t_last cur) (dm_address cur)"

fun transfer_to_stream_issue ::
  "TransferElement list \<Rightarrow> (TransferElement list \<times> DatamoverCommand list) option" where
  "transfer_to_stream_issue [] = None"
| "transfer_to_stream_issue (cur # ins) =
     (if t_last cur then Some ([cur], [dm_command cur])
      else do { (pending, cmds) \<leftarrow> transfer_to_stream_issue ins;
                Some (cur # pending, dm_command cur # cmds) })"

fun transfer_to_stream_collect :: "TransferElement list \<Rightarrow> u8 list \<Rightarrow> u8 list option" where
  "transfer_to_stream_collect [] dm_sts = None"
| "transfer_to_stream_collect (cur # pending) dm_sts =
     (case dm_sts of
        [] \<Rightarrow> None
      | _ # dm_sts \<Rightarrow>
          if t_last cur then Some dm_sts else transfer_to_stream_collect pending dm_sts)"

definition transfer_to_stream ::
  "TransferElement list \<Rightarrow> u8 list \<Rightarrow> (DatamoverCommand list \<times> u8 list) option" where
  "transfer_to_stream ins dm_sts =
     do { (pending, cmds) \<leftarrow> transfer_to_stream_issue ins;
          dm_sts \<leftarrow> transfer_to_stream_collect pending dm_sts;
          Some (cmds, dm_sts) }"

text \<open>The streams and maps a read works on.\<close>

record read_port =
  r_dm_cmd :: "DatamoverCommand list"
  r_dm_sts :: "u8 list"
  r_nvme_cmd :: "NVMeCommand list"
  r_nvme_resp :: "bool list"
  r_dram_map :: mtl_extmap
  r_nvme_map :: mtl_extmap

definition load_data :: "bool \<Rightarrow> Address \<Rightarrow> read_port \<Rightarrow> read_port option" where
  "load_data nvme transfer s =
     (let (partial_transfers, nvme_transfers, dram_map, nvme_map) =
            issue_partial_transfers nvme TransferRead transfer (r_dram_map s) (r_nvme_map s)
      in do { (ready_transfers, nvme_cmds, resp) \<leftarrow>
                load_nvme_data nvme partial_transfers nvme_transfers (r_nvme_resp s);
              (cmds, sts) \<leftarrow> transfer_to_stream ready_transfers (r_dm_sts s);
              Some (s\<lparr>r_dm_cmd := r_dm_cmd s @ cmds, r_dm_sts := sts,
                      r_nvme_cmd := r_nvme_cmd s @ nvme_cmds, r_nvme_resp := resp,
                      r_dram_map := dram_map, r_nvme_map := nvme_map\<rparr>) })"

text \<open>A register write is the word offset in the register file and the value.\<close>

type_synonym reg_write = "u32 \<times> u32"

definition op_mem_read ::
  "bool \<Rightarrow> u32 \<Rightarrow> Address \<Rightarrow> read_port \<Rightarrow> (reg_write list \<times> read_port) option" where
  "op_mem_read nvme random_ctrl config s =
     (if a_type config = Random
      then Some ([(random_ctrl + 0x10 div 4, a_size config), (random_ctrl, 1)], s)
      else do { s \<leftarrow> load_data nvme config s; Some ([], s) })"

section \<open>The stages of a write\<close>

text \<open>A status of the DataMover in indeterminate-length mode: bit 31 is the end of the packet.\<close>

type_synonym ibtt_status = u32

definition ibtt_bytes :: "ibtt_status \<Rightarrow> u64" where
  "ibtt_bytes r = get_range r 30 8"

definition ibtt_eop :: "ibtt_status \<Rightarrow> bool" where
  "ibtt_eop r \<longleftrightarrow> bit r 31"

text \<open>
  Both loops of \<open>transfer_from_stream\<close>, which run in lock step over the stream
  \<open>streamIsTerminated\<close>: the elements handed on, the commands, the number of bytes, the statuses left.
\<close>

fun transfer_from_stream_loop ::
  "bool \<Rightarrow> u64 \<Rightarrow> TransferElement list \<Rightarrow> ibtt_status list \<Rightarrow>
     (TransferElement list \<times> DatamoverCommand list \<times> u64 \<times> ibtt_status list) option" where
  "transfer_from_stream_loop endOfPacket tmpSize [] dm_sts = None"
| "transfer_from_stream_loop endOfPacket tmpSize (cur # ins) dm_sts =
     (if \<not> endOfPacket then
        (case dm_sts of
           [] \<Rightarrow> None
         | result # dm_sts \<Rightarrow>
             let tmpSize = tmpSize + ibtt_bytes result; endOfPacket = ibtt_eop result
             in if t_last cur then Some ([cur], [dm_command cur], tmpSize, dm_sts)
                else do { (outs, cmds, size', rest) \<leftarrow>
                            transfer_from_stream_loop endOfPacket tmpSize ins dm_sts;
                          Some (cur # outs, dm_command cur # cmds, size', rest) })
      else
        let cur' = cur\<lparr>t_data := (t_data cur)\<lparr>t_size := 0\<rparr>\<rparr>
        in if t_last cur then Some ([cur'], [], tmpSize, dm_sts)
           else do { (outs, cmds, size', rest) \<leftarrow>
                       transfer_from_stream_loop endOfPacket tmpSize ins dm_sts;
                     Some (cur' # outs, cmds, size', rest) })"

definition transfer_from_stream ::
  "TransferElement list \<Rightarrow> ibtt_status list \<Rightarrow>
     (TransferElement list \<times> DatamoverCommand list \<times> u64 \<times> ibtt_status list) option" where
  "transfer_from_stream ins dm_sts = transfer_from_stream_loop False 0 ins dm_sts"

text \<open>First loop of \<open>write_nvme_data\<close>; its second is that of \<open>load_nvme_data\<close> without an output.\<close>

fun write_nvme_issue ::
  "TransferElement list \<Rightarrow> u64 list \<Rightarrow> (TransferElement list \<times> NVMeCommand list \<times> u64 list) option" where
  "write_nvme_issue [] nvme_transfers = None"
| "write_nvme_issue (cur # ins) nvme_transfers =
     (if t_type (t_data cur) \<noteq> NVMe then
        if t_last cur then Some ([cur], [], nvme_transfers)
        else do { (pending, cmds, rest) \<leftarrow> write_nvme_issue ins nvme_transfers;
                  Some (cur # pending, cmds, rest) }
      else case nvme_transfers of
          [] \<Rightarrow> None
        | nvme_address # nvme_transfers \<Rightarrow>
            let dram_address = NVMeDRAMBaseOffset + t_address (t_data cur);
                new = (if 0 < t_size (t_data cur)
                       then [issue_nvme_block_transfer_command nvme_address dram_address] else [])
            in if t_last cur then Some ([cur], new, nvme_transfers)
               else do { (pending, cmds, rest) \<leftarrow> write_nvme_issue ins nvme_transfers;
                         Some (cur # pending, new @ cmds, rest) })"

definition write_nvme_data ::
  "bool \<Rightarrow> TransferElement list \<Rightarrow> u64 list \<Rightarrow> bool list \<Rightarrow> (NVMeCommand list \<times> bool list) option" where
  "write_nvme_data nvme ins nvme_transfers nvme_resp =
     (if nvme then
        do { (pending, cmds, _) \<leftarrow> write_nvme_issue ins nvme_transfers;
             (_, resp) \<leftarrow> load_nvme_collect pending nvme_resp;
             Some (cmds, resp) }
      else do { _ \<leftarrow> pass_through ins; Some ([], nvme_resp) })"

record write_port =
  w_dm_cmd :: "DatamoverCommand list"
  w_dm_sts :: "ibtt_status list"
  w_nvme_cmd :: "NVMeCommand list"
  w_nvme_resp :: "bool list"
  w_dram_map :: mtl_extmap
  w_nvme_map :: mtl_extmap

definition write_data :: "bool \<Rightarrow> Address \<Rightarrow> write_port \<Rightarrow> (u64 \<times> write_port) option" where
  "write_data nvme transfer s =
     (let (partial_transfers, nvme_transfers, dram_map, nvme_map) =
            issue_partial_transfers nvme TransferWrite transfer (w_dram_map s) (w_nvme_map s)
      in do { (ready_transfers, cmds, bytes, sts) \<leftarrow> transfer_from_stream partial_transfers (w_dm_sts s);
              (nvme_cmds, resp) \<leftarrow> write_nvme_data nvme ready_transfers nvme_transfers (w_nvme_resp s);
              Some (bytes, s\<lparr>w_dm_cmd := w_dm_cmd s @ cmds, w_dm_sts := sts,
                      w_nvme_cmd := w_nvme_cmd s @ nvme_cmds, w_nvme_resp := resp,
                      w_dram_map := dram_map, w_nvme_map := nvme_map\<rparr>) })"

definition op_mem_write :: "bool \<Rightarrow> Address \<Rightarrow> write_port \<Rightarrow> (u64 \<times> write_port) option" where
  "op_mem_write nvme config s =
     (case a_type config of
        Host \<Rightarrow> write_data nvme config s
      | CardDRAM \<Rightarrow> write_data nvme config s
      | NVMe \<Rightarrow> write_data nvme config s
      | _ \<Rightarrow> Some (0, s))"

section \<open>Partial transfers cover the transfer\<close>

text \<open>The byte addresses of a partial transfer, and of all of them in order.\<close>

definition element_bytes :: "TransferElement \<Rightarrow> nat list" where
  "element_bytes e = [unat (t_address (t_data e)) ..< unat (t_address (t_data e)) + unat (t_size (t_data e))]"

definition transfer_bytes :: "TransferElement list \<Rightarrow> nat list" where
  "transfer_bytes es = concat (map element_bytes es)"

text \<open>A packet: the last element, and no other, has its flag set.\<close>

fun framed :: "TransferElement list \<Rightarrow> bool" where
  "framed [] \<longleftrightarrow> False"
| "framed [e] \<longleftrightarrow> t_last e"
| "framed (e # es) \<longleftrightarrow> \<not> t_last e \<and> framed es"

lemma framed_Cons: "framed (e # es) \<longleftrightarrow> (if es = [] then t_last e else \<not> t_last e \<and> framed es)"
  by (cases es) auto

text \<open>A partial transfer stays inside a storage block and is not empty.\<close>

definition in_block :: "TransferElement \<Rightarrow> bool" where
  "in_block e \<longleftrightarrow> 0 < t_size (t_data e) \<and>
     unat (t_address (t_data e)) mod 262144 + unat (t_size (t_data e)) \<le> 262144"

lemma issue_loop_step:
  fixes d n
  assumes "bt < ucast (a_size tr)"
  defines "r \<equiv> round_bytes (a_addr tr + bt) (ucast (a_size tr) - bt)"
  assumes "translate nvme T (a_map tr) (a_addr tr + bt) ((a_addr tr + bt) mod StorageBlockSize) d n = (adr, nv, d', n')"
    and "issue_loop nvme T tr (bt + r) d' n' = (es, ns, d'', n'')"
  shows "issue_loop nvme T tr bt d n =
    (\<lparr>t_data = \<lparr>t_address = adr, t_size = r, t_type = a_type tr\<rparr>, t_last = (bt + r = ucast (a_size tr))\<rparr> # es,
     nv @ ns, d'', n'')"
  using assms by (subst issue_loop.simps) (simp add: Let_def r_def[symmetric] eq_diff_eq add.commute)

lemma issue_loop_end: "\<not> bt < ucast (a_size tr) \<Longrightarrow> issue_loop nvme T tr bt d n = ([], [], d, n)"
  by (subst issue_loop.simps) simp

lemma upt_split: "i \<le> j \<Longrightarrow> j \<le> k \<Longrightarrow> [i..<k] = [i..<j] @ [j..<k]"
  by (metis upt_add_eq_append le_Suc_ex)

lemma full_block: "0 < x \<Longrightarrow> x \<le> B \<Longrightarrow> x mod B = 0 \<Longrightarrow> x = (B :: nat)"
  by (metis dvd_imp_le le_antisym mod_0_imp_dvd)

lemma block_end:
  assumes "c mod B + r \<le> B" "0 < r" "(c + r) mod B = 0"
  shows "c + r = B * Suc (c div (B :: nat))"
proof -
  have "(c mod B + r) mod B = 0" using assms(3) by (simp only: mod_add_left_eq)
  then have "c mod B + r = B" by (rule full_block [OF trans_less_add2 [OF assms(2)] assms(1)])
  then have "B * (c div B) + (c mod B + r) = B * (c div B) + B" by (rule arg_cong)
  then show ?thesis unfolding mult_Suc_right add.assoc [symmetric] mult_div_mod_eq by (simp only: add.commute)
qed

lemma block_index: "x = b * B + m \<Longrightarrow> m < B \<Longrightarrow> x div B = b \<and> x mod B = (m :: nat)"
  by simp

lemma map_shift_upt: "map f [x..<x + k] = map (\<lambda>j. f (x + j)) [0..<k]"
  by (rule nth_equalityI) auto

text \<open>
  The bytes that the partial transfers name are the images of the bytes of the transfer under
  \<open>tau\<close>, when one translation gives the image of its bytes and keeps an invariant of the cursors.
\<close>

lemma issue_loop_bytes:
  fixes tau :: "nat \<Rightarrow> nat" and I :: "nat \<Rightarrow> mtl_extmap \<Rightarrow> mtl_extmap \<Rightarrow> bool"
  assumes fits: "unat (a_addr tr) + unat (a_size tr) \<le> 2 ^ 64"
    and step: "\<And>c d n r adr nv d' n'. I (unat c) d n \<Longrightarrow> unat c < unat (a_addr tr) + unat (a_size tr) \<Longrightarrow>
      unat (a_addr tr) \<le> unat c \<Longrightarrow>
      0 < r \<Longrightarrow> unat c mod 262144 + r \<le> 262144 \<Longrightarrow> unat c + r \<le> unat (a_addr tr) + unat (a_size tr) \<Longrightarrow>
      translate nvme T (a_map tr) c (c mod StorageBlockSize) d n = (adr, nv, d', n') \<Longrightarrow>
      (\<forall>k < r. unat adr + k = tau (unat c + k)) \<and>
      (unat c + r < unat (a_addr tr) + unat (a_size tr) \<longrightarrow> (unat c + r) mod 262144 = 0 \<longrightarrow> I (unat c + r) d' n')"
    and "I (unat (a_addr tr) + unat bt) d n"
    and "unat bt < unat (a_size tr)"
  shows "transfer_bytes (fst (issue_loop nvme T tr bt d n)) =
    map tau [unat (a_addr tr) + unat bt ..< unat (a_addr tr) + unat (a_size tr)]"
  using assms(3,4)
proof (induction "unat (a_size tr) - unat bt" arbitrary: bt d n rule: less_induct)
  case less
  define S where "S = (ucast (a_size tr) :: u64)"
  have S: "unat S = unat (a_size tr)"
    by (simp add: S_def)
  define c r where "c = a_addr tr + bt" and "r = round_bytes c (S - bt)"
  have lt: "bt < S" using less.prems(2) S by (simp add: word_less_nat_alt)
  have c: "unat c = unat (a_addr tr) + unat bt"
    unfolding c_def using less.prems(2) fits by (intro unat_add_exact) linarith
  note pr = issue_loop_progress [OF lt, of c, folded r_def]
  have "0 < S - bt" using lt by (simp add: word_less_nat_alt unat_sub_exact)
  note rb = round_bytes_bounds [OF this, of c, folded r_def]
  obtain adr nv d' n' where t: "translate nvme T (a_map tr) c (c mod StorageBlockSize) d n = (adr, nv, d', n')"
    by (metis prod_cases4)
  obtain es ns d2 n2 where rec: "issue_loop nvme T tr (bt + r) d' n' = (es, ns, d2, n2)"
    by (metis prod_cases4)
  have st: "\<forall>k < unat r. unat adr + k = tau (unat c + k)"
    "unat c + unat r < unat (a_addr tr) + unat (a_size tr) \<Longrightarrow> (unat c + unat r) mod 262144 = 0 \<Longrightarrow> I (unat c + unat r) d' n'"
    using step [of c d n "unat r", OF _ _ _ pr(3) rb(3) _ t] less.prems c pr(2) S by auto
  have e: "element_bytes \<lparr>t_data = \<lparr>t_address = adr, t_size = r, t_type = a_type tr\<rparr>, t_last = l\<rparr> =
      map tau [unat c ..< unat c + unat r]" for l
    using st(1) by (subst map_shift_upt) (auto simp: element_bytes_def intro!: nth_equalityI)
  have loop: "fst (issue_loop nvme T tr bt d n) =
      \<lparr>t_data = \<lparr>t_address = adr, t_size = r, t_type = a_type tr\<rparr>, t_last = (bt + r = S)\<rparr> # es"
    using issue_loop_step [OF lt [unfolded S_def] t [unfolded c_def], of es ns d2 n2] rec
    by (simp add: r_def c_def S_def)
  show ?case
  proof (cases "unat bt + unat r < unat (a_size tr)")
    case True
    then have "r \<noteq> S - bt" using S lt unat_sub_exact [of bt S] by (auto simp: word_less_nat_alt)
    then have "(unat c + unat r) mod 262144 = 0" using rb(4) by (metis mod_add_left_eq mod_self)
    then have "transfer_bytes es = map tau [unat (a_addr tr) + unat (bt + r) ..< unat (a_addr tr) + unat (a_size tr)]"
      using less.hyps [of "bt + r" d' n'] st(2) True pr c rec by (simp add: add.assoc)
    then show ?thesis
      using e True c pr(1) upt_split [of "unat c" "unat c + unat r" "unat (a_addr tr) + unat (a_size tr)"]
      by (simp add: loop transfer_bytes_def add.assoc flip: map_append)
  next
    case False
    then have eq: "unat bt + unat r = unat (a_size tr)" using pr(2) S by simp
    then have "es = []" using rec issue_loop_end [of "bt + r" tr nvme T d' n'] pr(1) S
      by (auto simp: word_less_nat_alt S_def)
    then show ?thesis using e c eq by (simp add: loop transfer_bytes_def add.assoc)
  qed
qed

lemma issue_loop_shape:
  assumes "bt < ucast (a_size tr)"
  shows "framed (fst (issue_loop nvme T tr bt d n)) \<and>
    (\<forall>e \<in> set (fst (issue_loop nvme T tr bt d n)). t_type (t_data e) = a_type tr \<and> 0 < t_size (t_data e))"
  using assms
proof (induction "unat (ucast (a_size tr) :: u64) - unat bt" arbitrary: bt d n rule: less_induct)
  case less
  define r where "r = round_bytes (a_addr tr + bt) (ucast (a_size tr) - bt)"
  note pr = issue_loop_progress [OF less.prems, of "a_addr tr + bt", folded r_def]
  obtain adr nv d' n' where t: "translate nvme T (a_map tr) (a_addr tr + bt)
      ((a_addr tr + bt) mod StorageBlockSize) d n = (adr, nv, d', n')"
    by (metis prod_cases4)
  obtain es ns d2 n2 where rec: "issue_loop nvme T tr (bt + r) d' n' = (es, ns, d2, n2)"
    by (metis prod_cases4)
  have loop: "fst (issue_loop nvme T tr bt d n) =
      \<lparr>t_data = \<lparr>t_address = adr, t_size = r, t_type = a_type tr\<rparr>, t_last = (bt + r = ucast (a_size tr))\<rparr> # es"
    using issue_loop_step [OF less.prems t, of es ns d2 n2] rec by (simp add: r_def)
  have r: "0 < r" using pr(3) by (simp add: word_less_nat_alt)
  show ?case
  proof (cases "bt + r < ucast (a_size tr)")
    case True
    then have "framed es \<and> (\<forall>e \<in> set es. t_type (t_data e) = a_type tr \<and> 0 < t_size (t_data e))"
      using less.hyps [of "bt + r" d' n'] rec pr by (simp add: word_less_nat_alt)
    then show ?thesis using True r by (auto simp: loop framed_Cons)
  next
    case False
    moreover have "bt + r \<le> ucast (a_size tr)" using pr by (simp add: word_le_nat_alt)
    ultimately show ?thesis using issue_loop_end [of "bt + r" tr nvme T d' n'] rec r by (simp add: loop)
  qed
qed

text \<open>A range of a file that lies in one extent, as the extent map sees it.\<close>

definition in_extent :: "mtl_file_extent list \<Rightarrow> nat \<Rightarrow> Address \<Rightarrow> bool" where
  "in_extent fes i tr \<longleftrightarrow> i < length fes \<and> unat (a_addr tr) + unat (a_size tr) \<le> 2 ^ 64 \<and>
     length (blocks_of (take i fes)) * 262144 \<le> unat (a_addr tr) \<and>
     unat (a_addr tr) + unat (a_size tr) \<le>
       (length (blocks_of (take i fes)) + unat (fe_length (fes ! i))) * 262144 \<and>
     (\<forall>fe \<in> set fes. (unat (fe_offset fe) + unat (fe_length fe)) * 262144 \<le> 2 ^ 64)"

lemma dram_step:
  assumes cur: "cursor_at d fes i (unat c div 262144 - length (blocks_of (take i fes)))"
    and fit: "ext_fit fes" and tr: "in_extent fes i tr"
    and c: "unat (a_addr tr) \<le> unat c"
    and r: "unat (c :: u64) mod 262144 + r \<le> 262144" "0 < r"
    and t: "translate nvme T MapDRAM c (c mod StorageBlockSize) d n = (adr, nv, d', n')"
  shows "(\<forall>k < r. unat adr + k = phys 262144 fes (unat c + k)) \<and>
    (unat c + r < unat (a_addr tr) + unat (a_size tr) \<longrightarrow> (unat c + r) mod 262144 = 0 \<longrightarrow>
       cursor_at d' fes i ((unat c + r) div 262144 - length (blocks_of (take i fes))))"
proof -
  let ?f = "length (blocks_of (take i fes))" and ?b = "unat c div 262144"
  have i: "i < length fes" using tr by (simp add: in_extent_def)
  have "?f * 262144 \<le> unat c" using tr c by (simp add: in_extent_def)
  then have f: "?f \<le> ?b" by (metis div_le_mono nonzero_mult_div_cancel_right zero_neq_numeral)
  have p: "unat (mtl_extmap_pblock d) = blocks_of fes ! ?b"
    using cursor_at_pblock(1) [OF cur fit] f by simp
  have bl: "blocks_of fes ! ?b = unat (fe_offset (fes ! i)) + (?b - ?f)" "?b - ?f < unat (fe_length (fes ! i))"
    using blocks_of_take(3) [OF i, of "?b - ?f"] cur f by (simp_all add: cursor_at_def)
  have "(unat (fe_offset (fes ! i)) + unat (fe_length (fes ! i))) * 262144 \<le> 2 ^ 64"
    using tr i by (simp add: in_extent_def)
  moreover have "(blocks_of fes ! ?b + 1) * 262144 \<le> (unat (fe_offset (fes ! i)) + unat (fe_length (fes ! i))) * 262144"
    using bl by (intro mult_le_mono1) linarith
  ultimately have small: "(blocks_of fes ! ?b + 1) * 262144 \<le> 2 ^ 64" by (rule order_trans[rotated])
  have m: "unat (c mod 0x40000) = unat c mod 262144" by (simp add: unat_mod)
  have "unat (mtl_extmap_pblock d * 0x40000) = blocks_of fes ! ?b * 262144"
    using small p by (subst unat_mult_exact) simp_all
  then have "unat adr = blocks_of fes ! ?b * 262144 + unat c mod 262144"
    using t small m by (auto simp: translate_def Let_def unat_add_exact)
  moreover have "(unat c + k) div 262144 = ?b \<and> (unat c + k) mod 262144 = unat c mod 262144 + k" if "k < r" for k
  proof -
    have "unat c + k = ?b * 262144 + (unat c mod 262144 + k)" by simp
    moreover have "unat c mod 262144 + k < 262144" using that r by linarith
    ultimately show ?thesis by (rule block_index)
  qed
  moreover have "cursor_at d' fes i ((unat c + r) div 262144 - ?f)"
    if "unat c + r < unat (a_addr tr) + unat (a_size tr)" "(unat c + r) mod 262144 = 0"
  proof -
    note e = block_end [OF r that(2)]
    then have b: "(unat c + r) div 262144 = Suc ?b" by simp
    have "262144 * Suc ?b < (?f + unat (fe_length (fes ! i))) * 262144"
      using that(1) tr e by (simp add: in_extent_def)
    then have "Suc (?b - ?f) < unat (fe_length (fes ! i))" using f by simp
    then show ?thesis
      using next_in_extent [OF cur fit] t b f by (simp add: translate_def Let_def Suc_diff_le)
  qed
  ultimately show ?thesis by (simp add: phys_def)
qed

lemma blocks_index_unique:
  assumes "j < length fes" "length (blocks_of (take j fes)) \<le> x" "x < length (blocks_of (take (Suc j) fes))"
    and "length (blocks_of (take i fes)) \<le> x" "x < length (blocks_of (take (Suc i) fes))"
  shows "j = i"
proof -
  have mono: "k \<le> l \<Longrightarrow> length (blocks_of (take k fes)) \<le> length (blocks_of (take l fes))" for k l
    using length_blocks_of_take [of k "take l fes"] by (simp add: min_def)
  show ?thesis using mono [of "Suc j" i] mono [of "Suc i" j] assms by linarith
qed

text \<open>Seeking a byte address that lies in an extent places the cursor in that extent.\<close>

lemma seek_in_extent:
  assumes "extmap_ok M fes" "ext_fit fes" "i < length fes"
  defines "f \<equiv> length (blocks_of (take i fes))"
  assumes "f * 262144 \<le> unat a" "unat a < (f + unat (fe_length (fes ! i))) * 262144"
  obtains M' where "mtl_extmap_seek M (a div StorageBlockSize) = (True, M')" "cursor_at M' fes i (unat a div 262144 - f)"
proof -
  let ?lb = "a div StorageBlockSize"
  have lb: "unat ?lb = unat a div 262144" by (simp add: unat_div)
  have "unat a div 262144 < f + unat (fe_length (fes ! i))" using assms(6) by (rule less_mult_imp_div_less)
  moreover have "f \<le> unat a div 262144" using assms(5) by (metis div_le_mono nonzero_mult_div_cancel_right zero_neq_numeral)
  ultimately have bounds: "f \<le> unat ?lb" "unat ?lb < length (blocks_of (take (Suc i) fes))"
    using blocks_of_take(1) [OF assms(3)] lb by (simp_all add: f_def)
  then have "unat ?lb < length (blocks_of fes)" using length_blocks_of_take [of "Suc i" fes] by linarith
  then obtain j m M' where M': "mtl_extmap_seek M ?lb = (True, M')" "cursor_at M' fes j m"
      "length (blocks_of (take j fes)) + m = unat ?lb"
    using seek_from_spec [OF assms(1,2), of 0 ?lb] by (auto simp: mtl_extmap_seek_def)
  have "j = i"
    using M'(2,3) bounds blocks_index_unique [of j fes "unat ?lb" i] blocks_of_take(1) [of j fes]
    by (simp add: cursor_at_def f_def)
  then have "cursor_at M' fes i (unat a div 262144 - f)" using M' lb by (metis add_diff_cancel_left' f_def)
  with M'(1) that show ?thesis by blast
qed

text \<open>
  C18: a transfer of a file range that lies in one extent, through the DRAM extent map: the partial
  transfers name, in order and each byte once, exactly the storage bytes that hold the range; each
  is not empty, and only the last one carries the \<open>last\<close> flag.
\<close>
theorem partial_transfers_cover:
  fixes N T nvme
  assumes "extmap_ok M fes" "ext_fit fes" "in_extent fes i tr" "a_map tr = MapDRAM" "0 < a_size tr"
  defines "es \<equiv> fst (issue_partial_transfers nvme T tr M N)"
  shows "transfer_bytes es =
      map (phys 262144 fes) [unat (a_addr tr) ..< unat (a_addr tr) + unat (a_size tr)]
    \<and> framed es \<and> (\<forall>e \<in> set es. 0 < t_size (t_data e) \<and> t_type (t_data e) = a_type tr)"
proof -
  let ?a = "unat (a_addr tr)" and ?s = "unat (a_size tr)" and ?f = "length (blocks_of (take i fes))"
  have s: "0 < ?s" using assms(5) by (simp add: word_less_nat_alt)
  have ie: "i < length fes" "?f * 262144 \<le> ?a" "?a + ?s \<le> (?f + unat (fe_length (fes ! i))) * 262144"
    using assms(3) by (auto simp: in_extent_def)
  then obtain M' where M': "mtl_extmap_seek M (a_addr tr div StorageBlockSize) = (True, M')"
      and cur: "cursor_at M' fes i (?a div 262144 - ?f)"
    using seek_in_extent [OF assms(1,2) ie(1,2)] s by auto
  have "?a + ?s \<le> 2 ^ 64" using assms(3) by (simp add: in_extent_def)
  have "transfer_bytes (fst (issue_loop nvme T tr 0 M' N)) = map (phys 262144 fes) [?a + unat (0 :: u64) ..< ?a + ?s]"
  proof (rule issue_loop_bytes [where I = "\<lambda>x d n. cursor_at d fes i (x div 262144 - ?f)"])
    fix c d n r adr nv d' n'
    assume h: "cursor_at d fes i (unat (c :: u64) div 262144 - ?f)" "?a \<le> unat c" "0 < (r :: nat)"
      "unat c mod 262144 + r \<le> 262144"
      "translate nvme T (a_map tr) c (c mod StorageBlockSize) d n = (adr, nv, d', n')"
    show "(\<forall>k<r. unat adr + k = phys 262144 fes (unat c + k)) \<and>
      (unat c + r < ?a + ?s \<longrightarrow> (unat c + r) mod 262144 = 0 \<longrightarrow>
         cursor_at d' fes i ((unat c + r) div 262144 - ?f))"
      by (rule dram_step [OF h(1) assms(2,3) h(2,4,3) h(5) [unfolded assms(4)]])
  qed (use cur s \<open>?a + ?s \<le> 2 ^ 64\<close> in simp_all)
  moreover have "fst (issue_partial_transfers nvme T tr M N) = fst (issue_loop nvme T tr 0 M' N)"
    using M'(1) by (simp add: issue_partial_transfers_def seek_maps_def assms(4))
  moreover have "(0 :: u64) < ucast (a_size tr)" using s by (simp add: word_less_nat_alt)
  ultimately show ?thesis using issue_loop_shape [of 0 tr nvme T M' N] by (simp add: es_def)
qed

theorem partial_transfers_cover_witness:
  "transfer_bytes (fst (issue_partial_transfers False TransferRead
       \<lparr>a_addr = 262140, a_size = 8, a_type = CardDRAM, a_map = MapDRAM\<rparr>
       (extmap_of [\<lparr>fe_offset = 5, fe_length = 2\<rparr>]) extmap_zero))
   = [1572860, 1572861, 1572862, 1572863, 1572864, 1572865, 1572866, 1572867]"
proof -
  let ?tr = "\<lparr>a_addr = 262140, a_size = 8, a_type = CardDRAM, a_map = MapDRAM\<rparr>"
    and ?fes = "[\<lparr>fe_offset = 5, fe_length = 2\<rparr>]"
  have b: "blocks_of ?fes = [5, 6]" by (simp add: upt_rec)
  have u: "[262140..<262148::nat] = [262140, 262141, 262142, 262143, 262144, 262145, 262146, 262147]"
    by (simp add: upt_rec)
  have "transfer_bytes (fst (issue_partial_transfers False TransferRead ?tr (extmap_of ?fes) extmap_zero))
      = map (phys 262144 ?fes) [unat (a_addr ?tr) ..< unat (a_addr ?tr) + unat (a_size ?tr)]"
    using partial_transfers_cover [of "extmap_of ?fes" ?fes 0 ?tr False TransferRead extmap_zero]
    by (simp add: ext_fit_def in_extent_def)
  then show ?thesis by (simp add: u phys_def b)
qed

section \<open>Transfers over more than one extent\<close>

text \<open>The cursor has been advanced to block \<open>m\<close> from the start of extent \<open>i\<close>, at most one too far.\<close>

definition cursor_past :: "mtl_extmap \<Rightarrow> mtl_file_extent list \<Rightarrow> nat \<Rightarrow> nat \<Rightarrow> bool" where
  "cursor_past M fes i m \<longleftrightarrow> extmap_ok M fes \<and> unat (current_extent M) = i \<and>
     m \<le> unat (fe_length (fes ! i)) \<and> current_pblock M = fe_offset (fes ! i) + word_of_nat m"

lemma cursor_past_next:
  assumes "cursor_past M fes i m" "ext_fit fes" "i < length fes" "m < unat (fe_length (fes ! i))"
  shows "cursor_past (mtl_extmap_next M) fes i (Suc m)"
proof -
  have "cursor_at M fes i m" using assms by (simp add: cursor_past_def cursor_at_def)
  then show ?thesis
    using next_stays [OF _ assms(2)] assms(1,4) by (simp add: cursor_past_def Suc_le_eq algebra_simps)
qed

lemma cursor_past_leave:
  assumes "cursor_past M fes i (unat (fe_length (fes ! i)))" "ext_fit fes" "Suc i < length fes"
  shows "cursor_past (mtl_extmap_next M) fes (Suc i) 0"
proof -
  have len: "length fes \<le> 512" using assms(2) by (simp add: ext_fit_def)
  have M: "extmap_ok M fes" "unat (current_extent M) = i"
    "current_pblock M = fe_offset (fes ! i) + fe_length (fes ! i)"
    using assms(1) by (simp_all add: cursor_past_def)
  have b: "extents_begin M ! i = fe_offset (fes ! i)" "extents_count M ! i = fe_length (fes ! i)"
    "extents_begin M ! Suc i = fe_offset (fes ! Suc i)"
    using extmap_ok_nth [OF M(1), of i] extmap_ok_nth [OF M(1), of "Suc i"] assms(3) len
    by (simp_all add: nth_or0_def)
  have c: "unat (current_extent M + 1) = Suc i"
    using M(2) assms(3) len by (simp add: unat_word_ariths)
  show ?thesis using M b c by (simp add: mtl_extmap_next_def cursor_past_def extmap_upto_def)
qed

text \<open>The blocks that the cursor visits from the start of an extent on: each extent and one block more.\<close>

definition visited :: "mtl_file_extent list \<Rightarrow> nat list" where
  "visited fes = concat (map (\<lambda>e. [unat (fe_offset e) ..< unat (fe_offset e) + unat (fe_length e) + 1]) fes)"

lemma visited_simps [simp]:
  "visited [] = []"
  "visited (e # fes) = [unat (fe_offset e) ..< unat (fe_offset e) + unat (fe_length e) + 1] @ visited fes"
  "visited (fes @ gs) = visited fes @ visited gs"
  by (simp_all add: visited_def)

lemma visited_at:
  assumes "k < length fes" "m \<le> unat (fe_length (fes ! k))"
  shows "visited fes ! (length (visited (take k fes)) + m) = unat (fe_offset (fes ! k)) + m"
    and "length (visited (take (Suc k) fes)) = length (visited (take k fes)) + unat (fe_length (fes ! k)) + 1"
    and "length (visited (take (Suc k) fes)) \<le> length (visited fes)"
proof -
  have "visited fes = visited (take k fes) @ visited (drop k fes)"
    by (metis append_take_drop_id visited_simps(3))
  moreover have "drop k fes = fes ! k # drop (Suc k) fes" using assms(1) by (rule Cons_nth_drop_Suc [symmetric])
  ultimately show "visited fes ! (length (visited (take k fes)) + m) = unat (fe_offset (fes ! k)) + m"
    using assms(2) by (simp add: nth_append del: upt_Suc)
  show "length (visited (take (Suc k) fes)) = length (visited (take k fes)) + unat (fe_length (fes ! k)) + 1"
    using assms(1) by (simp add: take_Suc_conv_app_nth del: upt_Suc)
  show "length (visited (take (Suc k) fes)) \<le> length (visited fes)"
    by (metis append_take_drop_id visited_simps(3) length_append le_add1)
qed

text \<open>The cursor stands on the \<open>q\<close>-th block that is visited from the start of extent \<open>i\<close> on.\<close>

definition walk_at :: "mtl_extmap \<Rightarrow> mtl_file_extent list \<Rightarrow> nat \<Rightarrow> nat \<Rightarrow> bool" where
  "walk_at M fes i q \<longleftrightarrow> (\<exists>k m. i + k < length fes \<and> cursor_past M fes (i + k) m \<and>
     q = length (visited (take k (drop i fes))) + m)"

lemma walk_at_pblock:
  assumes "walk_at M fes i q" "\<forall>fe \<in> set fes. unat (fe_offset fe) + unat (fe_length fe) < 2 ^ 64"
  shows "unat (mtl_extmap_pblock M) = visited (drop i fes) ! q"
    and "\<exists>fe \<in> set fes. visited (drop i fes) ! q \<le> unat (fe_offset fe) + unat (fe_length fe)"
proof -
  obtain k m where k: "i + k < length fes" "cursor_past M fes (i + k) m" "q = length (visited (take k (drop i fes))) + m"
    using assms(1) by (auto simp: walk_at_def)
  let ?fe = "fes ! (i + k)"
  have m: "m \<le> unat (fe_length ?fe)" "current_pblock M = fe_offset ?fe + word_of_nat m"
    using k(2) by (simp_all add: cursor_past_def)
  have b: "unat (fe_offset ?fe) + unat (fe_length ?fe) < 2 ^ 64" using assms(2) k(1) nth_mem by blast
  then have "unat (word_of_nat m :: u64) = m" using m(1) by (simp add: unat_of_nat)
  then have "unat (mtl_extmap_pblock M) = unat (fe_offset ?fe) + m"
    using m b by (simp add: mtl_extmap_pblock_def unat_add_exact)
  moreover have v: "visited (drop i fes) ! q = unat (fe_offset ?fe) + m"
    using visited_at(1) [of k "drop i fes" m] k m(1) by simp
  ultimately show "unat (mtl_extmap_pblock M) = visited (drop i fes) ! q" by simp
  show "\<exists>fe \<in> set fes. visited (drop i fes) ! q \<le> unat (fe_offset fe) + unat (fe_length fe)"
    using k(1) m(1) v by (intro bexI [of _ ?fe]) simp_all
qed

lemma walk_at_next:
  assumes "walk_at M fes i q" "ext_fit fes" "Suc q < length (visited (drop i fes))"
  shows "walk_at (mtl_extmap_next M) fes i (Suc q)"
proof -
  obtain k m where k: "i + k < length fes" "cursor_past M fes (i + k) m" "q = length (visited (take k (drop i fes))) + m"
    using assms(1) by (auto simp: walk_at_def)
  let ?l = "unat (fe_length (fes ! (i + k)))"
  have m: "m \<le> ?l" using k(2) by (simp add: cursor_past_def)
  show ?thesis
  proof (cases "m < ?l")
    case True
    then have "cursor_past (mtl_extmap_next M) fes (i + k) (Suc m)" by (rule cursor_past_next [OF k(2) assms(2) k(1)])
    then show ?thesis
      unfolding walk_at_def using k(1,3) by - (rule exI [of _ k], rule exI [of _ "Suc m"], simp)
  next
    case False
    then have ml: "m = ?l" using m by simp
    have s: "length (visited (take (Suc k) (drop i fes))) = Suc q"
      using visited_at(2) [of k "drop i fes" m] k(1,3) ml by simp
    have "i + Suc k < length fes"
    proof (rule ccontr)
      assume "\<not> i + Suc k < length fes"
      then have "take (Suc k) (drop i fes) = drop i fes" by simp
      then show False using s assms(3) by simp
    qed
    moreover from this have "cursor_past (mtl_extmap_next M) fes (i + Suc k) 0"
      using cursor_past_leave [OF k(2) [unfolded ml] assms(2)] by simp
    ultimately show ?thesis
      unfolding walk_at_def using s by - (rule exI [of _ "Suc k"], rule exI [of _ 0], simp)
  qed
qed

lemma walk_step:
  assumes w: "walk_at d fes i (unat (c :: u64) div 262144 - f)" and fit: "ext_fit fes"
    and small: "\<forall>fe \<in> set fes. (unat (fe_offset fe) + unat (fe_length fe) + 1) * 262144 \<le> 2 ^ 64"
    and c: "f * 262144 \<le> unat c" and r: "unat c mod 262144 + r \<le> 262144" "0 < r"
    and t: "translate nvme T MapDRAM c (c mod StorageBlockSize) d n = (adr, nv, d', n')"
  shows "(\<forall>k < r. unat adr + k =
       visited (drop i fes) ! ((unat c + k) div 262144 - f) * 262144 + (unat c + k) mod 262144) \<and>
    (unat c + r < (f + length (visited (drop i fes))) * 262144 \<longrightarrow> (unat c + r) mod 262144 = 0 \<longrightarrow>
       walk_at d' fes i ((unat c + r) div 262144 - f))"
proof -
  let ?b = "unat c div 262144" and ?V = "visited (drop i fes)"
  have f: "f \<le> ?b" using c by (metis div_le_mono nonzero_mult_div_cancel_right zero_neq_numeral)
  have sm: "\<forall>fe \<in> set fes. unat (fe_offset fe) + unat (fe_length fe) < 2 ^ 64" using small by fastforce
  note p = walk_at_pblock [OF w sm]
  have bound: "(?V ! (?b - f) + 1) * 262144 \<le> 2 ^ 64"
  proof -
    obtain fe where fe: "fe \<in> set fes" "?V ! (?b - f) \<le> unat (fe_offset fe) + unat (fe_length fe)" using p(2) by blast
    then have "(?V ! (?b - f) + 1) * 262144 \<le> (unat (fe_offset fe) + unat (fe_length fe) + 1) * 262144"
      by (intro mult_le_mono1) simp
    then show ?thesis using small fe(1) order_trans by blast
  qed
  have cm: "unat (c mod 0x40000) = unat c mod 262144" by (simp add: unat_mod)
  have "unat (mtl_extmap_pblock d * 0x40000) = ?V ! (?b - f) * 262144"
    using bound p(1) by (subst unat_mult_exact) simp_all
  then have adr: "unat adr = ?V ! (?b - f) * 262144 + unat c mod 262144"
    using t bound cm by (auto simp: translate_def Let_def unat_add_exact)
  have "(unat c + k) div 262144 = ?b \<and> (unat c + k) mod 262144 = unat c mod 262144 + k" if "k < r" for k
  proof -
    have "unat c + k = ?b * 262144 + (unat c mod 262144 + k)" by simp
    moreover have "unat c mod 262144 + k < 262144" using that r by linarith
    ultimately show ?thesis by (rule block_index)
  qed
  moreover have "walk_at d' fes i ((unat c + r) div 262144 - f)"
    if lt: "unat c + r < (f + length ?V) * 262144" and md: "(unat c + r) mod 262144 = 0"
  proof -
    note e = block_end [OF r md]
    then have b: "(unat c + r) div 262144 = Suc ?b" by simp
    have "Suc (?b - f) < length ?V" using lt f unfolding e by simp
    then show ?thesis
      using walk_at_next [OF w fit] t b f by (simp add: translate_def Let_def Suc_diff_le)
  qed
  ultimately show ?thesis using adr by simp
qed

text \<open>
  C30: what a transfer through the DRAM extent map really reads or writes when it starts in an
  extent of the file and goes on behind its end.  The blocks it visits are not those of the file: after
  every extent comes the block that follows the extent in the storage, and only then the first block
  of the file's next extent.  So the first block past the end of the extent is foreign, and every
  block of the next extent is used for the file's block one further.
\<close>
theorem transfer_overruns_extent:
  assumes "extmap_ok M fes" "ext_fit fes" "i < length fes" "a_map tr = MapDRAM" "0 < a_size tr"
    and "\<forall>fe \<in> set fes. (unat (fe_offset fe) + unat (fe_length fe) + 1) * 262144 \<le> 2 ^ 64"
  defines "f \<equiv> length (blocks_of (take i fes))" and "V \<equiv> visited (drop i fes)"
    and "l \<equiv> unat (fe_length (fes ! i))"
  assumes "f * 262144 \<le> unat (a_addr tr)" "unat (a_addr tr) < (f + l) * 262144"
    and "unat (a_addr tr) + unat (a_size tr) \<le> (f + length V) * 262144"
    and "unat (a_addr tr) + unat (a_size tr) \<le> 2 ^ 64"
  shows "transfer_bytes (fst (issue_partial_transfers nvme T tr M N)) =
      map (\<lambda>x. V ! (x div 262144 - f) * 262144 + x mod 262144)
        [unat (a_addr tr) ..< unat (a_addr tr) + unat (a_size tr)] \<and>
    (\<forall>m < l. V ! m = blocks_of fes ! (f + m)) \<and>
    V ! l = unat (fe_offset (fes ! i)) + l \<and>
    (Suc i < length fes \<longrightarrow>
      (\<forall>m < unat (fe_length (fes ! Suc i)). V ! (l + 1 + m) = blocks_of fes ! (f + l + m)))"
proof -
  let ?a = "unat (a_addr tr)" and ?s = "unat (a_size tr)"
  have s: "0 < ?s" using assms(5) by (simp add: word_less_nat_alt)
  obtain M' where M': "mtl_extmap_seek M (a_addr tr div StorageBlockSize) = (True, M')"
      "cursor_at M' fes i (?a div 262144 - f)"
    using seek_in_extent [OF assms(1-3)] assms(10,11) by (auto simp: f_def l_def)
  then have w: "walk_at M' fes i (?a div 262144 - f)"
    using assms(3) by (auto simp: walk_at_def cursor_past_def cursor_at_def intro!: exI [of _ 0])
  have "transfer_bytes (fst (issue_loop nvme T tr 0 M' N)) =
      map (\<lambda>x. V ! (x div 262144 - f) * 262144 + x mod 262144) [?a + unat (0 :: u64) ..< ?a + ?s]"
  proof (rule issue_loop_bytes [where I = "\<lambda>x d n. walk_at d fes i (x div 262144 - f)"])
    fix c d n r adr nv d' n'
    assume h: "walk_at d fes i (unat (c :: u64) div 262144 - f)" "?a \<le> unat c" "0 < (r :: nat)"
      "unat c mod 262144 + r \<le> 262144"
      "translate nvme T (a_map tr) c (c mod StorageBlockSize) d n = (adr, nv, d', n')"
    have "f * 262144 \<le> unat c" using assms(10) h(2) by (rule order_trans)
    then show "(\<forall>k<r. unat adr + k = V ! ((unat c + k) div 262144 - f) * 262144 + (unat c + k) mod 262144) \<and>
      (unat c + r < ?a + ?s \<longrightarrow> (unat c + r) mod 262144 = 0 \<longrightarrow> walk_at d' fes i ((unat c + r) div 262144 - f))"
      using walk_step [OF h(1) assms(2,6) _ h(4,3) h(5) [unfolded assms(4)]] assms(12) by (auto simp: V_def)
  qed (use w s assms(13) in simp_all)
  then have bytes: "transfer_bytes (fst (issue_partial_transfers nvme T tr M N)) =
      map (\<lambda>x. V ! (x div 262144 - f) * 262144 + x mod 262144) [?a ..< ?a + ?s]"
    using M'(1) by (simp add: issue_partial_transfers_def seek_maps_def assms(4))
  have V: "V ! m = unat (fe_offset (fes ! i)) + m" if "m \<le> l" for m
    using visited_at(1) [of 0 "drop i fes" m] that assms(3) by (simp add: V_def l_def)
  have next_ext: "V ! (l + 1 + m) = blocks_of fes ! (f + l + m)"
    if "Suc i < length fes" "m < unat (fe_length (fes ! Suc i))" for m
  proof -
    have "length (visited (take 1 (drop i fes))) = l + 1"
      using visited_at(2) [of 0 "drop i fes" 0] assms(3) by (simp add: l_def)
    then have "V ! (l + 1 + m) = unat (fe_offset (fes ! Suc i)) + m"
      using visited_at(1) [of 1 "drop i fes" m] that by (simp add: V_def)
    moreover have "blocks_of fes ! (f + l + m) = unat (fe_offset (fes ! Suc i)) + m"
      using blocks_of_take(3) [OF that] blocks_of_take(1) [OF assms(3)] by (simp add: f_def l_def)
    ultimately show ?thesis by simp
  qed
  show ?thesis
    using bytes V next_ext blocks_of_take(3) [OF assms(3)] by (simp add: f_def l_def)
qed

text \<open>Two extents of one block each, and a transfer of three blocks: blocks 5, 6 and 9 of the storage.\<close>

theorem transfer_overruns_extent_witness:
  "transfer_bytes (fst (issue_partial_transfers False TransferRead
       \<lparr>a_addr = 0, a_size = 0xC0000, a_type = CardDRAM, a_map = MapDRAM\<rparr>
       (extmap_of [\<lparr>fe_offset = 5, fe_length = 1\<rparr>, \<lparr>fe_offset = 9, fe_length = 1\<rparr>]) extmap_zero))
   = map (\<lambda>x. [5, 6, 9, 10] ! (x div 262144) * 262144 + x mod 262144) [0 ..< 786432]"
proof -
  let ?fes = "[\<lparr>fe_offset = 5, fe_length = 1\<rparr>, \<lparr>fe_offset = 9, fe_length = 1\<rparr>]"
    and ?tr = "\<lparr>a_addr = 0, a_size = 0xC0000, a_type = CardDRAM, a_map = MapDRAM\<rparr>"
  have v: "visited ?fes = [5, 6, 9, 10]" by (simp add: upt_rec)
  show ?thesis
    using transfer_overruns_extent [of "extmap_of ?fes" ?fes 0 ?tr False TransferRead extmap_zero]
    by (simp add: ext_fit_def v del: upt_rec_numeral visited_simps)
qed

end
