(* ===== verification/Transfers.thy ===== *)
theory Transfers
  imports Op_Mem
begin

text \<open>
  What the stages of a read and of a write do with a whole transfer: they return as soon as every
  command is answered, they issue the commands of the partial transfers in order, and a write
  stops issuing commands at the end of the packet.
\<close>

section \<open>The stages on a packet\<close>

definition is_nvme :: "TransferElement \<Rightarrow> bool" where
  "is_nvme e \<longleftrightarrow> t_type (t_data e) = NVMe"

definition nvme_count :: "TransferElement list \<Rightarrow> nat" where
  "nvme_count es = length (filter is_nvme es)"

lemma nvme_count_simps [simp]:
  "nvme_count [] = 0"
  "nvme_count (e # es) = (if t_type (t_data e) = NVMe then Suc (nvme_count es) else nvme_count es)"
  by (simp_all add: nvme_count_def is_nvme_def)

lemma framed_induct [consumes 1, case_names last more]:
  assumes "framed es"
    and "\<And>e. t_last e \<Longrightarrow> P [e]"
    and "\<And>e es. \<not> t_last e \<Longrightarrow> framed es \<Longrightarrow> P es \<Longrightarrow> P (e # es)"
  shows "P es"
  using assms(1)
proof (induction es)
  case (Cons e es)
  then show ?case using assms(2,3) by (cases "es = []") (auto simp: framed_Cons)
qed simp

lemma pass_through_framed: "framed es \<Longrightarrow> pass_through es = Some es"
  by (induction rule: framed_induct) auto

lemma transfer_to_stream_framed:
  assumes "framed es"
  shows "transfer_to_stream es sts =
    (if length es \<le> length sts then Some (map dm_command es, drop (length es) sts) else None)"
proof -
  have i: "transfer_to_stream_issue es = Some (es, map dm_command es)"
    using assms by (induction rule: framed_induct) auto
  have c: "transfer_to_stream_collect es sts = (if length es \<le> length sts then Some (drop (length es) sts) else None)"
    using assms by (induction arbitrary: sts rule: framed_induct) (auto split: list.splits)
  show ?thesis by (simp add: transfer_to_stream_def i c)
qed

lemma load_nvme_collect_framed:
  assumes "framed es"
  shows "load_nvme_collect es resp =
    (if nvme_count es \<le> length resp then Some (es, drop (nvme_count es) resp) else None)"
  using assms by (induction arbitrary: resp rule: framed_induct) (auto split: list.splits)

text \<open>The commands that go with the NVMe elements of a packet.\<close>

fun nvme_commands :: "TransferElement list \<Rightarrow> u64 list \<Rightarrow> NVMeCommand list" where
  "nvme_commands [] ns = []"
| "nvme_commands (e # es) ns =
     (if is_nvme e then
        (case ns of [] \<Rightarrow> []
         | n # ns \<Rightarrow> issue_nvme_block_transfer_command n (NVMeDRAMBaseOffset + t_address (t_data e))
                      # nvme_commands es ns)
      else nvme_commands es ns)"

lemma length_nvme_commands: "nvme_count es \<le> length ns \<Longrightarrow> length (nvme_commands es ns) = nvme_count es"
  by (induction es ns rule: nvme_commands.induct) (auto simp: is_nvme_def split: list.splits)

lemma load_nvme_issue_framed:
  assumes "framed es"
  shows "load_nvme_issue es ns =
    (if nvme_count es \<le> length ns then Some (es, nvme_commands es ns, drop (nvme_count es) ns) else None)"
  using assms by (induction arbitrary: ns rule: framed_induct) (auto simp: is_nvme_def Let_def split: list.splits)

lemma load_nvme_data_framed:
  assumes "framed es"
  shows "load_nvme_data nvme es ns resp =
    (if nvme then
       if nvme_count es \<le> length ns \<and> nvme_count es \<le> length resp
       then Some (es, nvme_commands es ns, drop (nvme_count es) resp) else None
     else Some (es, [], resp))"
  using assms
  by (simp add: load_nvme_data_def load_nvme_issue_framed load_nvme_collect_framed pass_through_framed)

section \<open>Reads\<close>

lemma issue_loop_nvme_length:
  assumes "nvme" "a_map tr = MapNVMe \<or> a_map tr = MapDRAMAndNVMe"
  shows "length (fst (snd (issue_loop nvme T tr bt d n))) = length (fst (issue_loop nvme T tr bt d n))"
proof (induction "unat (ucast (a_size tr) :: u64) - unat bt" arbitrary: bt d n rule: less_induct)
  case less
  show ?case
  proof (cases "bt < ucast (a_size tr)")
    case True
    define r where "r = round_bytes (a_addr tr + bt) (ucast (a_size tr) - bt)"
    obtain adr nv d' n' where t: "translate nvme T (a_map tr) (a_addr tr + bt)
        ((a_addr tr + bt) mod StorageBlockSize) d n = (adr, nv, d', n')"
      by (metis prod_cases4)
    then have "length nv = 1" using assms by (auto simp: translate_def Let_def)
    moreover obtain es ns d2 n2 where rec: "issue_loop nvme T tr (bt + r) d' n' = (es, ns, d2, n2)"
      by (metis prod_cases4)
    moreover have "length ns = length es"
      using less [of "bt + r" d' n'] rec issue_loop_progress [OF True, of "a_addr tr + bt", folded r_def] by simp
    ultimately show ?thesis using issue_loop_step [OF True t] by (simp add: r_def)
  qed (simp add: issue_loop_end)
qed

text \<open>What a transfer asks of its surroundings: how many partial transfers it has.\<close>

definition partials :: "bool \<Rightarrow> TransferType \<Rightarrow> Address \<Rightarrow> mtl_extmap \<Rightarrow> mtl_extmap \<Rightarrow> TransferElement list" where
  "partials nvme T tr d n = fst (issue_partial_transfers nvme T tr d n)"

lemma partials_shape:
  assumes "0 < a_size tr"
  shows "framed (partials nvme T tr d n)"
    "e \<in> set (partials nvme T tr d n) \<Longrightarrow> t_type (t_data e) = a_type tr \<and> 0 < t_size (t_data e)"
proof -
  have "(0 :: u64) < ucast (a_size tr)" using assms by (simp add: word_less_nat_alt)
  then show "framed (partials nvme T tr d n)"
    "e \<in> set (partials nvme T tr d n) \<Longrightarrow> t_type (t_data e) = a_type tr \<and> 0 < t_size (t_data e)"
    using issue_loop_shape [of 0 tr nvme T] by (auto simp: partials_def issue_partial_transfers_def split: prod.splits)
qed

lemma partials_nvme_count:
  assumes "0 < a_size tr"
  shows "nvme_count (partials nvme T tr d n) = (if a_type tr = NVMe then length (partials nvme T tr d n) else 0)"
proof -
  have "\<forall>e \<in> set (partials nvme T tr d n). is_nvme e \<longleftrightarrow> a_type tr = NVMe"
    using partials_shape(2) [OF assms] by (auto simp: is_nvme_def)
  then show ?thesis by (auto simp: nvme_count_def filter_True filter_False)
qed

lemma partials_nvme_transfers:
  assumes "nvme" "a_map tr = MapNVMe \<or> a_map tr = MapDRAMAndNVMe"
  shows "length (fst (snd (issue_partial_transfers nvme T tr d n))) = length (partials nvme T tr d n)"
  using issue_loop_nvme_length [OF assms] by (simp add: partials_def issue_partial_transfers_def split: prod.splits)

text \<open>
  C20: \<open>load\_data\<close> of a transfer that is not empty returns as soon as the DataMover has a status for
  every partial transfer and the NVMe controller a response for every NVMe block, and then exactly
  the commands of the partial transfers have been issued, in order; of an empty transfer it never
  returns, whatever the streams hold, because its stages wait for a last element.
\<close>
theorem load_data_returns:
  assumes "a_type tr = NVMe \<longrightarrow> nvme \<and> (a_map tr = MapNVMe \<or> a_map tr = MapDRAMAndNVMe)"
    and "length (partials nvme TransferRead tr (r_dram_map s) (r_nvme_map s)) \<le> length (r_dm_sts s)"
    and "a_type tr = NVMe \<longrightarrow>
      length (partials nvme TransferRead tr (r_dram_map s) (r_nvme_map s)) \<le> length (r_nvme_resp s)"
  shows "if 0 < a_size tr
    then \<exists>s'. load_data nvme tr s = Some s'
       \<and> r_dm_cmd s' = r_dm_cmd s @ map dm_command (partials nvme TransferRead tr (r_dram_map s) (r_nvme_map s))
       \<and> length (r_nvme_cmd s') = length (r_nvme_cmd s) +
           (if a_type tr = NVMe then length (partials nvme TransferRead tr (r_dram_map s) (r_nvme_map s)) else 0)
    else load_data nvme tr s = None"
proof (cases "0 < a_size tr")
  case True
  let ?p = "partials nvme TransferRead tr (r_dram_map s) (r_nvme_map s)"
  obtain ns d n where i: "issue_partial_transfers nvme TransferRead tr (r_dram_map s) (r_nvme_map s) = (?p, ns, d, n)"
    by (cases "issue_partial_transfers nvme TransferRead tr (r_dram_map s) (r_nvme_map s)") (simp add: partials_def)
  have c: "nvme_count ?p = (if a_type tr = NVMe then length ?p else 0)" by (rule partials_nvme_count [OF True])
  have ns: "nvme_count ?p \<le> length ns"
    using partials_nvme_transfers [of nvme tr TransferRead "r_dram_map s" "r_nvme_map s"] assms(1) i c by auto
  have resp: "nvme_count ?p \<le> length (r_nvme_resp s)" using assms(3) c by auto
  show ?thesis
  proof (cases nvme)
    case nv: True
    have "length (nvme_commands ?p ns) = nvme_count ?p" by (rule length_nvme_commands [OF ns])
    then show ?thesis
      using i ns resp nv c True assms(2) partials_shape(1) [OF True]
      by (simp add: load_data_def load_nvme_data_framed transfer_to_stream_framed)
  next
    case False
    then show ?thesis using i c True assms partials_shape(1) [OF True]
      by (auto simp: load_data_def load_nvme_data_framed transfer_to_stream_framed)
  qed
next
  case False
  then have "a_size tr = 0" by (simp add: word_gt_0)
  then have "fst (issue_partial_transfers nvme TransferRead tr (r_dram_map s) (r_nvme_map s)) = []"
    by (simp add: issue_partial_transfers_def issue_loop_end split: prod.splits)
  then show ?thesis using False by (auto simp: load_data_def load_nvme_data_def split: prod.splits)
qed

theorem load_data_returns_witness:
  "\<exists>s'. load_data False \<lparr>a_addr = 0x1000, a_size = 8, a_type = Host, a_map = MapNone\<rparr>
     \<lparr>r_dm_cmd = [], r_dm_sts = [0], r_nvme_cmd = [], r_nvme_resp = [], r_dram_map = extmap_zero, r_nvme_map = extmap_zero\<rparr>
     = Some s' \<and> map dm_transfer_bytes (r_dm_cmd s') = [8]"
proof -
  let ?tr = "\<lparr>a_addr = 0x1000, a_size = 8, a_type = Host, a_map = MapNone\<rparr>"
  have p: "partials False TransferRead ?tr extmap_zero extmap_zero =
      [\<lparr>t_data = \<lparr>t_address = 0x1000, t_size = 8, t_type = Host\<rparr>, t_last = True\<rparr>]"
    by (simp add: partials_def issue_partial_transfers_def seek_maps_def issue_loop.simps Let_def
        round_bytes_def translate_def)
  show ?thesis
    using load_data_returns [of ?tr False "\<lparr>r_dm_cmd = [], r_dm_sts = [0], r_nvme_cmd = [], r_nvme_resp = [],
      r_dram_map = extmap_zero, r_nvme_map = extmap_zero\<rparr>"]
    by (simp add: p dm_command_def issue_block_transfer_command_def) fastforce
qed

section \<open>Writes\<close>

text \<open>How many statuses a packet of \<open>n\<close> elements consumes: up to the end of the packet.\<close>

fun statuses_used :: "nat \<Rightarrow> ibtt_status list \<Rightarrow> nat" where
  "statuses_used 0 sts = 0"
| "statuses_used (Suc n) [] = 0"
| "statuses_used (Suc n) (r # sts) = (if ibtt_eop r then 1 else Suc (statuses_used n sts))"

definition zero_size :: "TransferElement \<Rightarrow> TransferElement" where
  "zero_size e = e\<lparr>t_data := (t_data e)\<lparr>t_size := 0\<rparr>\<rparr>"

lemma zero_size_simps [simp]:
  "t_last (zero_size e) = t_last e" "t_size (t_data (zero_size e)) = 0"
  "t_type (t_data (zero_size e)) = t_type (t_data e)"
  by (simp_all add: zero_size_def)

lemma statuses_used_le: "statuses_used n sts \<le> n" "statuses_used n sts \<le> length sts"
  by (induction n sts rule: statuses_used.induct) auto

text \<open>There are statuses enough: one for each element, or one that ends the packet.\<close>

fun answered :: "nat \<Rightarrow> ibtt_status list \<Rightarrow> bool" where
  "answered 0 sts \<longleftrightarrow> True"
| "answered (Suc n) [] \<longleftrightarrow> False"
| "answered (Suc n) (r # sts) \<longleftrightarrow> ibtt_eop r \<or> answered n sts"

lemma transfer_from_stream_after_eop:
  assumes "framed es"
  shows "transfer_from_stream_loop True b es sts = Some (map zero_size es, [], b, sts)"
  using assms by (induction rule: framed_induct) (simp_all add: zero_size_def Let_def)

lemma transfer_from_stream_loop_framed:
  assumes "framed es"
  shows "transfer_from_stream_loop False b es sts =
    (if answered (length es) sts then
       let k = statuses_used (length es) sts in
       Some (take k es @ map zero_size (drop k es), map dm_command (take k es),
             b + sum_list (map ibtt_bytes (take k sts)), drop k sts)
     else None)"
  using assms
proof (induction arbitrary: b sts rule: framed_induct)
  case (last e)
  then show ?case by (cases sts) simp_all
next
  case (more e es)
  show ?case
  proof (cases sts)
    case (Cons r rs)
    show ?thesis
    proof (cases "ibtt_eop r")
      case True
      then show ?thesis using more Cons by (simp add: transfer_from_stream_after_eop Let_def)
    next
      case False
      then show ?thesis using more Cons by (simp add: Let_def add.assoc)
    qed
  qed (use more in simp)
qed

text \<open>
  C31: \<open>transfer\_from\_stream\<close> of a packet returns exactly if there is a status for each of its
  elements or one that ends the packet early; commands are issued for the elements up to that
  point and for none behind it, the number of bytes is the sum of what their statuses report, and
  every element is handed on, the later ones with size 0.
\<close>
theorem transfer_from_stream_stops:
  assumes "framed es"
  shows "transfer_from_stream es sts =
    (if answered (length es) sts then
       Some (take (statuses_used (length es) sts) es @ map zero_size (drop (statuses_used (length es) sts) es),
             map dm_command (take (statuses_used (length es) sts) es),
             sum_list (map ibtt_bytes (take (statuses_used (length es) sts) sts)),
             drop (statuses_used (length es) sts) sts)
     else None)"
  using transfer_from_stream_loop_framed [OF assms, of 0 sts] by (simp add: transfer_from_stream_def Let_def)

theorem transfer_from_stream_stops_witness:
  "\<exists>outs cmds. transfer_from_stream
     [\<lparr>t_data = \<lparr>t_address = 0, t_size = 0x40000, t_type = Host\<rparr>, t_last = False\<rparr>,
      \<lparr>t_data = \<lparr>t_address = 0x40000, t_size = 0x40000, t_type = Host\<rparr>, t_last = True\<rparr>] [0x80000800]
   = Some (outs, cmds, 8, []) \<and> length cmds = 1 \<and> map (t_size \<circ> t_data) outs = [0x40000, 0]"
proof -
  have e: "ibtt_eop 0x80000800" by (simp add: ibtt_eop_def bit_numeral_rec)
  have b: "ibtt_bytes 0x80000800 = 8" by (simp add: ibtt_bytes_def get_range_def)
  have "length [a, b] = Suc (Suc 0)" for a b :: TransferElement by simp
  then show ?thesis
    using transfer_from_stream_stops [of "[\<lparr>t_data = \<lparr>t_address = 0, t_size = 0x40000, t_type = Host\<rparr>, t_last = False\<rparr>,
      \<lparr>t_data = \<lparr>t_address = 0x40000, t_size = 0x40000, t_type = Host\<rparr>, t_last = True\<rparr>]" "[0x80000800]"]
    by (simp add: e b)
qed

lemma write_nvme_issue_framed:
  assumes "framed es" "nvme_count es \<le> length ns"
  shows "\<exists>cmds. write_nvme_issue es ns = Some (es, cmds, drop (nvme_count es) ns)
    \<and> length cmds = length (filter (\<lambda>e. is_nvme e \<and> 0 < t_size (t_data e)) es)"
  using assms
proof (induction arbitrary: ns rule: framed_induct)
  case (last e)
  then show ?case by (cases ns) (auto simp: is_nvme_def Let_def)
next
  case (more e es)
  show ?case
  proof (cases "is_nvme e")
    case True
    then obtain n ns' where ns: "ns = n # ns'" "nvme_count es \<le> length ns'"
      using more.prems by (cases ns) (auto simp: is_nvme_def)
    then show ?thesis using more.IH [OF ns(2)] more.hyps True by (auto simp: is_nvme_def Let_def)
  next
    case False
    then show ?thesis using more.IH [of ns] more.hyps more.prems by (auto simp: is_nvme_def)
  qed
qed

lemma framed_zeroed: "framed es \<Longrightarrow> framed (take k es @ map zero_size (drop k es))"
proof (induction arbitrary: k rule: framed_induct)
  case (last e)
  then show ?case by (cases k) auto
next
  case (more e es)
  then have "es \<noteq> []" by auto
  with more show ?case using more.IH [of 0] by (cases k) (auto simp: framed_Cons)
qed

lemma nvme_count_zeroed: "nvme_count (take k es @ map zero_size (drop k es)) = nvme_count es"
proof (induction es arbitrary: k)
  case (Cons e es)
  then show ?case using Cons.IH [of 0] by (cases k) auto
qed simp

text \<open>
  C32: a write to NVMe whose stream is as long as announced returns as soon as the NVMe controller
  has answered every command it was sent, one for each storage block; if the packet ends early,
  the collecting loop still waits for a response for each block, also for those of size 0 for
  which no command was sent, so the write never returns although every command is answered.
\<close>
theorem write_data_nvme_early_end:
  assumes "nvme" "a_type tr = NVMe" "a_map tr = MapNVMe \<or> a_map tr = MapDRAMAndNVMe" "0 < a_size tr"
    and n: "n = length (partials nvme TransferWrite tr (w_dram_map s) (w_nvme_map s))"
    and "answered n (w_dm_sts s)" "length (w_nvme_resp s) = statuses_used n (w_dm_sts s)"
  shows "if statuses_used n (w_dm_sts s) = n
    then \<exists>s'. write_data nvme tr s = Some (sum_list (map ibtt_bytes (take n (w_dm_sts s))), s')
       \<and> length (w_nvme_cmd s') = length (w_nvme_cmd s) + n
    else write_data nvme tr s = None"
proof -
  let ?p = "partials nvme TransferWrite tr (w_dram_map s) (w_nvme_map s)"
  let ?k = "statuses_used n (w_dm_sts s)"
  let ?z = "take ?k ?p @ map zero_size (drop ?k ?p)"
  obtain ns d m where i: "issue_partial_transfers nvme TransferWrite tr (w_dram_map s) (w_nvme_map s) = (?p, ns, d, m)"
    by (cases "issue_partial_transfers nvme TransferWrite tr (w_dram_map s) (w_nvme_map s)") (simp add: partials_def)
  have f: "framed ?p" by (rule partials_shape(1) [OF assms(4)])
  have count: "nvme_count ?z = n" using partials_nvme_count [OF assms(4)] assms(2) n by (simp add: nvme_count_zeroed)
  have "length ns = n"
    using partials_nvme_transfers [OF assms(1,3), of TransferWrite "w_dram_map s" "w_nvme_map s"] i n by simp
  then obtain cmds where w: "write_nvme_issue ?z ns = Some (?z, cmds, drop n ns)"
      "length cmds = length (filter (\<lambda>e. is_nvme e \<and> 0 < t_size (t_data e)) ?z)"
    using write_nvme_issue_framed [OF framed_zeroed [OF f], of ?k ns] count by auto
  have c: "load_nvme_collect ?z (w_nvme_resp s) = (if n \<le> ?k then Some (?z, drop n (w_nvme_resp s)) else None)"
    using load_nvme_collect_framed [OF framed_zeroed [OF f], of ?k] count assms(7) by simp
  have t: "transfer_from_stream ?p (w_dm_sts s) = Some (?z, map dm_command (take ?k ?p),
      sum_list (map ibtt_bytes (take ?k (w_dm_sts s))), drop ?k (w_dm_sts s))"
    using transfer_from_stream_loop_framed [OF f, of 0 "w_dm_sts s"] assms(6) n
    by (simp add: transfer_from_stream_def Let_def)
  show ?thesis
  proof (cases "?k = n")
    case True
    then have "length cmds = n"
      using w(2) n partials_shape(2) [OF assms(4)] assms(2) by (simp add: is_nvme_def filter_True)
    then show ?thesis using True i t w(1) c assms(1) by (simp add: write_data_def write_nvme_data_def)
  next
    case False
    then have "?k < n" using statuses_used_le(1) [of n "w_dm_sts s"] by simp
    then show ?thesis using False i t w(1) c assms(1) by (simp add: write_data_def write_nvme_data_def)
  qed
qed

text \<open>A file of two blocks on NVMe, and the packet that ends in its first block.\<close>

definition early_write :: "Address \<times> write_port" where
  "early_write =
     (\<lparr>a_addr = 0, a_size = 0x80000, a_type = NVMe, a_map = MapNVMe\<rparr>,
      \<lparr>w_dm_cmd = [], w_dm_sts = [0x80000800], w_nvme_cmd = [], w_nvme_resp = [True],
       w_dram_map = extmap_zero, w_nvme_map = extmap_of [\<lparr>fe_offset = 5, fe_length = 2\<rparr>]\<rparr>)"

lemma early_write_partials:
  "length (partials True TransferWrite (fst early_write) d n) = Suc (Suc 0)"
proof -
  let ?tr = "\<lparr>a_addr = 0, a_size = 0x80000, a_type = NVMe, a_map = MapNVMe\<rparr>"
  have r: "round_bytes 0 0x80000 = 0x40000" "round_bytes 0x40000 0x40000 = 0x40000"
    by (simp_all add: round_bytes_def)
  have "length (fst (issue_loop True TransferWrite ?tr 0 d' n')) = Suc (Suc 0)" for d' n'
    by (simp add: issue_loop.simps [of _ _ _ 0] issue_loop.simps [of _ _ _ "0x40000"]
        issue_loop.simps [of _ _ _ "0x80000"] Let_def r translate_def)
  then show ?thesis by (simp add: early_write_def partials_def issue_partial_transfers_def split: prod.splits)
qed

theorem write_data_nvme_early_end_witness:
  "write_data True (fst early_write) (snd early_write) = None"
proof -
  have e: "ibtt_eop 0x80000800" by (simp add: ibtt_eop_def bit_numeral_rec)
  show ?thesis
    using write_data_nvme_early_end [of True "fst early_write" "Suc (Suc 0)" "snd early_write"]
    unfolding early_write_partials by (simp add: early_write_def e)
qed

end
