(* ===== verification/Jobs.thy ===== *)
theory Jobs
  imports Transfers
begin

text \<open>
  The action of the FPGA: the stream switch (\<open>axi_switch.cpp\<close>), the performance monitor
  (\<open>axi_perfmon.cpp\<close>), the operators (\<open>operators.cpp\<close>), the jobs (\<open>mtl_jobs.cpp\<close>) and the entry
  point (\<open>hls_action.cpp\<close>), for the synthesised build (\<open>NO_SYNTH\<close> is not defined).

  Control registers are memory-mapped hardware: a write is recorded with its word address, in the
  order of the writes, and what a read returns is the argument \<open>f_regs\<close>.  The interrupt register is
  the sequence of values it will show.  An action is \<^term>\<open>None\<close> when it waits for ever.
\<close>

section \<open>State\<close>

datatype snap_retc = SNAP_RETC_SUCCESS | SNAP_RETC_FAILURE | RETC_ACTION_TYPE

record Job =
  job_address :: u64
  job_type :: "JobType option"
  j_source :: Address
  j_destination :: Address
  direct_data :: "u64 list"

record fpga =
  f_mem :: membus_mem
  f_regs :: "u32 \<Rightarrow> u32"
  f_writes :: "reg_write list"
  f_interrupts :: "u8 list"
  f_read :: read_port
  f_write :: write_port
  read_mem_config :: Address
  write_mem_config :: Address

definition PerfmonBaseAddr :: u32 where "PerfmonBaseAddr = 0x44A10000 div 4"
definition DataPreselectSwitchBaseAddr :: u32 where "DataPreselectSwitchBaseAddr = 0x44A20000 div 4"
definition RandomBaseAddr :: u32 where "RandomBaseAddr = 0x44A30000 div 4"
definition ImageInfoBaseAddr :: u32 where "ImageInfoBaseAddr = 0x44A00000 div 4"
definition SwitchBaseAddr :: u32 where "SwitchBaseAddr = 0x44A40000 div 4"
definition OperatorBaseAddr :: u32 where "OperatorBaseAddr = 0x44A50000 div 4"
definition OperatorOffset :: u32 where "OperatorOffset = 0x10000 div 4"

definition reg_out :: "reg_write list \<Rightarrow> fpga \<Rightarrow> fpga" where
  "reg_out ws s = s\<lparr>f_writes := f_writes s @ ws\<rparr>"

section \<open>Stream switch\<close>

definition AXI_STREAM_SWITCH_MAPPING_CONFIG_OFFSET :: u32 where
  "AXI_STREAM_SWITCH_MAPPING_CONFIG_OFFSET = 0x40 div 4"

definition switch_set_mapping :: "u32 \<Rightarrow> u32 \<Rightarrow> u32 \<Rightarrow> reg_write" where
  "switch_set_mapping switch_ctrl data_in data_out =
     (switch_ctrl + AXI_STREAM_SWITCH_MAPPING_CONFIG_OFFSET + data_out, data_in)"

definition switch_disable_output :: "u32 \<Rightarrow> u32 \<Rightarrow> reg_write" where
  "switch_disable_output switch_ctrl data_out =
     (switch_ctrl + AXI_STREAM_SWITCH_MAPPING_CONFIG_OFFSET + data_out, 0x80000000)"

definition switch_commit :: "u32 \<Rightarrow> reg_write" where
  "switch_commit switch_ctrl = (switch_ctrl, 2)"

definition op_mem_set_config :: "Address \<Rightarrow> bool \<Rightarrow> u32 \<Rightarrow> Address \<times> reg_write list" where
  "op_mem_set_config address read switch_ctrl =
     (let config = address;
          ws = (if read then
                  (case a_type config of
                     Host \<Rightarrow> [switch_set_mapping switch_ctrl 0 0]
                   | CardDRAM \<Rightarrow> [switch_set_mapping switch_ctrl 0 0]
                   | NVMe \<Rightarrow> [switch_set_mapping switch_ctrl 0 0]
                   | Random \<Rightarrow> [switch_set_mapping switch_ctrl 1 0]
                   | Null \<Rightarrow> [])
                else
                  (case a_type config of
                     Host \<Rightarrow> [switch_set_mapping switch_ctrl 2 1, switch_disable_output switch_ctrl 2]
                   | CardDRAM \<Rightarrow> [switch_set_mapping switch_ctrl 2 1, switch_disable_output switch_ctrl 2]
                   | NVMe \<Rightarrow> [switch_set_mapping switch_ctrl 2 1, switch_disable_output switch_ctrl 2]
                   | Null \<Rightarrow> [switch_disable_output switch_ctrl 1, switch_set_mapping switch_ctrl 2 2]
                   | Random \<Rightarrow> []))
      in (config, ws @ [switch_commit switch_ctrl]))"

section \<open>Performance monitor\<close>

definition action_configure_perfmon :: "u32 \<Rightarrow> u8 \<Rightarrow> u8 \<Rightarrow> reg_write list" where
  "action_configure_perfmon perfmon_ctrl stream_id0 stream_id1 =
     (let id0 = ucast stream_id0 :: u32; id1 = ucast stream_id1 :: u32;
          metrics_0 = 0x15121110 OR push_bit (0 * 8 + 5) id0 OR push_bit (1 * 8 + 5) id0
            OR push_bit (2 * 8 + 5) id0 OR push_bit (3 * 8 + 5) id0;
          metrics_1 = 0x12111016 OR push_bit (0 * 8 + 5) id0 OR push_bit (1 * 8 + 5) id1
            OR push_bit (2 * 8 + 5) id1 OR push_bit (3 * 8 + 5) id1;
          metrics_2 = 0x00001615 OR push_bit (0 * 8 + 5) id1 OR push_bit (1 * 8 + 5) id1
      in [(perfmon_ctrl + 0x44 div 4, metrics_0), (perfmon_ctrl + 0x48 div 4, metrics_1),
          (perfmon_ctrl + 0x4C div 4, metrics_2)])"

definition perfmon_reset :: "u32 \<Rightarrow> reg_write list" where
  "perfmon_reset perfmon_ctrl = [(perfmon_ctrl + 0x300 div 4, 0x00020002)]"

definition perfmon_enable :: "u32 \<Rightarrow> reg_write list" where
  "perfmon_enable perfmon_ctrl = [(perfmon_ctrl + 0x300 div 4, 0x00010001)]"

definition perfmon_disable :: "u32 \<Rightarrow> reg_write list" where
  "perfmon_disable perfmon_ctrl = [(perfmon_ctrl + 0x300 div 4, 0)]"

definition action_perfmon_read :: "(u32 \<Rightarrow> u32) \<Rightarrow> u32 \<Rightarrow> membus" where
  "action_perfmon_read regs perfmon_ctrl =
     (let clock = (word_cat (regs (perfmon_ctrl + 0x0000 div 4)) (regs (perfmon_ctrl + 0x0004 div 4)) :: u64);
          result = mtl_set64be 0 (0 * 4) clock
      in fold (\<lambda>k line. mtl_set32be line (k * 4 + 8) (regs (perfmon_ctrl + word_of_nat ((0x100 + k * 4 * 4) div 4))))
           [0, 1, 2, 3, 4, 5, 6, 7, 8, 9] result)"

section \<open>Operators\<close>

definition operator_reg :: "u32 \<Rightarrow> u32 \<Rightarrow> u32" where
  "operator_reg i reg = OperatorBaseAddr + i * OperatorOffset + reg"

text \<open>Reads of the interrupt register until a condition holds.\<close>

fun read_until :: "(u8 \<Rightarrow> bool) \<Rightarrow> u8 list \<Rightarrow> u8 list option" where
  "read_until P [] = None"
| "read_until P (v # vs) = (if P v then Some vs else read_until P vs)"

fun clear_interrupts :: "u8 \<Rightarrow> nat list \<Rightarrow> u8 list \<Rightarrow> (reg_write list \<times> u8 list) option" where
  "clear_interrupts set_interrupts [] vs = Some ([], vs)"
| "clear_interrupts set_interrupts (i # is) vs =
     (if bit set_interrupts i then
        do { vs \<leftarrow> read_until (\<lambda>v. \<not> bit v i) vs;
             (ws, vs) \<leftarrow> clear_interrupts set_interrupts is vs;
             Some ((operator_reg (word_of_nat i) 3, 1) # ws, vs) }
      else clear_interrupts set_interrupts is vs)"

definition clear_operator_interrupts :: "fpga \<Rightarrow> fpga option" where
  "clear_operator_interrupts s =
     (case f_interrupts s of
        [] \<Rightarrow> None
      | set_interrupts # vs \<Rightarrow>
          do { (ws, vs) \<leftarrow> clear_interrupts set_interrupts [0..<8] vs;
               Some (reg_out ws (s\<lparr>f_interrupts := vs\<rparr>)) })"

definition poll_interrupts :: "u8 \<Rightarrow> u8 list \<Rightarrow> u8 list option" where
  "poll_interrupts msk vs =
     (if msk \<noteq> 1 \<and> msk \<noteq> 0 then read_until (\<lambda>v. v = drop_bit 1 msk) vs else Some vs)"

definition do_run_operators :: "bool \<Rightarrow> fpga \<Rightarrow> (u64 \<times> fpga) option" where
  "do_run_operators nvme s =
     do { (ws, rp) \<leftarrow> op_mem_read nvme RandomBaseAddr (read_mem_config s) (f_read s);
          (bytes_written, wp) \<leftarrow> op_mem_write nvme (write_mem_config s) (f_write s);
          Some (bytes_written, reg_out ws (s\<lparr>f_read := rp, f_write := wp\<rparr>)) }"

definition do_configure_and_run_operators :: "bool \<Rightarrow> u64 \<Rightarrow> u64 \<Rightarrow> fpga \<Rightarrow> (u64 \<times> fpga) option" where
  "do_configure_and_run_operators nvme enable_mask bytes_written s =
     (let enabled = filter (\<lambda>i. bit enable_mask (i + 1)) [0..<8];
          s = reg_out (concat (map (\<lambda>i. [(operator_reg (word_of_nat i) 0, 1), (operator_reg (word_of_nat i) 1, 1),
                (operator_reg (word_of_nat i) 2, 1)]) enabled)) s
      in do { (bytes_written, s) \<leftarrow>
                (if bit enable_mask 0 then do_run_operators nvme s else Some (bytes_written, s));
              Some (bytes_written,
                reg_out (map (\<lambda>i. (operator_reg (word_of_nat i) (0x10 div 4), 0)) enabled) s) })"

definition action_run_operators :: "bool \<Rightarrow> u64 \<Rightarrow> u64 \<Rightarrow> fpga \<Rightarrow> (u64 \<times> fpga) option" where
  "action_run_operators nvme enable_mask bytes_written s =
     do { vs \<leftarrow> poll_interrupts (ucast enable_mask) (f_interrupts s);
          do_configure_and_run_operators nvme enable_mask bytes_written (s\<lparr>f_interrupts := vs\<rparr>) }"

section \<open>Preloading partial NVMe blocks\<close>

definition preload_block :: "Address \<Rightarrow> u64 \<Rightarrow> fpga \<Rightarrow> fpga option" where
  "preload_block address block_addr s =
     (let dram_map = w_dram_map (f_write s);
          (dram_address, dram_map) =
            (case a_map address of
               MapNVMe \<Rightarrow> (NVMeDRAMWriteOffset + block_addr mod 0x80000000, dram_map)
             | MapDRAMAndNVMe \<Rightarrow>
                 let pagefile_offset = block_addr mod PagefileSize;
                     dram_map = snd (mtl_extmap_seek dram_map (pagefile_offset div StorageBlockSize))
                 in (mtl_extmap_pblock dram_map * StorageBlockSize, dram_map)
             | _ \<Rightarrow> (0, dram_map));
          nvme_map = snd (mtl_extmap_seek (w_nvme_map (f_write s)) (block_addr div StorageBlockSize));
          nvme_address = mtl_extmap_pblock nvme_map * StorageBlockSize;
          cmd = issue_nvme_block_transfer_command nvme_address dram_address
      in case r_nvme_resp (f_read s) of
           [] \<Rightarrow> None
         | _ # resp \<Rightarrow>
             Some (s\<lparr>f_read := (f_read s)\<lparr>r_nvme_cmd := r_nvme_cmd (f_read s) @ [cmd], r_nvme_resp := resp\<rparr>,
                     f_write := (f_write s)\<lparr>w_dram_map := dram_map, w_nvme_map := nvme_map\<rparr>\<rparr>))"

definition preload_nvme_blocks :: "Address \<Rightarrow> fpga \<Rightarrow> fpga option" where
  "preload_nvme_blocks address s =
     (let start_addr = a_addr address;
          end_addr = start_addr + ucast (a_size address);
          last_byte_addr = start_addr + ucast (if 0 < a_size address then a_size address else 1) - 1;
          startAddressIsOdd = (get_range start_addr (StorageBlockSizeD - 1) 0 \<noteq> (0 :: u64));
          endAddressIsOdd = (get_range end_addr (StorageBlockSizeD - 1) 0 \<noteq> (0 :: u64));
          endBlockIsDifferentFromStartBlock =
            ((get_range start_addr 63 StorageBlockSizeD :: u64) \<noteq> get_range last_byte_addr 63 StorageBlockSizeD)
      in do { s \<leftarrow> (if startAddressIsOdd then preload_block address start_addr s else Some s);
              if endAddressIsOdd \<and> (endBlockIsDifferentFromStartBlock \<or> \<not> startAddressIsOdd)
              then preload_block address end_addr s else Some s })"

section \<open>Jobs\<close>

definition action_configure_streams :: "u64 \<Rightarrow> fpga \<Rightarrow> snap_retc \<times> fpga" where
  "action_configure_streams ja s =
     (let line = f_mem s (MFB_ADDRESS ja)
      in (SNAP_RETC_SUCCESS,
          reg_out (map (\<lambda>k. switch_set_mapping SwitchBaseAddr (mtl_get32be line (k * 4)) (word_of_nat k))
                     [0, 1, 2, 3, 4, 5, 6, 7] @ [switch_commit SwitchBaseAddr]) s))"

definition action_map :: "bool \<Rightarrow> u64 \<Rightarrow> fpga \<Rightarrow> snap_retc \<times> fpga" where
  "action_map nvme ja s =
     (let line = f_mem s (MFB_ADDRESS ja);
          slot = slot_of_code (mtl_get64be line 0);
          extent_address = ja + MFB_INCREMENT
      in case slot of
           Some CardDRAMRead \<Rightarrow> (SNAP_RETC_SUCCESS,
             s\<lparr>f_read := (f_read s)\<lparr>r_dram_map := mtl_extmap_load (r_dram_map (f_read s)) extent_address (f_mem s)\<rparr>\<rparr>)
         | Some CardDRAMWrite \<Rightarrow> (SNAP_RETC_SUCCESS,
             s\<lparr>f_write := (f_write s)\<lparr>w_dram_map := mtl_extmap_load (w_dram_map (f_write s)) extent_address (f_mem s)\<rparr>\<rparr>)
         | Some NVMeRead \<Rightarrow>
             (if nvme then (SNAP_RETC_SUCCESS,
                s\<lparr>f_read := (f_read s)\<lparr>r_nvme_map := mtl_extmap_load (r_nvme_map (f_read s)) extent_address (f_mem s)\<rparr>\<rparr>)
              else (SNAP_RETC_FAILURE, s))
         | Some NVMeWrite \<Rightarrow>
             (if nvme then (SNAP_RETC_SUCCESS,
                s\<lparr>f_write := (f_write s)\<lparr>w_nvme_map := mtl_extmap_load (w_nvme_map (f_write s)) extent_address (f_mem s)\<rparr>\<rparr>)
              else (SNAP_RETC_FAILURE, s))
         | None \<Rightarrow> (SNAP_RETC_FAILURE, s))"

text \<open>
  The loop of \<open>configure_operators\<close>, over the number of words left.  The offset in the line is an
  8-bit number.
\<close>

fun configure_loop ::
  "membus_mem \<Rightarrow> u64 \<Rightarrow> u32 \<Rightarrow> nat \<Rightarrow> u32 \<Rightarrow> u8 \<Rightarrow> membus \<Rightarrow> reg_write list" where
  "configure_loop mem ja op 0 offset membus_line_offset line = []"
| "configure_loop mem ja op (Suc left) offset membus_line_offset line =
     (let line = (if membus_line_offset mod 64 = 0
                  then mem (MFB_ADDRESS ja + ucast (membus_line_offset div 64)) else line)
      in (OperatorBaseAddr + op * OperatorOffset + offset, get_range line 31 0)
         # configure_loop mem ja op left (offset + 1) (membus_line_offset + 4) (drop_bit (4 * 8) line))"

definition configure_operators :: "u64 \<Rightarrow> fpga \<Rightarrow> fpga" where
  "configure_operators ja s =
     (let line = f_mem s (MFB_ADDRESS ja);
          offset = mtl_get32be line 0;
          len = mtl_get32be line 4;
          op = mtl_get32be line 8 - 1;
          prepare = mtl_get32be line 12;
          membus_line_offset = (4 :: u8);
          line = drop_bit (unat membus_line_offset * 4 * 8) line
      in reg_out (configure_loop (f_mem s) ja op (unat len) offset membus_line_offset line
                  @ [(OperatorBaseAddr + op * OperatorOffset + 0x10 div 4, prepare)]) s)"

text \<open>The loop of \<open>ReadImageInfo\<close> over the byte offset \<open>i\<close>: the line under construction and memory.\<close>

function image_loop ::
  "(u32 \<Rightarrow> u32) \<Rightarrow> u64 \<Rightarrow> nat \<Rightarrow> nat \<Rightarrow> membus \<Rightarrow> membus_mem \<Rightarrow> nat \<times> membus \<times> membus_mem" where
  "image_loop regs ja read_len i current_line mem =
     (if i < read_len then
        let lineoffset = i mod 64;
            current_line = set_range current_line (31 + 8 * lineoffset) (8 * lineoffset)
              (regs (ImageInfoBaseAddr + word_of_nat ((4096 + i) div 4)));
            (mem, current_line) =
              (if lineoffset = 64 - 4
               then (mem(MFB_ADDRESS ja + word_of_nat (i div 64) := current_line), 0)
               else (mem, current_line))
        in image_loop regs ja read_len (i + 4) current_line mem
      else (i, current_line, mem))"
  by pat_completeness auto
termination by (relation "measure (\<lambda>(regs, ja, read_len, i, l, mem). read_len - i)") auto

declare image_loop.simps [simp del]

definition read_image_info :: "u64 \<Rightarrow> fpga \<Rightarrow> u32 \<times> fpga" where
  "read_image_info ja s =
     (let info_len = f_regs s ImageInfoBaseAddr;
          read_len = (if 4096 < info_len then 4096 else info_len);
          (i, current_line, mem) = image_loop (f_regs s) ja (unat read_len) 0 0 (f_mem s);
          mem = (if i mod 64 \<noteq> 0 then mem(MFB_ADDRESS ja + word_of_nat (i div 64) := current_line) else mem)
      in (read_len, s\<lparr>f_mem := mem\<rparr>))"

definition run_operators_job :: "bool \<Rightarrow> u64 \<Rightarrow> Job \<Rightarrow> fpga \<Rightarrow> (snap_retc \<times> Job \<times> fpga) option" where
  "run_operators_job nvme indeterminate job s =
     (let (rc, ws1) = op_mem_set_config (j_source job) True DataPreselectSwitchBaseAddr;
          (wc, ws2) = op_mem_set_config (j_destination job) False DataPreselectSwitchBaseAddr;
          s = reg_out (ws1 @ ws2) (s\<lparr>read_mem_config := rc, write_mem_config := wc\<rparr>);
          enable_mask = direct_data job ! 0;
          perfmon_en = direct_data job ! 1
      in do { s \<leftarrow> clear_operator_interrupts s;
              s \<leftarrow> (if nvme \<and> a_type (write_mem_config s) = NVMe
                    then preload_nvme_blocks (write_mem_config s) s else Some s);
              let s = (if perfmon_en = 1 then reg_out (perfmon_enable PerfmonBaseAddr) s else s);
              (bytes_written, s) \<leftarrow> action_run_operators nvme enable_mask indeterminate s;
              let s = (if perfmon_en = 1 then reg_out (perfmon_disable PerfmonBaseAddr) s else s);
              Some (SNAP_RETC_SUCCESS, job\<lparr>direct_data := (direct_data job)[2 := bytes_written]\<rparr>, s) })"

definition process_action :: "bool \<Rightarrow> u64 \<Rightarrow> Job \<Rightarrow> fpga \<Rightarrow> (snap_retc \<times> Job \<times> fpga) option" where
  "process_action nvme indeterminate job s =
     (case job_type job of
        Some ReadImageInfo \<Rightarrow>
          let (read_len, s) = read_image_info (job_address job) s
          in Some (SNAP_RETC_SUCCESS, job\<lparr>direct_data := (direct_data job)[2 := ucast read_len]\<rparr>, s)
      | Some Map \<Rightarrow> let (rc, s) = action_map nvme (job_address job) s in Some (rc, job, s)
      | Some ConfigureStreams \<Rightarrow>
          let (rc, s) = action_configure_streams (job_address job) s in Some (rc, job, s)
      | Some ResetPerfmon \<Rightarrow> Some (SNAP_RETC_SUCCESS, job, reg_out (perfmon_reset PerfmonBaseAddr) s)
      | Some ConfigurePerfmon \<Rightarrow>
          let line = f_mem s (MFB_ADDRESS (job_address job))
          in Some (SNAP_RETC_SUCCESS, job,
               reg_out (action_configure_perfmon PerfmonBaseAddr (ucast (mtl_get64be line 0))
                 (ucast (mtl_get64be line 8))) s)
      | Some ReadPerfmonCounters \<Rightarrow>
          Some (SNAP_RETC_SUCCESS, job,
            s\<lparr>f_mem := (f_mem s)(MFB_ADDRESS (job_address job) := action_perfmon_read (f_regs s) PerfmonBaseAddr)\<rparr>)
      | Some RunOperators \<Rightarrow> run_operators_job nvme indeterminate job s
      | Some ConfigureOperator \<Rightarrow> Some (SNAP_RETC_SUCCESS, job, configure_operators (job_address job) s)
      | None \<Rightarrow> Some (SNAP_RETC_FAILURE, job, s))"

text \<open>The entry point: flags 0 asks for the type and release of the action.\<close>

definition HW_RELEASE_LEVEL :: u32 where "HW_RELEASE_LEVEL = 0x13"

definition hls_action ::
  "bool \<Rightarrow> u64 \<Rightarrow> u8 \<Rightarrow> Job \<Rightarrow> fpga \<Rightarrow> (snap_retc \<times> (u32 \<times> u32) option \<times> Job \<times> fpga) option" where
  "hls_action nvme indeterminate flags job s =
     (if flags = 0 then Some (RETC_ACTION_TYPE, Some (ActionType, HW_RELEASE_LEVEL), job, s)
      else do { (retc, job, s) \<leftarrow> process_action nvme indeterminate job s;
                Some (retc, None, job, s) })"

end
