(* ===== verification/Job_Props.thy ===== *)
theory Job_Props
  imports Jobs
begin

text \<open>
  Properties of the FPGA's jobs: the extent maps keep their room for 512 extents, what the
  \<open>ReadImageInfo\<close> job leaves in the memory, and what the \<open>ConfigureOperator\<close> job writes to the
  registers of an operator.
\<close>

section \<open>The shape of the state\<close>

lemma extmap_sized_update [simp]:
  "extmap_sized (M\<lparr>current_pblock := p\<rparr>) = extmap_sized M"
  "extmap_sized (M\<lparr>current_extent := x\<rparr>) = extmap_sized M"
  by (simp_all add: extmap_sized_def)

lemma seek_sized [simp]: "extmap_sized (snd (mtl_extmap_seek M lb)) = extmap_sized M"
proof -
  have "extmap_sized (snd (seek_from M lb is)) = extmap_sized M" for "is"
    by (induction "is") (simp_all add: Let_def)
  then show ?thesis by (simp add: mtl_extmap_seek_def)
qed

lemma next_sized [simp]: "extmap_sized (mtl_extmap_next M) = extmap_sized M"
  by (simp add: mtl_extmap_next_def Let_def)

lemma load_sized [simp]: "extmap_sized (mtl_extmap_load M ea mem) = extmap_sized M"
proof -
  have "extmap_sized (snd (snd (snd (fold (load_step mem) is s)))) = extmap_sized (snd (snd (snd s)))" for "is" s
  proof (induction "is" arbitrary: s)
    case (Cons i "is")
    have "extmap_sized (snd (snd (snd (load_step mem i s)))) = extmap_sized (snd (snd (snd s)))"
      by (cases s) (simp add: load_step_def Let_def extmap_sized_def)
    with Cons show ?case by simp
  qed simp
  from this [of "[0..<512]" "(ea, 0, 0, M)"] show ?thesis
    by (simp add: mtl_extmap_load_def case_prod_unfold Let_def)
qed

lemma translate_sized:
  "translate nvme T mt c i d n = (adr, nv, d', n') \<Longrightarrow>
     extmap_sized d' = extmap_sized d \<and> extmap_sized n' = extmap_sized n"
  by (auto simp: translate_def Let_def split: MapType.splits if_splits)

lemma issue_loop_sized:
  "issue_loop nvme T tr bt d n = (es, ns, d', n') \<Longrightarrow>
     extmap_sized d' = extmap_sized d \<and> extmap_sized n' = extmap_sized n"
proof (induction nvme T tr bt d n arbitrary: es ns d' n' rule: issue_loop.induct)
  case (1 nvme T tr bt d n)
  show ?case
  proof (cases "bt < ucast (a_size tr)")
    case True
    define r where "r = round_bytes (a_addr tr + bt) (ucast (a_size tr) - bt)"
    obtain adr nv d1 n1 where t: "translate nvme T (a_map tr) (a_addr tr + bt)
        ((a_addr tr + bt) mod StorageBlockSize) d n = (adr, nv, d1, n1)"
      by (metis prod_cases4)
    obtain es1 ns1 d2 n2 where rec: "issue_loop nvme T tr (bt + r) d1 n1 = (es1, ns1, d2, n2)"
      by (metis prod_cases4)
    have "d' = d2 \<and> n' = n2"
      using issue_loop_step [OF True t] rec "1.prems" by (simp add: r_def)
    moreover have "extmap_sized d2 = extmap_sized d1 \<and> extmap_sized n2 = extmap_sized n1"
      using "1.IH" [OF True refl refl refl refl t [symmetric] refl refl refl] rec by (simp add: r_def)
    ultimately show ?thesis using translate_sized [OF t] by simp
  qed (use "1.prems" in \<open>simp add: issue_loop_end\<close>)
qed

lemma issue_partial_transfers_sized:
  assumes "issue_partial_transfers nvme T tr d n = (es, ns, d', n')"
  shows "extmap_sized d' = extmap_sized d \<and> extmap_sized n' = extmap_sized n"
proof -
  obtain d1 n1 where s: "seek_maps nvme tr d n = (d1, n1)" by (cases "seek_maps nvme tr d n")
  then have "extmap_sized d1 = extmap_sized d \<and> extmap_sized n1 = extmap_sized n"
    by (auto simp: seek_maps_def split: MapType.splits if_splits)
  then show ?thesis using issue_loop_sized assms s by (simp add: issue_partial_transfers_def)
qed

definition maps_sized :: "fpga \<Rightarrow> bool" where
  "maps_sized s \<longleftrightarrow> extmap_sized (r_dram_map (f_read s)) \<and> extmap_sized (r_nvme_map (f_read s)) \<and>
     extmap_sized (w_dram_map (f_write s)) \<and> extmap_sized (w_nvme_map (f_write s))"

lemma maps_sized_reg_out [simp]: "maps_sized (reg_out ws s) = maps_sized s"
  by (simp add: reg_out_def maps_sized_def)

lemma maps_sized_update [simp]:
  "maps_sized (s\<lparr>f_mem := m\<rparr>) = maps_sized s" "maps_sized (s\<lparr>f_interrupts := vs\<rparr>) = maps_sized s"
  "maps_sized (s\<lparr>read_mem_config := c\<rparr>) = maps_sized s" "maps_sized (s\<lparr>write_mem_config := c\<rparr>) = maps_sized s"
  by (simp_all add: maps_sized_def)

lemma op_mem_read_sized:
  "op_mem_read nvme ctrl tr s = Some (ws, s') \<Longrightarrow>
     extmap_sized (r_dram_map s') = extmap_sized (r_dram_map s) \<and> extmap_sized (r_nvme_map s') = extmap_sized (r_nvme_map s)"
  by (auto simp: op_mem_read_def load_data_def bind_eq_Some_conv
      dest: issue_partial_transfers_sized split: if_splits prod.splits)

lemma op_mem_write_sized:
  "op_mem_write nvme tr s = Some (b, s') \<Longrightarrow>
     extmap_sized (w_dram_map s') = extmap_sized (w_dram_map s) \<and> extmap_sized (w_nvme_map s') = extmap_sized (w_nvme_map s)"
  by (auto simp: op_mem_write_def write_data_def bind_eq_Some_conv
      dest: issue_partial_transfers_sized split: AddressType.splits prod.splits)

lemma do_run_operators_sized:
  assumes "do_run_operators nvme s = Some (b, s')"
  shows "maps_sized s' = maps_sized s"
proof -
  obtain ws rp wp where r: "op_mem_read nvme RandomBaseAddr (read_mem_config s) (f_read s) = Some (ws, rp)"
      "op_mem_write nvme (write_mem_config s) (f_write s) = Some (b, wp)"
      "s' = reg_out ws (s\<lparr>f_read := rp, f_write := wp\<rparr>)"
    using assms by (auto simp: do_run_operators_def bind_eq_Some_conv)
  show ?thesis
    unfolding r(3) maps_sized_reg_out
    using op_mem_read_sized [OF r(1)] op_mem_write_sized [OF r(2)] by (simp add: maps_sized_def)
qed

lemma action_run_operators_sized:
  assumes "action_run_operators nvme em b s = Some (b', s')" "maps_sized s"
  shows "maps_sized s'"
  using assms
  by (cases "bit em 0") (auto simp: action_run_operators_def do_configure_and_run_operators_def bind_eq_Some_conv Let_def
      dest!: do_run_operators_sized simp del: upt_rec_numeral)

lemma preload_block_sized:
  "preload_block a ba s = Some s' \<Longrightarrow> maps_sized s' = maps_sized s"
  by (auto simp: preload_block_def maps_sized_def Let_def split: list.splits MapType.splits prod.splits)

lemma preload_nvme_blocks_sized:
  "preload_nvme_blocks a s = Some s' \<Longrightarrow> maps_sized s' = maps_sized s"
  by (auto simp: preload_nvme_blocks_def Let_def bind_eq_Some_conv dest: preload_block_sized split: if_splits)

lemma clear_operator_interrupts_sized:
  "clear_operator_interrupts s = Some s' \<Longrightarrow> maps_sized s' = maps_sized s"
  by (auto simp: clear_operator_interrupts_def bind_eq_Some_conv split: list.splits prod.splits)

lemma action_map_sized: "maps_sized (snd (action_map nvme ja s)) = maps_sized s"
  by (auto simp: action_map_def Let_def maps_sized_def split: option.splits ExtmapSlot.splits)

lemma run_operators_job_sized:
  assumes "run_operators_job nvme ind job s = Some (rc, job', s')" "maps_sized s"
  shows "maps_sized s' \<and> length (direct_data job') = length (direct_data job) \<and> rc = SNAP_RETC_SUCCESS"
proof -
  define s0 where "s0 = reg_out (snd (op_mem_set_config (j_source job) True DataPreselectSwitchBaseAddr)
      @ snd (op_mem_set_config (j_destination job) False DataPreselectSwitchBaseAddr))
    (s\<lparr>read_mem_config := j_source job, write_mem_config := j_destination job\<rparr>)"
  have c: "op_mem_set_config x r w = (x, snd (op_mem_set_config x r w))" for x r w
    by (simp add: op_mem_set_config_def)
  obtain s1 s2 s3 b where r: "clear_operator_interrupts s0 = Some s1"
      "(if nvme \<and> a_type (write_mem_config s1) = NVMe then preload_nvme_blocks (write_mem_config s1) s1 else Some s1) = Some s2"
      "action_run_operators nvme (direct_data job ! 0) ind
         (if direct_data job ! 1 = 1 then reg_out (perfmon_enable PerfmonBaseAddr) s2 else s2) = Some (b, s3)"
      "rc = SNAP_RETC_SUCCESS" "job' = job\<lparr>direct_data := (direct_data job)[2 := b]\<rparr>"
      "s' = (if direct_data job ! 1 = 1 then reg_out (perfmon_disable PerfmonBaseAddr) s3 else s3)"
    using assms(1) unfolding run_operators_job_def Let_def
    by (subst (asm) (1 2) c) (simp only: prod.case bind_eq_Some_conv case_prod_unfold, auto simp: s0_def)
  have "maps_sized s1" using clear_operator_interrupts_sized [OF r(1)] assms(2) by (simp add: s0_def)
  then have "maps_sized s2" using r(2) preload_nvme_blocks_sized by (auto split: if_splits)
  then have "maps_sized s3" using action_run_operators_sized [OF r(3)] by simp
  then show ?thesis using r(4-6) by simp
qed

text \<open>
  So the maps that a \<open>Map\<close> job needs at their full size are so after any number of jobs.
\<close>

lemma process_action_sized:
  assumes "process_action nvme ind job s = Some (rc, job', s')" "maps_sized s"
  shows "maps_sized s'"
proof (cases "job_type job")
  case None
  with assms show ?thesis by (auto simp: process_action_def)
next
  case (Some t)
  show ?thesis
  proof (cases t)
    case ReadImageInfo
    with Some assms show ?thesis
      by (auto simp: process_action_def read_image_info_def Let_def split: prod.splits)
  next
    case Map
    with Some assms action_map_sized [of nvme "job_address job" s] show ?thesis
      by (auto simp: process_action_def split: prod.splits)
  next
    case RunOperators
    with Some assms show ?thesis
      using run_operators_job_sized [of nvme ind job s rc job' s'] by (auto simp: process_action_def)
  next
    case ConfigureOperator
    with Some assms show ?thesis by (auto simp: process_action_def configure_operators_def Let_def)
  qed (use Some assms in \<open>auto simp: process_action_def action_configure_streams_def Let_def\<close>)
qed

definition idle_fpga :: fpga where
  "idle_fpga = \<lparr>f_mem = (\<lambda>_. 0), f_regs = (\<lambda>_. 0), f_writes = [], f_interrupts = [],
     f_read = \<lparr>r_dm_cmd = [], r_dm_sts = [], r_nvme_cmd = [], r_nvme_resp = [],
               r_dram_map = extmap_zero, r_nvme_map = extmap_zero\<rparr>,
     f_write = \<lparr>w_dm_cmd = [], w_dm_sts = [], w_nvme_cmd = [], w_nvme_resp = [],
                w_dram_map = extmap_zero, w_nvme_map = extmap_zero\<rparr>,
     read_mem_config = \<lparr>a_addr = 0, a_size = 0, a_type = Host, a_map = MapNone\<rparr>,
     write_mem_config = \<lparr>a_addr = 0, a_size = 0, a_type = Host, a_map = MapNone\<rparr>\<rparr>"

definition plain_job :: "JobType \<Rightarrow> u64 \<Rightarrow> Job" where
  "plain_job t a = \<lparr>job_address = a, job_type = Some t,
     j_source = \<lparr>a_addr = 0, a_size = 0, a_type = Host, a_map = MapNone\<rparr>,
     j_destination = \<lparr>a_addr = 0, a_size = 0, a_type = Host, a_map = MapNone\<rparr>, direct_data = [0, 0, 0, 0]\<rparr>"

lemma idle_fpga_sized [simp]: "maps_sized idle_fpga"
  by (simp add: maps_sized_def idle_fpga_def)

section \<open>Reading the image info\<close>

text \<open>The text that the image info block of the FPGA holds: its length, at most 4096, and its words.\<close>

definition info_byte :: "(u32 \<Rightarrow> u32) \<Rightarrow> nat \<Rightarrow> u8" where
  "info_byte regs k = enc32 (regs (ImageInfoBaseAddr + 1024 + word_of_nat (k div 4))) ! (k mod 4)"

definition image_info :: "(u32 \<Rightarrow> u32) \<Rightarrow> bytes" where
  "image_info regs = map (info_byte regs) [0..<min 4096 (unat (regs ImageInfoBaseAddr))]"

text \<open>
  After \<open>i\<close> bytes the full lines are in memory and the rest is in the line under construction; no
  line outside of the 64 lines from \<open>A\<close> on has changed.
\<close>

definition image_inv :: "(u32 \<Rightarrow> u32) \<Rightarrow> u64 \<Rightarrow> membus_mem \<Rightarrow> nat \<Rightarrow> membus \<Rightarrow> membus_mem \<Rightarrow> bool" where
  "image_inv regs A mem0 i line mem \<longleftrightarrow>
     (\<forall>k < i. line_byte (if k div 64 = i div 64 then line else mem (A + word_of_nat (k div 64))) (k mod 64)
        = info_byte regs k) \<and>
     (\<forall>l. (\<forall>q < 64. l \<noteq> A + word_of_nat q) \<longrightarrow> mem l = mem0 l)"

lemma line_index_inj:
  "p < 64 \<Longrightarrow> q < 64 \<Longrightarrow> (word_of_nat p :: u64) = word_of_nat q \<longleftrightarrow> p = q"
  by (auto simp: word_of_nat_eq_iff take_bit_nat_def)

lemma image_word:
  fixes regs :: "u32 \<Rightarrow> u32" and line :: membus
  assumes "i mod 4 = 0" "i < 4096" "m < 64"
  defines "line1 \<equiv> set_range line (31 + 8 * (i mod 64)) (8 * (i mod 64))
    (regs (ImageInfoBaseAddr + word_of_nat ((4096 + i) div 4)))"
  shows "line_byte line1 m =
    (if i mod 64 \<le> m \<and> m < i mod 64 + 4 then info_byte regs (i + (m - i mod 64)) else line_byte line m)"
proof -
  have "(i mod 64) mod 4 = 0" using assms(1) by presburger
  then have lo: "i mod 64 + 4 \<le> 64" by presburger
  have "(4096 + i) div 4 = 1024 + i div 4" by simp
  then have w: "(word_of_nat ((4096 + i) div 4) :: u32) = 1024 + word_of_nat (i div 4)" by simp
  have b: "info_byte regs (i + j) = ucast (drop_bit (8 * j) (regs (ImageInfoBaseAddr + word_of_nat ((4096 + i) div 4))))"
    if "j < 4" for j
  proof -
    have "(i + j) div 4 = i div 4" "(i + j) mod 4 = j" using assms(1) that by presburger+
    then show ?thesis
      using that unfolding info_byte_def w
      by (simp only: enc32_def le_bytes_nth ucast_drop_bit add.assoc)
  qed
  have hi: "31 + 8 * (i mod 64) + 1 = 8 * (i mod 64) + 8 * 4" by simp
  have "i mod 64 \<le> m \<and> m < i mod 64 + 4 \<Longrightarrow> m - i mod 64 < 4" by linarith
  then show ?thesis
    unfolding line1_def line_byte_set_range [OF lo assms(3) hi] using b [of "m - i mod 64"] by presburger
qed

lemma image_inv_step:
  fixes regs :: "u32 \<Rightarrow> u32" and line :: membus
  assumes "image_inv regs A mem0 i line mem" "i mod 4 = 0" "i < 4096"
  defines "line1 \<equiv> set_range line (31 + 8 * (i mod 64)) (8 * (i mod 64))
    (regs (ImageInfoBaseAddr + word_of_nat ((4096 + i) div 4)))"
  shows "i mod 64 = 60 \<Longrightarrow> image_inv regs A mem0 (i + 4) 0 (mem(A + word_of_nat (i div 64) := line1))"
    and "i mod 64 \<noteq> 60 \<Longrightarrow> image_inv regs A mem0 (i + 4) line1 mem"
proof -
  note word = image_word [OF assms(2,3), of _ line regs, folded line1_def]
  have old: "line_byte (if k div 64 = i div 64 then line else mem (A + word_of_nat (k div 64))) (k mod 64) = info_byte regs k"
    if "k < i" for k using assms(1) that by (simp add: image_inv_def)
  have frame: "mem l = mem0 l" if "\<forall>q < 64. l \<noteq> A + word_of_nat q" for l using assms(1) that by (simp add: image_inv_def)
  have cur: "line_byte line1 (k mod 64) = info_byte regs k" if "k < i + 4" "k div 64 = i div 64" for k
  proof (cases "k < i")
    case True
    then have "k mod 64 < i mod 64"
      using that(2) div_mult_mod_eq [of k 64] div_mult_mod_eq [of i 64] by linarith
    then show ?thesis using word [of "k mod 64"] old [OF True] that(2) by simp
  next
    case False
    then have "k mod 64 = i mod 64 + (k - i)" "k - i < 4"
      using that div_mult_mod_eq [of k 64] div_mult_mod_eq [of i 64] by linarith+
    then have "i mod 64 \<le> k mod 64" "k mod 64 < i mod 64 + 4" "i + (k mod 64 - i mod 64) = k"
      using False by linarith+
    then show ?thesis using word [of "k mod 64"] by simp
  qed
  have full: "mem (A + word_of_nat (k div 64)) = (mem(A + word_of_nat (i div 64) := line1)) (A + word_of_nat (k div 64))"
    if "k < i + 4" "k div 64 \<noteq> i div 64" for k
  proof -
    have "i \<le> 4092" using assms(2,3) by presburger
    then have "k div 64 < 64" "i div 64 < 64" using that(1) by simp_all
    then show ?thesis using that(2) by (simp add: line_index_inj)
  qed
  show "image_inv regs A mem0 (i + 4) 0 (mem(A + word_of_nat (i div 64) := line1))" if m: "i mod 64 = 60"
  proof -
    have s: "(i + 4) div 64 = Suc (i div 64)" using m div_mult_mod_eq [of i 64] by linarith
    have le: "k div 64 \<le> i div 64" if "k < i + 4" for k
      using that m div_mult_mod_eq [of i 64] div_mult_mod_eq [of k 64] by linarith
    then have "k div 64 \<noteq> (i + 4) div 64" if "k < i + 4" for k using that s by (metis Suc_n_not_le_n)
    moreover have "line_byte ((mem(A + word_of_nat (i div 64) := line1)) (A + word_of_nat (k div 64))) (k mod 64) = info_byte regs k"
      if "k < i + 4" for k
    proof (cases "k div 64 = i div 64")
      case False
      then have "k div 64 < i div 64" using le [OF that] by simp
      then have "k < i" by (metis div_le_mono linorder_not_less)
      then show ?thesis using old [of k] False unfolding full [OF that False, symmetric] by simp
    qed (use cur that in simp)
    moreover have "(mem(A + word_of_nat (i div 64) := line1)) l = mem0 l" if "\<forall>q < 64. l \<noteq> A + word_of_nat q" for l
    proof -
      have "i div 64 < 64" using assms(3) by simp
      then show ?thesis using frame [OF that] that by simp
    qed
    ultimately show ?thesis by (simp add: image_inv_def del: fun_upd_apply)
  qed
  show "image_inv regs A mem0 (i + 4) line1 mem" if m: "i mod 64 \<noteq> 60"
  proof -
    define r where "r = i mod 64"
    have "r mod 4 = 0" "r < 64" "r \<noteq> 60" using m assms(2) by (simp_all add: r_def mod_mod_cancel)
    then have "r < 60" by presburger
    then have e: "(i + 4) div 64 = i div 64" using div_mult_mod_eq [of i 64] unfolding r_def by linarith
    have "line_byte (mem (A + word_of_nat (k div 64))) (k mod 64) = info_byte regs k"
      if "k < i + 4" "k div 64 \<noteq> i div 64" for k
    proof -
      have "k < i" using that e by (metis div_le_mono linorder_not_less nat_less_le)
      then show ?thesis using old [of k] that(2) by (simp only: if_False)
    qed
    then show ?thesis using cur frame e by (simp add: image_inv_def)
  qed
qed

lemma image_loop_step:
  fixes regs :: "u32 \<Rightarrow> u32" and line :: membus
  assumes "i < n"
  defines "line1 \<equiv> set_range line (31 + 8 * (i mod 64)) (8 * (i mod 64))
    (regs (ImageInfoBaseAddr + word_of_nat ((4096 + i) div 4)))"
  shows "image_loop regs ja n i line mem =
    (if i mod 64 = 60 then image_loop regs ja n (i + 4) 0 (mem(MFB_ADDRESS ja + word_of_nat (i div 64) := line1))
     else image_loop regs ja n (i + 4) line1 mem)"
  unfolding line1_def using assms(1) by (subst image_loop.simps) (simp add: Let_def)

lemma image_loop_inv:
  assumes "image_inv regs (MFB_ADDRESS ja) mem0 i line mem" "i mod 4 = 0" "i \<le> n + 3" "n \<le> 4096"
    and "image_loop regs ja n i line mem = (i', line', mem')"
  shows "image_inv regs (MFB_ADDRESS ja) mem0 i' line' mem' \<and> n \<le> i' \<and> i' \<le> 4096"
  using assms
proof (induction "n + 4 - i" arbitrary: i line mem rule: less_induct)
  case less
  show ?case
  proof (cases "i < n")
    case True
    have i4: "i < 4096" "(i + 4) mod 4 = 0" "i + 4 \<le> n + 3" "n + 4 - (i + 4) < n + 4 - i"
      using True less.prems(2-4) by simp_all
    note s = image_inv_step [OF less.prems(1,2) i4(1)]
    note l = less.prems(5) [unfolded image_loop_step [OF True]]
    show ?thesis
    proof (cases "i mod 64 = 60")
      case True
      show ?thesis
        using less.hyps [OF i4(4) s(1) [OF True] i4(2,3) less.prems(4)] l unfolding if_P [OF True] by blast
    next
      case False
      show ?thesis
        using less.hyps [OF i4(4) s(2) [OF False] i4(2,3) less.prems(4)] l unfolding if_not_P [OF False] by blast
    qed
  next
    case False
    have "i \<le> 4096" using less.prems(2-4) by presburger
    with False show ?thesis using less.prems(1,5) by (simp add: image_loop.simps)
  qed
qed

text \<open>
  The \<open>ReadImageInfo\<close> job copies the text to the memory of the host, returns its length, and leaves
  the rest of the state and all other lines of memory as they were.
\<close>

lemma read_image_info_holds:
  assumes "read_image_info ja s = (n, s')"
  shows "unat n = length (image_info (f_regs s)) \<and> holds (f_mem s') ja (image_info (f_regs s)) \<and>
    (\<forall>l. (\<forall>q < 64. l \<noteq> MFB_ADDRESS ja + word_of_nat q) \<longrightarrow> f_mem s' l = f_mem s l) \<and>
    s' = s\<lparr>f_mem := f_mem s'\<rparr>"
proof -
  let ?A = "MFB_ADDRESS ja" and ?regs = "f_regs s"
  define len where "len = min 4096 (unat (?regs ImageInfoBaseAddr))"
  have n: "unat n = len" using assms
    by (auto simp: read_image_info_def Let_def len_def word_less_nat_alt split: prod.splits if_splits)
  obtain i line mem where loop: "image_loop ?regs ja len 0 0 (f_mem s) = (i, line, mem)"
    by (metis prod_cases3)
  have "image_inv ?regs ?A (f_mem s) 0 0 (f_mem s)" by (simp add: image_inv_def)
  then have inv: "image_inv ?regs ?A (f_mem s) i line mem" "len \<le> i" "i \<le> 4096"
    using image_loop_inv [OF _ _ _ _ loop] by (simp_all add: len_def)
  define mem' where "mem' = (if i mod 64 \<noteq> 0 then mem(?A + word_of_nat (i div 64) := line) else mem)"
  have s': "s' = s\<lparr>f_mem := mem'\<rparr>"
    using assms loop n by (auto simp: read_image_info_def Let_def mem'_def split: prod.splits if_splits)
  have byte: "line_byte (mem' (?A + word_of_nat (k div 64))) (k mod 64) = info_byte ?regs k" if k: "k < i" for k
  proof -
    have old: "line_byte (if k div 64 = i div 64 then line else mem (?A + word_of_nat (k div 64))) (k mod 64) = info_byte ?regs k"
      using inv(1) k by (simp add: image_inv_def)
    show ?thesis
    proof (cases "k div 64 = i div 64")
      case True
      then have "i mod 64 \<noteq> 0" using k div_mult_mod_eq [of k 64] div_mult_mod_eq [of i 64] by linarith
      then show ?thesis using old True by (simp add: mem'_def)
    next
      case False
      have "k div 64 < 64" using k inv(3) by simp
      moreover have "i mod 64 \<noteq> 0 \<Longrightarrow> i div 64 < 64" using inv(3) div_mult_mod_eq [of i 64] by linarith
      moreover note False
      ultimately have "i mod 64 \<noteq> 0 \<Longrightarrow> k div 64 < 64 \<and> i div 64 < 64 \<and> k div 64 \<noteq> i div 64" by blast
      then show ?thesis using old False by (simp add: mem'_def line_index_inj)
    qed
  qed
  have "mem' l = f_mem s l" if l: "\<forall>q < 64. l \<noteq> ?A + word_of_nat q" for l
  proof -
    have "i mod 64 \<noteq> 0 \<Longrightarrow> i div 64 < 64" using inv(3) div_mult_mod_eq [of i 64] by linarith
    then show ?thesis using inv(1) l by (auto simp: mem'_def image_inv_def)
  qed
  moreover have "holds mem' ja (image_info ?regs)"
    using byte inv(2) by (simp add: holds_def image_info_def flip: len_def)
  ultimately show ?thesis using n s' by (simp add: image_info_def len_def)
qed

section \<open>Configuring an operator\<close>

lemma configure_loop_line:
  assumes "n + m \<le> 15"
  shows "configure_loop mem ja op n off (word_of_nat (4 + 4 * m)) (drop_bit (128 + 32 * m) L) =
    map (\<lambda>k. (OperatorBaseAddr + op * OperatorOffset + (off + word_of_nat k),
              get_range (drop_bit (128 + 32 * (m + k)) L) 31 0)) [0..<n]"
  using assms
proof (induction n arbitrary: m off)
  case (Suc n)
  have "unat (word_of_nat (4 + 4 * m) :: u8) = 4 + 4 * m"
    using Suc.prems by (simp only: unat_of_nat) simp
  then have "unat (word_of_nat (4 + 4 * m) mod 64 :: u8) = (4 + 4 * m) mod 64" by (simp only: unat_mod) simp
  then have "unat (word_of_nat (4 + 4 * m) mod 64 :: u8) = 4 + 4 * m" using Suc.prems by simp
  then have nz: "(word_of_nat (4 + 4 * m) mod 64 :: u8) \<noteq> 0" by (metis add_is_0 unat_0 zero_neq_numeral)
  have c: "(word_of_nat (4 + 4 * m) + 4 :: u8) = word_of_nat (4 + 4 * Suc m)" by simp
  have d: "drop_bit 32 (drop_bit (128 + 32 * m) L) = drop_bit (128 + 32 * Suc m) L"
    by (simp add: algebra_simps)
  have u: "[0..<Suc n] = 0 # map Suc [0..<n]" by (simp add: map_Suc_upt upt_conv_Cons)
  have "configure_loop mem ja op n (off + 1) (word_of_nat (4 + 4 * Suc m)) (drop_bit (128 + 32 * Suc m) L) =
    map (\<lambda>k. (OperatorBaseAddr + op * OperatorOffset + (off + 1 + word_of_nat k),
              get_range (drop_bit (128 + 32 * (Suc m + k)) L) 31 0)) [0..<n]"
    using Suc.IH [of "Suc m" "off + 1"] Suc.prems by simp
  then show ?case
    unfolding configure_loop.simps Let_def if_not_P [OF nz] c u
    by (simp add: d o_def del: drop_bit_drop_bit)
qed simp

lemma dec32_take: "dec32 (take 4 bs) = dec32 bs"
  by (simp add: dec32_def)

lemma config_word:
  assumes "holds mem ja bs" "16 + 4 * k + 4 \<le> length bs"
  shows "(get_range (drop_bit (128 + 32 * k) (mem (MFB_ADDRESS ja))) 31 0 :: u32) =
    (if k < 12 then dec32 (drop (16 + 4 * k) bs) else 0)"
proof (cases "k < 12")
  case True
  have m: "128 + 32 * k = 8 * (16 + 4 * k)" by simp
  have "map (line_byte (mem (MFB_ADDRESS ja))) [16 + 4 * k..<16 + 4 * k + 4] = take 4 (drop (16 + 4 * k) bs)"
  proof (rule nth_equalityI)
    fix i assume "i < length (map (line_byte (mem (MFB_ADDRESS ja))) [16 + 4 * k..<16 + 4 * k + 4])"
    then have "i < 4" by simp
    then show "map (line_byte (mem (MFB_ADDRESS ja))) [16 + 4 * k..<16 + 4 * k + 4] ! i = take 4 (drop (16 + 4 * k) bs) ! i"
      using holds_byte [OF assms(1), of 0 "16 + 4 * k + i"] assms(2) True by simp
  qed (use assms(2) in simp)
  then show ?thesis using True line_word [of "16 + 4 * k"] unfolding m by (simp add: dec32_take)
next
  case False
  then have "(512 :: nat) \<le> 128 + 32 * k" by simp
  then have "drop_bit (128 + 32 * k) (mem (MFB_ADDRESS ja)) = 0"
    by (intro bit_word_eqI) (simp add: bit_simps bit_imp_le_length)
  then show ?thesis using False by (simp add: get_range_def)
qed



end
