(* ===== verification/Snap.thy ===== *)
theory Snap
  imports Job_Props
begin

text \<open>
  The host's access to the card (\<open>snap_action.cpp\<close>).  The SNAP library is an argument: the record
  \<open>snap_lib\<close> of the functions that are called, over a state \<open>'c\<close> of card and driver.  Memory from
  \<open>snap_malloc\<close> is its address and its bytes; the library is handed the bytes that lie at the job
  address and returns those that lie there when the job has ended.

  Host code that throws is a function on the state whose result is an error message or a value.
  What a method has changed in its object before it throws is not kept: no caller in the sources uses
  an object again whose method has thrown.
\<close>

section \<open>Code that may throw\<close>

text \<open>\<^term>\<open>None\<close> is code that never returns, or whose behaviour is undefined.\<close>

type_synonym ('e, 'c, 'a) fallible = "'c \<Rightarrow> (('e + 'a) \<times> 'c) option"

text \<open>Most exceptions are only a message.\<close>

type_synonym ('c, 'a) act = "(string, 'c, 'a) fallible"

definition ret :: "'a \<Rightarrow> ('e, 'c, 'a) fallible" where
  "ret x c = Some (Inr x, c)"

definition throw :: "'e \<Rightarrow> ('e, 'c, 'a) fallible" where
  "throw e c = Some (Inl e, c)"

definition undefined_behaviour :: "('e, 'c, 'a) fallible" where
  "undefined_behaviour c = None"

definition and_then :: "('e, 'c, 'a) fallible \<Rightarrow> ('a \<Rightarrow> ('e, 'c, 'b) fallible) \<Rightarrow> ('e, 'c, 'b) fallible" where
  "and_then m f c =
     (case m c of None \<Rightarrow> None | Some (Inl e, c) \<Rightarrow> Some (Inl e, c) | Some (Inr x, c) \<Rightarrow> f x c)"

definition on_exception :: "('e, 'c, 'a) fallible \<Rightarrow> ('e \<Rightarrow> ('f, 'c, 'a) fallible) \<Rightarrow> ('f, 'c, 'a) fallible" where
  "on_exception m h c =
     (case m c of None \<Rightarrow> None | Some (Inl e, c) \<Rightarrow> h e c | Some (Inr x, c) \<Rightarrow> Some (Inr x, c))"

text \<open>\<open>catch (std::exception &ex) { ...; throw ex; }\<close> throws a copy that has lost the message.\<close>

definition rethrow :: "('c, 'a) act \<Rightarrow> ('c, 'a) act" where
  "rethrow m = on_exception m (\<lambda>_. throw ''std::exception'')"

text \<open>A destructor runs whether or not the block throws.\<close>

definition and_finally :: "('e, 'c, 'a) fallible \<Rightarrow> ('c \<Rightarrow> 'c) \<Rightarrow> ('e, 'c, 'a) fallible" where
  "and_finally m f c = map_option (map_prod id f) (m c)"

lemma act_simps [simp]:
  "ret x c = Some (Inr x, c)" "throw e c = Some (Inl e, c)" "undefined_behaviour c = None"
  by (simp_all add: ret_def throw_def undefined_behaviour_def)

lemma and_then_Inr:
  "and_then m f c = Some (Inr y, c') \<longleftrightarrow> (\<exists>x c1. m c = Some (Inr x, c1) \<and> f x c1 = Some (Inr y, c'))"
  by (auto simp: and_then_def split: option.splits prod.splits sum.splits)

lemma and_then_ok: "m c = Some (Inr x, c1) \<Longrightarrow> and_then m f c = f x c1"
  by (simp add: and_then_def)

lemma rethrow_Inr [simp]: "rethrow m c = Some (Inr y, c') \<longleftrightarrow> m c = Some (Inr y, c')"
  by (auto simp: rethrow_def on_exception_def split: option.splits prod.splits sum.splits)

lemma and_finally_Inr:
  "and_finally m f c = Some (Inr y, c') \<longleftrightarrow> (\<exists>c1. m c = Some (Inr y, c1) \<and> c' = f c1)"
  by (auto simp: and_finally_def)

section \<open>The SNAP library\<close>

datatype snap_rc =
    SNAP_OK | SNAP_EBUSY | SNAP_ENODEV | SNAP_EIO | SNAP_ENOENT | SNAP_EFAULT | SNAP_ETIMEDOUT
  | SNAP_EINVAL | SNAP_EATTACH | SNAP_EDETACH | SNAP_OTHER

record 'c snap_lib =
  snap_card_alloc_dev :: "int \<Rightarrow> 'c \<Rightarrow> bool \<times> 'c"
  snap_card_free :: "'c \<Rightarrow> 'c"
  snap_attach_action :: "u32 \<Rightarrow> 'c \<Rightarrow> bool \<times> 'c"
  snap_detach_action :: "'c \<Rightarrow> 'c"
  snap_malloc :: "nat \<Rightarrow> 'c \<Rightarrow> u64 \<times> bytes \<times> 'c"
  snap_action_sync_execute_job :: "Job \<Rightarrow> bytes \<Rightarrow> 'c \<Rightarrow> snap_rc \<times> snap_retc \<times> Job \<times> bytes \<times> 'c"

section \<open>SnapAction\<close>

fun jobTypeToString :: "JobType \<Rightarrow> string" where
  "jobTypeToString ReadImageInfo = ''ReadImageInfo''"
| "jobTypeToString Map = ''Map''"
| "jobTypeToString ConfigureStreams = ''ConfigureStreams''"
| "jobTypeToString ResetPerfmon = ''ResetPerfmon''"
| "jobTypeToString ConfigurePerfmon = ''ConfigurePerfmon''"
| "jobTypeToString ReadPerfmonCounters = ''ReadPerfmonCounters''"
| "jobTypeToString RunOperators = ''RunOperators''"
| "jobTypeToString ConfigureOperator = ''ConfigureOperator''"

fun addressTypeToString :: "AddressType \<Rightarrow> string" where
  "addressTypeToString Host = ''Host''"
| "addressTypeToString CardDRAM = ''CardDRAM''"
| "addressTypeToString NVMe = ''NVMe''"
| "addressTypeToString Null = ''Null''"
| "addressTypeToString Random = ''Random''"

fun mapTypeToString :: "MapType \<Rightarrow> string" where
  "mapTypeToString MapNone = ''None''"
| "mapTypeToString MapDRAM = ''DRAM''"
| "mapTypeToString MapNVMe = ''NVMe''"
| "mapTypeToString MapDRAMAndNVMe = ''DRAMAndNVMe''"

fun snapReturnCodeToString :: "snap_rc \<Rightarrow> string" where
  "snapReturnCodeToString SNAP_OK = ''''"
| "snapReturnCodeToString SNAP_EBUSY = ''Resource is busy''"
| "snapReturnCodeToString SNAP_ENODEV = ''No such device''"
| "snapReturnCodeToString SNAP_EIO = ''Problem accessing the card''"
| "snapReturnCodeToString SNAP_ENOENT = ''Entry not found''"
| "snapReturnCodeToString SNAP_EFAULT = ''Illegal address''"
| "snapReturnCodeToString SNAP_ETIMEDOUT = ''Timeout error''"
| "snapReturnCodeToString SNAP_EINVAL = ''Invalid parameters''"
| "snapReturnCodeToString SNAP_EATTACH = ''Attach error''"
| "snapReturnCodeToString SNAP_EDETACH = ''Detach error''"
| "snapReturnCodeToString SNAP_OTHER = ''Unknown error''"

text \<open>Constructor and destructor: the card is given back if the action cannot be attached.\<close>

definition SnapAction :: "'c snap_lib \<Rightarrow> int \<Rightarrow> ('c, unit) act" where
  "SnapAction S dev c =
     (let (got_card, c) = snap_card_alloc_dev S dev c
      in if \<not> got_card then throw ''Failed to open card'' c
         else let (attached, c) = snap_attach_action S ActionType c
              in if \<not> attached then throw ''Failed to attach action'' (snap_card_free S c)
                 else ret () c)"

definition SnapAction_destroy :: "'c snap_lib \<Rightarrow> 'c \<Rightarrow> 'c" where
  "SnapAction_destroy S c = snap_card_free S (snap_detach_action S c)"

definition allocateMemory :: "'c snap_lib \<Rightarrow> nat \<Rightarrow> ('c, u64 \<times> bytes) act" where
  "allocateMemory S n c = (let (a, bs, c) = snap_malloc S n c in ret (a, bs) c)"

definition no_address :: Address where
  "no_address = \<lparr>a_addr = 0, a_size = 0, a_type = Host, a_map = MapNone\<rparr>"

text \<open>\<open>parameters\<close> is the address of the buffer and its bytes, \<open>(0, [])\<close> for a null pointer.\<close>

definition executeJob ::
  "'c snap_lib \<Rightarrow> JobType \<Rightarrow> u64 \<times> bytes \<Rightarrow> Address \<Rightarrow> Address \<Rightarrow> u64 \<Rightarrow> u64 \<Rightarrow>
     ('c, u64 \<times> u64 \<times> bytes) act" where
  "executeJob S jobType parameters source destination directData0 directData1 c =
     (let mjob = \<lparr>job_address = fst parameters, job_type = Some jobType, j_source = source,
                   j_destination = destination, direct_data = [directData0, directData1, 0, 0]\<rparr>;
          (rc, retc, mjob, bs, c) = snap_action_sync_execute_job S mjob (snd parameters) c
      in if rc \<noteq> SNAP_OK then throw (''Error starting job: '' @ snapReturnCodeToString rc) c
         else if retc \<noteq> SNAP_RETC_SUCCESS then throw ''Job was unsuccessful'' c
         else ret (direct_data mjob ! 2, direct_data mjob ! 3, bs) c)"

abbreviation simpleJob :: "'c snap_lib \<Rightarrow> JobType \<Rightarrow> u64 \<times> bytes \<Rightarrow> ('c, u64 \<times> u64 \<times> bytes) act" where
  "simpleJob S jobType parameters \<equiv> executeJob S jobType parameters no_address no_address 0 0"

section \<open>The card behind the library\<close>

text \<open>
  What the host relies on: allocated memory is aligned to lines and does not wrap around, and a job
  that the library reports as executed is the action of the FPGA, run on a memory that holds the
  parameters.  \<open>fp\<close> is the state of the FPGA in the state of the library.
\<close>

locale snap_card =
  fixes S :: "'c snap_lib" and fp :: "'c \<Rightarrow> fpga" and nvme :: bool and indeterminate :: u64
  assumes malloc: "snap_malloc S n c = (a, bs, c') \<Longrightarrow> n \<le> 2 ^ 32 \<Longrightarrow>
      length bs = n \<and> 64 dvd unat a \<and> unat a + n < 2 ^ 64 \<and> fp c' = fp c"
    and exec: "snap_action_sync_execute_job S job bs c = (SNAP_OK, retc, job', bs', c') \<Longrightarrow>
      64 dvd unat (job_address job) \<Longrightarrow> length bs \<le> 2 ^ 32 \<Longrightarrow>
      \<exists>mem s. holds mem (job_address job) bs \<and>
        hls_action nvme indeterminate 1 job ((fp c)\<lparr>f_mem := mem\<rparr>) = Some (retc, None, job', s) \<and>
        fp c' = s \<and> length bs' = length bs \<and> holds (f_mem s) (job_address job) bs'"
begin

text \<open>A job that does not throw was processed by the FPGA.\<close>

lemma executed:
  assumes "executeJob S jt (a, bs) src dst d0 d1 c = Some (Inr (o0, o1, bs'), c')"
    and "64 dvd unat a" "length bs \<le> 2 ^ 32"
  shows "\<exists>mem job'. holds mem a bs \<and>
    process_action nvme indeterminate \<lparr>job_address = a, job_type = Some jt, j_source = src,
        j_destination = dst, direct_data = [d0, d1, 0, 0]\<rparr> ((fp c)\<lparr>f_mem := mem\<rparr>) =
      Some (SNAP_RETC_SUCCESS, job', fp c') \<and>
    o0 = direct_data job' ! 2 \<and> o1 = direct_data job' ! 3 \<and>
    length bs' = length bs \<and> holds (f_mem (fp c')) a bs'"
proof -
  let ?job = "\<lparr>job_address = a, job_type = Some jt, j_source = src, j_destination = dst,
    direct_data = [d0, d1, 0, 0]\<rparr>"
  obtain job' where e: "snap_action_sync_execute_job S ?job bs c = (SNAP_OK, SNAP_RETC_SUCCESS, job', bs', c')"
      and o: "o0 = direct_data job' ! 2" "o1 = direct_data job' ! 3"
    using assms(1) by (auto simp: executeJob_def Let_def split: prod.splits if_splits)
  obtain mem where "holds mem a bs"
      "hls_action nvme indeterminate 1 ?job ((fp c)\<lparr>f_mem := mem\<rparr>) = Some (SNAP_RETC_SUCCESS, None, job', fp c')"
      "length bs' = length bs" "holds (f_mem (fp c')) a bs'"
    using exec [OF e] assms(2,3) by auto
  with o show ?thesis
    by (intro exI [of _ mem] exI [of _ job']) (auto simp: hls_action_def bind_eq_Some_conv)
qed

lemma allocated:
  assumes "allocateMemory S n c = Some (Inr (a, bs), c')" "n \<le> 2 ^ 32"
  shows "length bs = n" "64 dvd unat a" "unat a + n < 2 ^ 64" "fp c' = fp c"
  using assms malloc [of n c a bs c'] by (auto simp: allocateMemory_def split: prod.splits)

end

section \<open>The model of the FPGA as the card\<close>

definition bytes_at :: "membus_mem \<Rightarrow> u64 \<Rightarrow> nat \<Rightarrow> bytes" where
  "bytes_at mem a n = map (\<lambda>k. line_byte (mem (MFB_ADDRESS a + word_of_nat (k div 64))) (k mod 64)) [0..<n]"

definition fpga_lib :: "bool \<Rightarrow> u64 \<Rightarrow> fpga snap_lib" where
  "fpga_lib nvme indeterminate =
     \<lparr>snap_card_alloc_dev = (\<lambda>_ c. (True, c)), snap_card_free = (\<lambda>c. c),
      snap_attach_action = (\<lambda>t c. (t = ActionType, c)), snap_detach_action = (\<lambda>c. c),
      snap_malloc = (\<lambda>n c. (4096, replicate n 0, c)),
      snap_action_sync_execute_job = (\<lambda>job bs c.
        case hls_action nvme indeterminate 1 job (c\<lparr>f_mem := host_mem (job_address job) bs\<rparr>) of
          None \<Rightarrow> (SNAP_ETIMEDOUT, SNAP_RETC_FAILURE, job, bs, c)
        | Some (retc, _, job', s) \<Rightarrow>
            (SNAP_OK, retc, job', bytes_at (f_mem s) (job_address job) (length bs), s))\<rparr>"

lemma holds_bytes_at: "holds mem a (bytes_at mem a n)"
  by (simp add: holds_def bytes_at_def)

interpretation fcard: snap_card "fpga_lib nvme indeterminate" "\<lambda>c. c" nvme indeterminate
  for nvme indeterminate
proof unfold_locales
  fix n :: nat and c c' a bs
  assume "snap_malloc (fpga_lib nvme indeterminate) n c = (a, bs, c')" "n \<le> 2 ^ 32"
  then show "length bs = n \<and> 64 dvd unat a \<and> unat a + n < 2 ^ 64 \<and> c' = c"
    by (auto simp: fpga_lib_def)
next
  fix job bs c retc job' bs' c'
  assume e: "snap_action_sync_execute_job (fpga_lib nvme indeterminate) job bs c = (SNAP_OK, retc, job', bs', c')"
    and l: "length bs \<le> 2 ^ 32"
  then have h: "hls_action nvme indeterminate 1 job (c\<lparr>f_mem := host_mem (job_address job) bs\<rparr>) =
      Some (retc, None, job', c')" "bs' = bytes_at (f_mem c') (job_address job) (length bs)"
    by (auto simp: fpga_lib_def hls_action_def bind_eq_Some_conv split: option.splits)
  then show "\<exists>mem s. holds mem (job_address job) bs \<and>
      hls_action nvme indeterminate 1 job (c\<lparr>f_mem := mem\<rparr>) = Some (retc, None, job', s) \<and>
      c' = s \<and> length bs' = length bs \<and> holds (f_mem s) (job_address job) bs'"
    using holds_host_mem [OF l] holds_bytes_at by (auto simp: bytes_at_def)
qed

end
