(* ===== verification/Operators.thy ===== *)
theory Operators
  imports Snap
begin

text \<open>
  Operators and their options (\<open>operator_argument.hpp\<close>, \<open>operator_specification.cpp\<close>,
  \<open>operator_factory.cpp\<close>, \<open>operator.cpp\<close>, \<open>operator_context.cpp\<close>).  The JSON library is an argument,
  the record \<open>json_lib\<close> of the functions that are called.  An \<open>unordered_map\<close> is an association list
  in the order of its iteration.
\<close>

section \<open>Options\<close>

datatype OperatorArgumentValue = UintValue u32 | BoolValue bool | BufferValue bytes

datatype OptionType = Uint | Bool | Buffer

fun value_type :: "OperatorArgumentValue \<Rightarrow> OptionType" where
  "value_type (UintValue _) = Uint"
| "value_type (BoolValue _) = Bool"
| "value_type (BufferValue _) = Buffer"

record OperatorOptionDefinition =
  od_offset :: u64
  od_type :: OptionType
  od_key :: string
  od_short :: string
  od_description :: string
  od_bufferSize :: "u64 option"

record OperatorSpecification =
  spec_id :: string
  spec_description :: string
  streamID :: u8
  prepareRequired :: bool
  optionDefinitions :: "(string \<times> OperatorOptionDefinition) list"

section \<open>Manifests\<close>

record 'j json_lib =
  json_parse :: "string \<Rightarrow> string + 'j"
  json_dump :: "'j \<Rightarrow> string"
  json_is_object :: "'j \<Rightarrow> bool"
  json_is_null :: "'j \<Rightarrow> bool"
  json_is_string :: "'j \<Rightarrow> bool"
  json_index :: "'j \<Rightarrow> string \<Rightarrow> string + 'j"
  json_items :: "'j \<Rightarrow> (string \<times> 'j) list"
  json_get_string :: "'j \<Rightarrow> string + string"
  json_get_u8 :: "'j \<Rightarrow> string + u8"
  json_get_u64 :: "'j \<Rightarrow> string + u64"
  json_get_bool :: "'j \<Rightarrow> string + bool"

fun try_then :: "'e + 'a \<Rightarrow> ('a \<Rightarrow> 'e + 'b) \<Rightarrow> 'e + 'b" where
  "try_then (Inl e) f = Inl e"
| "try_then (Inr x) f = f x"

lemma try_then_Inr: "try_then m f = Inr y \<longleftrightarrow> (\<exists>x. m = Inr x \<and> f x = Inr y)"
  by (cases m) auto

definition json_field :: "'j json_lib \<Rightarrow> ('j \<Rightarrow> string + 'a) \<Rightarrow> 'j \<Rightarrow> string \<Rightarrow> string + 'a" where
  "json_field J get j k = try_then (json_index J j k) get"

text \<open>One option of a manifest; \<^term>\<open>None\<close> where its type is not known, which is only logged.\<close>

definition parse_option ::
  "'j json_lib \<Rightarrow> string \<Rightarrow> 'j \<Rightarrow> string + OperatorOptionDefinition option" where
  "parse_option J key val =
     try_then (json_field J (json_get_string J) val ''short'') (\<lambda>shortK.
     try_then (json_field J (json_get_string J) val ''description'') (\<lambda>description.
     try_then (json_field J (json_get_u64 J) val ''offset'') (\<lambda>offset.
     try_then (json_index J val ''type'') (\<lambda>type.
       let def = (\<lambda>t sz. Some \<lparr>od_offset = offset, od_type = t, od_key = key, od_short = shortK,
                     od_description = description, od_bufferSize = sz\<rparr>)
       in if json_is_string J type then
            try_then (json_get_string J type) (\<lambda>typeString.
              if typeString = ''bool'' then Inr (def Bool None)
              else if typeString = ''int'' then Inr (def Uint None)
              else if json_is_object J type then
                try_then (json_field J (json_get_string J) type ''type'') (\<lambda>typeString.
                  if typeString = ''buffer''
                  then try_then (json_field J (json_get_u64 J) type ''size'') (\<lambda>sz. Inr (def Buffer (Some sz)))
                  else Inr None)
              else Inr None)
          else if json_is_object J type then
            try_then (json_field J (json_get_string J) type ''type'') (\<lambda>typeString.
              if typeString = ''buffer''
              then try_then (json_field J (json_get_u64 J) type ''size'') (\<lambda>sz. Inr (def Buffer (Some sz)))
              else Inr None)
          else Inr None))))"

fun parse_options ::
  "'j json_lib \<Rightarrow> (string \<times> 'j) list \<Rightarrow> (string \<times> OperatorOptionDefinition) list \<Rightarrow>
     string + (string \<times> OperatorOptionDefinition) list" where
  "parse_options J [] result = Inr result"
| "parse_options J ((key, val) # opts) result =
     try_then (parse_option J key val) (\<lambda>d.
       parse_options J opts
         (case d of None \<Rightarrow> result
          | Some d \<Rightarrow> if key \<in> fst ` set result then result else result @ [(key, d)]))"

definition parse_specification :: "'j json_lib \<Rightarrow> string \<Rightarrow> string \<Rightarrow> string + OperatorSpecification" where
  "parse_specification J ident manifest =
     try_then (json_parse J manifest) (\<lambda>m.
       if \<not> json_is_object J m then Inl ''Invalid manifest''
       else try_then (json_field J (json_get_string J) m ''description'') (\<lambda>description.
            try_then (json_field J (json_get_u8 J) m ''internal_id'') (\<lambda>internal_id.
            try_then (json_index J m ''prepare_required'') (\<lambda>prepare.
            try_then (if json_is_null J prepare then Inr False else json_get_bool J prepare) (\<lambda>prepare.
            try_then (json_index J m ''options'') (\<lambda>options.
            try_then (if json_is_null J options then Inr [] else parse_options J (json_items J options) []) (\<lambda>defs.
              Inr \<lparr>spec_id = ident, spec_description = description, streamID = internal_id,
                   prepareRequired = prepare, optionDefinitions = defs\<rparr>)))))))"

section \<open>Factory\<close>

record OperatorFactory =
  operatorSpecifications :: "(string \<times> OperatorSpecification) list"
  isDRAMEnabled :: bool
  isNVMeEnabled :: bool

fun parse_operators ::
  "'j json_lib \<Rightarrow> (string \<times> 'j) list \<Rightarrow> (string \<times> OperatorSpecification) list \<Rightarrow>
     string + (string \<times> OperatorSpecification) list" where
  "parse_operators J [] result = Inr result"
| "parse_operators J ((key, currentOperator) # ops) result =
     try_then (parse_specification J key (json_dump J currentOperator)) (\<lambda>spec.
       parse_operators J ops
         (if spec_id spec \<in> fst ` set result then result else result @ [(spec_id spec, spec)]))"

definition new_OperatorFactory :: "'j json_lib \<Rightarrow> string \<Rightarrow> string + OperatorFactory" where
  "new_OperatorFactory J imageJson =
     try_then (json_parse J imageJson) (\<lambda>image.
       if \<not> json_is_object J image then Inl ''Unexpected input''
       else try_then (json_index J image ''operators'') (\<lambda>operators.
            try_then (if json_is_null J operators then Inr []
                      else parse_operators J (json_items J operators) []) (\<lambda>specs.
            try_then (json_index J image ''target'') (\<lambda>target.
            try_then (json_field J (json_get_bool J) target ''dram'') (\<lambda>dram.
            try_then (json_field J (json_get_bool J) target ''nvme'') (\<lambda>nvme.
              Inr \<lparr>operatorSpecifications = specs, isDRAMEnabled = dram, isNVMeEnabled = nvme\<rparr>))))))"

definition fromFPGA :: "'j json_lib \<Rightarrow> 'c snap_lib \<Rightarrow> ('c, OperatorFactory) act" where
  "fromFPGA J S =
     and_then (allocateMemory S 4096) (\<lambda>json.
     and_then (rethrow (simpleJob S ReadImageInfo json)) (\<lambda>(json_len, _, bs).
       if unat json_len > length bs then undefined_behaviour
       else case new_OperatorFactory J (map (\<lambda>b. char_of (unat b)) (take (unat json_len) bs)) of
              Inl e \<Rightarrow> throw e | Inr f \<Rightarrow> ret f))"

section \<open>Operators\<close>

record Operator =
  op_spec :: OperatorSpecification
  op_options :: "(string \<times> OperatorArgumentValue option) list"

definition new_Operator :: "OperatorSpecification \<Rightarrow> Operator" where
  "new_Operator spec = \<lparr>op_spec = spec, op_options = map (\<lambda>(k, _). (k, None)) (optionDefinitions spec)\<rparr>"

definition createOperator :: "OperatorFactory \<Rightarrow> string \<Rightarrow> string + Operator" where
  "createOperator f ident =
     (case map_of (operatorSpecifications f) ident of
        None \<Rightarrow> Inl ''std::out_of_range'' | Some spec \<Rightarrow> Inr (new_Operator spec))"

definition setOption :: "Operator \<Rightarrow> string \<Rightarrow> OperatorArgumentValue \<Rightarrow> string + Operator" where
  "setOption operator option arg =
     (case map_of (optionDefinitions (op_spec operator)) option of
        None \<Rightarrow> Inl ''Unknown option''
      | Some d \<Rightarrow>
          if od_type d \<noteq> value_type arg then Inl ''Invalid option''
          else if option \<notin> fst ` set (op_options operator) then Inl ''std::out_of_range''
          else Inr (operator\<lparr>op_options :=
            map (\<lambda>(k, v). (k, if k = option then Some arg else v)) (op_options operator)\<rparr>))"

section \<open>Operator contexts\<close>

record OperatorContext =
  userOperator :: Operator
  is_prepared :: bool
  profilingEnabled :: bool
  profilingResults :: string

definition new_OperatorContext :: "Operator \<Rightarrow> OperatorContext" where
  "new_OperatorContext operator =
     \<lparr>userOperator = operator, is_prepared = False, profilingEnabled = False, profilingResults = ''''\<rparr>"

text \<open>Writing bytes into a buffer; past its end nothing is defined.\<close>

definition write_at :: "nat \<Rightarrow> bytes \<Rightarrow> bytes \<Rightarrow> bytes option" where
  "write_at off bs buf =
     (if off + length bs \<le> length buf then Some (take off buf @ bs @ drop (off + length bs) buf) else None)"

text \<open>The bytes of an option: numbers in the byte order of the host, buffers as they are.\<close>

fun option_bytes :: "OperatorArgumentValue \<Rightarrow> bytes" where
  "option_bytes (UintValue v) = enc32 v"
| "option_bytes (BoolValue b) = enc32 (if b then 1 else 0)"
| "option_bytes (BufferValue bs) = bs"

fun option_words :: "OperatorArgumentValue \<Rightarrow> u32" where
  "option_words (UintValue v) = 1"
| "option_words (BoolValue b) = 1"
| "option_words (BufferValue bs) = word_of_nat (length bs div 4)"

definition option_job ::
  "OperatorSpecification \<Rightarrow> OperatorOptionDefinition \<Rightarrow> OperatorArgumentValue \<Rightarrow> bytes \<Rightarrow> bytes option" where
  "option_job spec definition v job_config = do {
     jc \<leftarrow> write_at 0 (htobe32 (ucast (od_offset definition div 4))) job_config;
     jc \<leftarrow> write_at 8 (htobe32 (ucast (streamID spec))) jc;
     jc \<leftarrow> write_at 12 (htobe32 (if prepareRequired spec then 1 else 0)) jc;
     jc \<leftarrow> write_at 16 (option_bytes v) jc;
     write_at 4 (htobe32 (option_words v)) jc
   }"

fun configure_options ::
  "'c snap_lib \<Rightarrow> OperatorSpecification \<Rightarrow> u64 \<Rightarrow> (string \<times> OperatorArgumentValue option) list \<Rightarrow>
     bytes \<Rightarrow> bool \<Rightarrow> ('c, bool) act" where
  "configure_options S spec a [] job_config prepared = ret prepared"
| "configure_options S spec a ((key, v) # opts) job_config prepared =
     (case v of
        None \<Rightarrow> configure_options S spec a opts job_config prepared
      | Some v \<Rightarrow>
          (case map_of (optionDefinitions spec) key of
             None \<Rightarrow> throw ''std::out_of_range''
           | Some definition \<Rightarrow>
               (case option_job spec definition v job_config of
                  None \<Rightarrow> undefined_behaviour
                | Some job_config \<Rightarrow>
                    and_then (on_exception
                        (and_then (simpleJob S ConfigureOperator (a, job_config)) (\<lambda>(_, _, bs). ret bs))
                        (\<lambda>_. ret job_config)) (\<lambda>job_config.
                      configure_options S spec a opts job_config False))))"

definition configure :: "'c snap_lib \<Rightarrow> OperatorContext \<Rightarrow> ('c, OperatorContext) act" where
  "configure S oc =
     and_then (allocateMemory S 4096) (\<lambda>(a, job_config).
     and_then (configure_options S (op_spec (userOperator oc)) a (op_options (userOperator oc)) job_config
                 (is_prepared oc)) (\<lambda>prepared.
       ret (oc\<lparr>is_prepared := prepared\<rparr>)))"

definition needs_preparation :: "OperatorContext \<Rightarrow> bool" where
  "needs_preparation oc \<longleftrightarrow> \<not> is_prepared oc \<and> prepareRequired (op_spec (userOperator oc))"

definition set_is_prepared :: "OperatorContext \<Rightarrow> OperatorContext" where
  "set_is_prepared oc = oc\<lparr>is_prepared := True\<rparr>"

section \<open>The operators of the image\<close>

text \<open>
  C33: the host sees the image of the card.  \<open>fromFPGA\<close> sends the \<open>ReadImageInfo\<close> job and always
  returns: if the library reports the job as executed, with the operators of exactly the text in the
  image info registers of the FPGA (its length word, at most 4096 bytes, byte for byte across the lines
  of memory), or the error of parsing that text; if not, with an exception that has lost its message.
\<close>

theorem fromFPGA_reads_image:
  assumes "snap_card S fp nvme indeterminate" "snap_malloc S 4096 c = (a, bs, c1)"
    and "snap_action_sync_execute_job S \<lparr>job_address = a, job_type = Some ReadImageInfo, j_source = no_address,
        j_destination = no_address, direct_data = [0, 0, 0, 0]\<rparr> bs c1 = (rc, retc, job', bs', c2)"
  shows "fromFPGA J S c = Some
    (if rc = SNAP_OK then new_OperatorFactory J (map (\<lambda>b. char_of (unat b)) (image_info (f_regs (fp c))))
     else Inl ''std::exception'', c2)"
proof (cases "rc = SNAP_OK")
  case False
  then show ?thesis
    using assms(2,3)
    by (simp add: fromFPGA_def and_then_def allocateMemory_def rethrow_def on_exception_def executeJob_def Let_def)
next
  case True
  let ?job = "\<lparr>job_address = a, job_type = Some ReadImageInfo, j_source = no_address, j_destination = no_address,
    direct_data = [0, 0, 0, 0]\<rparr>" and ?info = "image_info (f_regs (fp c))"
  have m: "length bs = 4096" "64 dvd unat a" "fp c1 = fp c" using snap_card.malloc [OF assms(1,2)] by simp_all
  obtain mem s where s: "hls_action nvme indeterminate 1 ?job ((fp c)\<lparr>f_mem := mem\<rparr>) = Some (retc, None, job', s)"
      "length bs' = 4096" "holds (f_mem s) a bs'"
    using snap_card.exec [OF assms(1) assms(3) [unfolded True]] m by auto
  obtain n s' where r: "read_image_info a ((fp c)\<lparr>f_mem := mem\<rparr>) = (n, s')"
    by (cases "read_image_info a ((fp c)\<lparr>f_mem := mem\<rparr>)")
  note img = read_image_info_holds [OF r, simplified]
  have j: "retc = SNAP_RETC_SUCCESS" "direct_data job' ! 2 = ucast n" "s = s'"
    using s(1) r by (auto simp: hls_action_def process_action_def)
  have n: "unat (ucast n :: u64) = length ?info" using img by simp
  have len: "length ?info \<le> 4096" by (simp add: image_info_def)
  have "take (length ?info) bs' = ?info"
    by (rule nth_equalityI) (use s(2,3) img len j(3) in \<open>auto simp: holds_def\<close>)
  then show ?thesis
    using assms(2,3) True j n len s(2)
    by (simp add: fromFPGA_def and_then_def allocateMemory_def rethrow_def on_exception_def executeJob_def Let_def
        split: sum.split)
qed

section \<open>Every value has the type of its option\<close>

definition defs_ok :: "OperatorSpecification \<Rightarrow> bool" where
  "defs_ok spec \<longleftrightarrow> distinct (map fst (optionDefinitions spec)) \<and>
     (\<forall>(k, d) \<in> set (optionDefinitions spec). od_key d = k \<and> (od_bufferSize d \<noteq> None \<longleftrightarrow> od_type d = Buffer))"

definition operator_ok :: "Operator \<Rightarrow> bool" where
  "operator_ok operator \<longleftrightarrow> defs_ok (op_spec operator) \<and>
     map fst (op_options operator) = map fst (optionDefinitions (op_spec operator)) \<and>
     (\<forall>k v. map_of (op_options operator) k = Some (Some v) \<longrightarrow>
        (\<exists>d. map_of (optionDefinitions (op_spec operator)) k = Some d \<and> od_type d = value_type v))"

lemma parse_option_ok:
  assumes "parse_option J key val = Inr (Some d)"
  shows "od_key d = key \<and> (od_bufferSize d \<noteq> None \<longleftrightarrow> od_type d = Buffer)"
  using assms by (auto simp: parse_option_def try_then_Inr Let_def split: if_splits)

lemma parse_options_ok:
  assumes "parse_options J opts result = Inr defs"
    and "distinct (map fst result)"
    and "\<forall>(k, d) \<in> set result. od_key d = k \<and> (od_bufferSize d \<noteq> None \<longleftrightarrow> od_type d = Buffer)"
  shows "distinct (map fst defs) \<and>
    (\<forall>(k, d) \<in> set defs. od_key d = k \<and> (od_bufferSize d \<noteq> None \<longleftrightarrow> od_type d = Buffer))"
  using assms
proof (induction opts arbitrary: result)
  case (Cons x opts)
  obtain key val where x: "x = (key, val)" by (cases x)
  obtain d where d: "parse_option J key val = Inr d"
    "parse_options J opts (case d of None \<Rightarrow> result
          | Some d \<Rightarrow> if key \<in> fst ` set result then result else result @ [(key, d)]) = Inr defs"
    using Cons.prems(1) by (auto simp only: x parse_options.simps try_then_Inr)
  show ?case
  proof (rule Cons.IH [OF d(2)], goal_cases)
    case 1
    then show ?case using Cons.prems(2) by (simp split: option.split)
  next
    case 2
    then show ?case
      using Cons.prems(3) parse_option_ok [of J key val] d(1) by (auto split: option.split)
  qed
qed simp

lemma parse_specification_ok:
  assumes "parse_specification J ident manifest = Inr spec"
  shows "defs_ok spec"
proof -
  obtain opts where "(if json_is_null J opts then Inr [] else parse_options J (json_items J opts) []) =
      Inr (optionDefinitions spec)"
    using assms unfolding parse_specification_def try_then_Inr by (force simp: try_then_Inr split: if_splits)
  then show ?thesis
    using parse_options_ok [of J "json_items J opts" "[]" "optionDefinitions spec"]
    by (cases "json_is_null J opts") (simp_all add: defs_ok_def)
qed

lemma parse_operators_ok:
  assumes "parse_operators J ops result = Inr specs" "\<forall>spec \<in> snd ` set result. defs_ok spec"
  shows "\<forall>spec \<in> snd ` set specs. defs_ok spec"
  using assms
proof (induction ops arbitrary: result)
  case (Cons x ops)
  obtain key j where x: "x = (key, j)" by (cases x)
  obtain spec where spec: "parse_specification J key (json_dump J j) = Inr spec"
      "parse_operators J ops (if spec_id spec \<in> fst ` set result then result
         else result @ [(spec_id spec, spec)]) = Inr specs"
    using Cons.prems(1) by (auto simp only: x parse_operators.simps try_then_Inr)
  show ?case
    using Cons.prems(2) parse_specification_ok [OF spec(1)] by (intro Cons.IH [OF spec(2)]) auto
qed simp

lemma created_ok:
  assumes "new_OperatorFactory J img = Inr f" "createOperator f ident = Inr operator"
  shows "operator_ok operator"
proof -
  have specs: "\<forall>spec \<in> snd ` set (operatorSpecifications f). defs_ok spec"
    using assms(1) parse_operators_ok [of J _ "[]" "operatorSpecifications f"]
    by (fastforce simp: new_OperatorFactory_def try_then_Inr split: if_splits)
  obtain spec where spec: "map_of (operatorSpecifications f) ident = Some spec" "operator = new_Operator spec"
    using assms(2) by (auto simp: createOperator_def split: option.splits)
  have none: "map_of (map (\<lambda>(k, d). (k, None)) xs) k \<noteq> Some (Some v)" for xs :: "(string \<times> OperatorOptionDefinition) list" and k and v :: OperatorArgumentValue
    by (induction xs) auto
  have "defs_ok spec" using specs map_of_SomeD [OF spec(1)] by force
  then show ?thesis
    using none [of "optionDefinitions spec"] unfolding spec(2) operator_ok_def new_Operator_def
    by (simp add: comp_def case_prod_unfold)
qed

lemma map_of_set_value:
  "map_of (map (\<lambda>(k, v). (k, if k = x then Some a else v)) xs) =
     (if x \<in> fst ` set xs then (map_of xs)(x \<mapsto> Some a) else map_of xs)"
  by (induction xs) (auto simp: fun_eq_iff)

lemma setOption_ok:
  assumes "operator_ok operator" "setOption operator k v = Inr operator'"
  shows "operator_ok operator' \<and> op_spec operator' = op_spec operator \<and>
    map_of (op_options operator') = (map_of (op_options operator))(k \<mapsto> Some v)"
proof -
  obtain d where d: "map_of (optionDefinitions (op_spec operator)) k = Some d" "od_type d = value_type v"
      "k \<in> fst ` set (op_options operator)"
      "operator' = operator\<lparr>op_options := map (\<lambda>(j, w). (j, if j = k then Some v else w)) (op_options operator)\<rparr>"
    using assms(2) by (auto simp: setOption_def split: option.splits if_splits)
  have m: "map_of (op_options operator') = (map_of (op_options operator))(k \<mapsto> Some v)"
    using d(3) by (simp add: d(4) map_of_set_value)
  have "map fst (op_options operator') = map fst (op_options operator)" by (simp add: d(4) comp_def case_prod_unfold)
  moreover have "op_spec operator' = op_spec operator" by (simp add: d(4))
  ultimately show ?thesis using assms(1) d(1,2) m by (auto simp: operator_ok_def simp del: map_map)
qed

text \<open>A sequence of calls of \<open>setOption\<close>, up to the first that throws.\<close>

fun setOptions :: "Operator \<Rightarrow> (string \<times> OperatorArgumentValue) list \<Rightarrow> string + Operator" where
  "setOptions operator [] = Inr operator"
| "setOptions operator ((k, v) # args) = try_then (setOption operator k v) (\<lambda>p. setOptions p args)"

section \<open>Options are those of the manifest\<close>

text \<open>
  What an entry of the options of a manifest declares: an option of a type of the three known ones,
  with its attributes.  An entry whose type is something else declares no option.
\<close>

definition declares :: "'j json_lib \<Rightarrow> 'j \<Rightarrow> OptionType \<Rightarrow> bool" where
  "declares J entry t \<longleftrightarrow> (\<exists>type. json_index J entry ''type'' = Inr type \<and>
     (case t of
        Bool \<Rightarrow> json_is_string J type \<and> json_get_string J type = Inr ''bool''
      | Uint \<Rightarrow> json_is_string J type \<and> json_get_string J type = Inr ''int''
      | Buffer \<Rightarrow> json_is_object J type \<and> json_field J (json_get_string J) type ''type'' = Inr ''buffer''))"

definition describes :: "'j json_lib \<Rightarrow> string \<Rightarrow> 'j \<Rightarrow> OperatorOptionDefinition \<Rightarrow> bool" where
  "describes J k entry d \<longleftrightarrow> declares J entry (od_type d) \<and> od_key d = k \<and>
     json_field J (json_get_u64 J) entry ''offset'' = Inr (od_offset d) \<and>
     json_field J (json_get_string J) entry ''short'' = Inr (od_short d) \<and>
     json_field J (json_get_string J) entry ''description'' = Inr (od_description d) \<and>
     (case od_bufferSize d of
        None \<Rightarrow> od_type d \<noteq> Buffer
      | Some sz \<Rightarrow> od_type d = Buffer \<and>
          (\<exists>type. json_index J entry ''type'' = Inr type \<and> json_field J (json_get_u64 J) type ''size'' = Inr sz))"

text \<open>A JSON value is not a string and an object at once.\<close>

definition kinds_apart :: "'j json_lib \<Rightarrow> bool" where
  "kinds_apart J \<longleftrightarrow> (\<forall>j. \<not> (json_is_string J j \<and> json_is_object J j))"

lemma declares_unique: "kinds_apart J \<Longrightarrow> declares J e t \<Longrightarrow> declares J e t' \<Longrightarrow> t = t'"
  by (cases t; cases t') (auto simp: declares_def kinds_apart_def)

lemma parse_option_declared:
  assumes "parse_option J k entry = Inr r" "kinds_apart J"
  shows "case r of None \<Rightarrow> \<forall>t. \<not> declares J entry t | Some d \<Rightarrow> describes J k entry d"
proof -
  have 1: "\<not> declares J entry t" if "r = None" for t
    using assms that
    by (cases t) (auto simp: parse_option_def try_then_Inr Let_def declares_def kinds_apart_def json_field_def
        split: if_splits)
  have 2: "describes J k entry d" if "r = Some d" for d
    using assms that
    by (auto simp: parse_option_def try_then_Inr Let_def declares_def describes_def kinds_apart_def json_field_def
        split: if_splits)
  show ?thesis using 1 2 by (cases r) auto
qed

text \<open>The options that a list of entries with different names declares.\<close>

lemma parse_options_declared:
  assumes "parse_options J entries result = Inr defs" "kinds_apart J"
    and "distinct (map fst entries)" "fst ` set entries \<inter> fst ` set result = {}"
  shows "case map_of defs k of
      None \<Rightarrow> map_of result k = None \<and> (\<forall>entry t. (k, entry) \<in> set entries \<longrightarrow> \<not> declares J entry t)
    | Some d \<Rightarrow> map_of result k = Some d \<or> (\<exists>entry. (k, entry) \<in> set entries \<and> describes J k entry d)"
  using assms(1,3,4)
proof (induction entries arbitrary: result)
  case Nil
  then show ?case by (cases "map_of defs k") auto
next
  case (Cons x entries)
  obtain key e where x: "x = (key, e)" by (cases x)
  obtain r where r: "parse_option J key e = Inr r"
    "parse_options J entries (case r of None \<Rightarrow> result
          | Some d \<Rightarrow> if key \<in> fst ` set result then result else result @ [(key, d)]) = Inr defs"
    using Cons.prems(1) by (auto simp only: x parse_options.simps try_then_Inr)
  note decl = parse_option_declared [OF r(1) assms(2)]
  have new: "key \<notin> fst ` set result" "key \<notin> fst ` set entries" using Cons.prems(2,3) by (auto simp: x)
  show ?case
  proof (cases r)
    case None
    then show ?thesis
      using Cons.IH [OF r(2)] Cons.prems(2,3) decl by (auto simp: x split: option.splits)
  next
    case (Some d)
    then have "map_of (result @ [(key, d)]) k = (if k = key then Some d else map_of result k)"
      using new(1) by (auto simp: map_add_def split: option.splits) (metis domI dom_map_of_conv_image_fst)
    then show ?thesis
      using Cons.IH [OF r(2)] Cons.prems(2,3) decl Some new
      by (auto simp: x split: option.splits if_splits)
  qed
qed

lemma spec_of_manifest:
  assumes "parse_specification J ident text = Inr spec" "json_parse J text = Inr m"
    and "json_index J m ''options'' = Inr opts"
  shows "spec_id spec = ident" "json_field J (json_get_u8 J) m ''internal_id'' = Inr (streamID spec)"
    "json_field J (json_get_string J) m ''description'' = Inr (spec_description spec)"
    "if json_is_null J opts then optionDefinitions spec = []
     else parse_options J (json_items J opts) [] = Inr (optionDefinitions spec)"
  using assms by (auto simp: parse_specification_def try_then_Inr split: if_splits)

lemma parse_operators_find:
  assumes "parse_operators J ops result = Inr specs"
    and "distinct (map fst ops)" "fst ` set ops \<inter> fst ` set result = {}"
  shows "case map_of ops k of
      None \<Rightarrow> map_of specs k = map_of result k
    | Some j \<Rightarrow> \<exists>spec. parse_specification J k (json_dump J j) = Inr spec \<and> map_of specs k = Some spec"
  using assms
proof (induction ops arbitrary: result)
  case (Cons x ops)
  obtain key j where x: "x = (key, j)" by (cases x)
  obtain spec where spec: "parse_specification J key (json_dump J j) = Inr spec"
      "parse_operators J ops (if spec_id spec \<in> fst ` set result then result
         else result @ [(spec_id spec, spec)]) = Inr specs"
    using Cons.prems(1) by (auto simp only: x parse_operators.simps try_then_Inr)
  have id: "spec_id spec = key" using spec(1) by (auto simp: parse_specification_def try_then_Inr split: if_splits)
  have new: "key \<notin> fst ` set result" "key \<notin> fst ` set ops" using Cons.prems(2,3) by (auto simp: x)
  have ih: "case map_of ops k of None \<Rightarrow> map_of specs k = map_of (result @ [(key, spec)]) k
    | Some j \<Rightarrow> \<exists>spec. parse_specification J k (json_dump J j) = Inr spec \<and> map_of specs k = Some spec"
    using Cons.IH [OF spec(2) [unfolded id if_not_P [OF new(1)]]] Cons.prems(2,3) new by (simp add: x)
  have "map_of result key = None" "map_of ops key = None" using new by (simp_all add: map_of_eq_None_iff)
  then show ?case using ih spec(1) by (auto simp: x map_add_def split: option.splits)
qed simp

text \<open>Setting options one after the other: the last value of each option stays.\<close>

lemma setOptions_ok:
  assumes "operator_ok p" "setOptions p args = Inr q"
  shows "operator_ok q \<and> op_spec q = op_spec p \<and>
    (\<forall>k. map_of (op_options q) k =
       (case map_of (rev args) k of None \<Rightarrow> map_of (op_options p) k | Some v \<Rightarrow> Some (Some v)))"
  using assms
proof (induction p args rule: setOptions.induct)
  case (2 p k v args)
  obtain p1 where p1: "setOption p k v = Inr p1" "setOptions p1 args = Inr q"
    using 2(3) by (auto simp: try_then_Inr)
  note ok = setOption_ok [OF 2(2) p1(1)]
  show ?case using 2(1) [of p1] p1(2) ok by (auto simp: map_add_def split: option.splits)
qed simp


text \<open>
  A JSON library whose parser knows one image with one operator; its manifest has an option of a known
  type and one of an unknown type.
\<close>

datatype ex_json = JNull | JBool bool | JNum nat | JStr string | JObj "(string \<times> ex_json) list"

definition ex_key :: ex_json where
  "ex_key = JObj [(''short'', JStr ''k''), (''description'', JStr []), (''offset'', JNum 256),
     (''type'', JObj [(''type'', JStr ''buffer''), (''size'', JNum 16)])]"

definition ex_odd :: ex_json where
  "ex_odd = JObj [(''short'', JStr ''o''), (''description'', JStr []), (''offset'', JNum 0), (''type'', JStr ''real'')]"

definition ex_manifest :: ex_json where
  "ex_manifest = JObj [(''description'', JStr ''d''), (''internal_id'', JNum 3),
     (''options'', JObj [(''key'', ex_key), (''odd'', ex_odd)])]"

definition ex_image :: ex_json where
  "ex_image = JObj [(''operators'', JObj [(''op'', ex_manifest)]),
     (''target'', JObj [(''dram'', JBool True), (''nvme'', JBool False)])]"

definition ex_json_lib :: "ex_json json_lib" where
  "ex_json_lib =
     \<lparr>json_parse = (\<lambda>s. Inr (if s = ''image'' then ex_image else ex_manifest)), json_dump = (\<lambda>_. ''manifest''),
      json_is_object = (\<lambda>j. case j of JObj _ \<Rightarrow> True | _ \<Rightarrow> False), json_is_null = (\<lambda>j. j = JNull),
      json_is_string = (\<lambda>j. case j of JStr _ \<Rightarrow> True | _ \<Rightarrow> False),
      json_index = (\<lambda>j k. case j of JObj fs \<Rightarrow> Inr (case map_of fs k of None \<Rightarrow> JNull | Some v \<Rightarrow> v)
                                | JNull \<Rightarrow> Inr JNull | _ \<Rightarrow> Inl ''type_error''),
      json_items = (\<lambda>j. case j of JObj fs \<Rightarrow> fs | _ \<Rightarrow> []),
      json_get_string = (\<lambda>j. case j of JStr s \<Rightarrow> Inr s | _ \<Rightarrow> Inl ''type_error''),
      json_get_u8 = (\<lambda>j. case j of JNum n \<Rightarrow> Inr (word_of_nat n) | _ \<Rightarrow> Inl ''type_error''),
      json_get_u64 = (\<lambda>j. case j of JNum n \<Rightarrow> Inr (word_of_nat n) | _ \<Rightarrow> Inl ''type_error''),
      json_get_bool = (\<lambda>j. case j of JBool b \<Rightarrow> Inr b | _ \<Rightarrow> Inl ''type_error'')\<rparr>"

definition ex_spec :: OperatorSpecification where
  "ex_spec = \<lparr>spec_id = ''op'', spec_description = ''d'', streamID = 3, prepareRequired = False,
     optionDefinitions = [(''key'', \<lparr>od_offset = 256, od_type = Buffer, od_key = ''key'', od_short = ''k'',
       od_description = [], od_bufferSize = Some 16\<rparr>)]\<rparr>"

lemma ex_spec_parsed: "parse_specification ex_json_lib ''op'' ''manifest'' = Inr ex_spec"
  by (simp add: parse_specification_def ex_json_lib_def ex_manifest_def ex_key_def ex_odd_def json_field_def
      parse_option_def ex_spec_def Let_def)

lemma ex_factory: "new_OperatorFactory ex_json_lib ''image'' =
    Inr \<lparr>operatorSpecifications = [(''op'', ex_spec)], isDRAMEnabled = True, isNVMeEnabled = False\<rparr>"
proof -
  have "json_parse ex_json_lib ''image'' = Inr ex_image" "json_dump ex_json_lib x = ''manifest''" for x
    by (simp_all add: ex_json_lib_def)
  moreover have "json_is_object ex_json_lib ex_image" "json_index ex_json_lib ex_image ''operators'' = Inr (JObj [(''op'', ex_manifest)])"
    "json_items ex_json_lib (JObj [(''op'', ex_manifest)]) = [(''op'', ex_manifest)]"
    "\<not> json_is_null ex_json_lib (JObj [(''op'', ex_manifest)])"
    by (simp_all add: ex_json_lib_def ex_image_def)
  moreover have "json_index ex_json_lib ex_image ''target'' = Inr (JObj [(''dram'', JBool True), (''nvme'', JBool False)])"
    "json_field ex_json_lib (json_get_bool ex_json_lib) (JObj [(''dram'', JBool True), (''nvme'', JBool False)]) ''dram'' = Inr True"
    "json_field ex_json_lib (json_get_bool ex_json_lib) (JObj [(''dram'', JBool True), (''nvme'', JBool False)]) ''nvme'' = Inr False"
    by (simp_all add: ex_json_lib_def ex_image_def json_field_def)
  moreover have "spec_id ex_spec = ''op''" by (simp add: ex_spec_def)
  ultimately show ?thesis using ex_spec_parsed by (simp add: new_OperatorFactory_def)
qed


text \<open>A card whose image info is the five bytes of the text.\<close>

definition ex_regs :: "u32 \<Rightarrow> u32" where
  "ex_regs a = (if a = ImageInfoBaseAddr then 5
     else if a = ImageInfoBaseAddr + 1024 then dec32 (cstr ''imag'')
     else if a = ImageInfoBaseAddr + 1025 then dec32 (cstr ''e'') else 0)"

theorem fromFPGA_reads_image_witness:
  "\<exists>c'. fromFPGA ex_json_lib (fpga_lib False 0) (idle_fpga\<lparr>f_regs := ex_regs\<rparr>) =
     Some (Inr \<lparr>operatorSpecifications = [(''op'', ex_spec)], isDRAMEnabled = True, isNVMeEnabled = False\<rparr>, c')"
proof -
  let ?S = "fpga_lib False 0" and ?c = "idle_fpga\<lparr>f_regs := ex_regs\<rparr>"
  let ?job = "\<lparr>job_address = 4096, job_type = Some ReadImageInfo, j_source = no_address,
        j_destination = no_address, direct_data = [0, 0, 0, 0]\<rparr>"
  have m: "snap_malloc ?S 4096 ?c = (4096, replicate 4096 0, ?c)" by (simp add: fpga_lib_def)
  obtain retc job' bs' c2 where x: "snap_action_sync_execute_job ?S ?job (replicate 4096 0) ?c = (SNAP_OK, retc, job', bs', c2)"
    by (simp add: fpga_lib_def hls_action_def process_action_def Let_def case_prod_unfold)
  have r: "ex_regs ImageInfoBaseAddr = 5" "ex_regs (ImageInfoBaseAddr + 1024) = dec32 (cstr ''imag'')"
    "ex_regs (1025 + ImageInfoBaseAddr) = dec32 (cstr ''e'')" by (simp_all add: ex_regs_def)
  have ch: "char_of (105 :: nat) = CHR ''i''" "char_of (109 :: nat) = CHR ''m''" "char_of (97 :: nat) = CHR ''a''"
    "char_of (103 :: nat) = CHR ''g''" "char_of (101 :: nat) = CHR ''e''"
    by code_simp+
  have "[0..<5::nat] = [0, 1, 2, 3, 4]" by (simp add: upt_rec)
  then have "map (\<lambda>b. char_of (unat b)) (image_info ex_regs) = ''image''"
    by (simp add: image_info_def info_byte_def r ch cstr_def dec32_def enc32_def le_bytes_numeral)
  then show ?thesis
    using fromFPGA_reads_image [OF fcard.snap_card_axioms m x, of ex_json_lib] ex_factory by simp
qed

end
