(* ===== verification/Pipeline.thy ===== *)
theory Pipeline
  imports Operators
begin

text \<open>
  Pipelines of operators and their runners (\<open>pipeline.cpp\<close>, \<open>snap_pipeline_runner.cpp\<close>,
  \<open>profiling_pipeline_runner.cpp\<close>) with the interfaces of data sources and sinks
  (\<open>data_source_context.hpp\<close>, \<open>data_sink_context.hpp\<close>).  A context of a data source is a record of its
  virtual functions over its own state.
\<close>

section \<open>Data sources and sinks\<close>

record DataSource =
  ds_address :: u64
  ds_size :: u64
  ds_addressType :: AddressType
  ds_mapType :: MapType

definition address :: "DataSource \<Rightarrow> Address" where
  "address d = \<lparr>a_addr = ds_address d, a_size = ucast (ds_size d), a_type = ds_addressType d, a_map = ds_mapType d\<rparr>"

definition withSize :: "u64 \<Rightarrow> DataSource \<Rightarrow> DataSource" where
  "withSize newSize d = d\<lparr>ds_size := newSize\<rparr>"

text \<open>\<open>DataSink\<close> is the same class under another name.\<close>

type_synonym DataSink = DataSource

definition IOStreamID :: u8 where [simp]: "IOStreamID = 0"

record Pipeline =
  operators :: "OperatorContext list"
  cachedSwitchConfiguration :: bool

text \<open>
  Runner and contexts may share the pipeline object; the functions of the contexts that may read it get
  it as an argument.
\<close>

record ('c, 'x) DataSourceContext =
  src_configure :: "bool \<Rightarrow> 'x \<Rightarrow> ('c, 'x) act"
  src_finalize :: "Pipeline \<Rightarrow> 'x \<Rightarrow> ('c, 'x) act"
  src_dataSource :: "'x \<Rightarrow> ('c, DataSource) act"
  src_reportTotalSize :: "'x \<Rightarrow> u64"
  src_endOfInput :: "'x \<Rightarrow> bool"
  src_profilingEnabled :: "'x \<Rightarrow> bool"
  src_setProfilingResults :: "string \<Rightarrow> 'x \<Rightarrow> 'x"

record ('c, 'y) DataSinkContext =
  snk_configure :: "u64 \<Rightarrow> bool \<Rightarrow> 'y \<Rightarrow> ('c, 'y) act"
  snk_finalize :: "Pipeline \<Rightarrow> u64 \<Rightarrow> bool \<Rightarrow> 'y \<Rightarrow> ('c, 'y) act"
  snk_prepareForTotalSize :: "u64 \<Rightarrow> 'y \<Rightarrow> ('c, 'y) act"
  snk_dataSink :: "'y \<Rightarrow> ('c, DataSink) act"
  snk_profilingEnabled :: "'y \<Rightarrow> bool"
  snk_setProfilingResults :: "string \<Rightarrow> 'y \<Rightarrow> 'y"

record DefaultSource =
  s_dataSource :: DataSource
  s_profilingEnabled :: bool
  s_profilingResults :: string

record DefaultSink =
  k_dataSink :: DataSink
  k_profilingEnabled :: bool
  k_profilingResults :: string

definition new_DefaultSource :: "DataSource \<Rightarrow> DefaultSource" where
  "new_DefaultSource d = \<lparr>s_dataSource = d, s_profilingEnabled = False, s_profilingResults = []\<rparr>"

definition new_DefaultSink :: "DataSink \<Rightarrow> DefaultSink" where
  "new_DefaultSink d = \<lparr>k_dataSink = d, k_profilingEnabled = False, k_profilingResults = []\<rparr>"

definition DefaultDataSourceContext :: "('c, DefaultSource) DataSourceContext" where
  "DefaultDataSourceContext =
     \<lparr>src_configure = (\<lambda>_. ret), src_finalize = (\<lambda>_. ret), src_dataSource = (\<lambda>x. ret (s_dataSource x)),
      src_reportTotalSize = (\<lambda>_. 0), src_endOfInput = (\<lambda>_. True),
      src_profilingEnabled = s_profilingEnabled,
      src_setProfilingResults = (\<lambda>t x. x\<lparr>s_profilingResults := t\<rparr>)\<rparr>"

definition DefaultDataSinkContext :: "('c, DefaultSink) DataSinkContext" where
  "DefaultDataSinkContext =
     \<lparr>snk_configure = (\<lambda>_ _. ret), snk_finalize = (\<lambda>_ _ _. ret), snk_prepareForTotalSize = (\<lambda>_. ret),
      snk_dataSink = (\<lambda>y. ret (k_dataSink y)), snk_profilingEnabled = k_profilingEnabled,
      snk_setProfilingResults = (\<lambda>t y. y\<lparr>k_profilingResults := t\<rparr>)\<rparr>"

section \<open>Pipelines\<close>

definition new_Pipeline :: "Operator list \<Rightarrow> Pipeline" where
  "new_Pipeline userOperators =
     \<lparr>operators = map new_OperatorContext userOperators, cachedSwitchConfiguration = False\<rparr>"

definition stream_of :: "OperatorContext \<Rightarrow> u8" where
  "stream_of oc = streamID (op_spec (userOperator oc))"

text \<open>
  The words of the job: every output of the switch is disabled, then every operator is connected to
  its predecessor.  A stream of 8 or more is a write behind the eight words, which is undefined
  behaviour: \<open>configureSwitch\<close> has no result then.
\<close>

fun switch_words :: "u8 list \<Rightarrow> u8 \<Rightarrow> u32 list \<Rightarrow> u32 list" where
  "switch_words [] previousStream job_struct = job_struct[unat IOStreamID := ucast previousStream]"
| "switch_words (currentStream # streams) previousStream job_struct =
     switch_words streams currentStream (job_struct[unat currentStream := ucast previousStream])"

definition configureSwitch :: "'c snap_lib \<Rightarrow> bool \<Rightarrow> Pipeline \<Rightarrow> ('c, Pipeline) act" where
  "configureSwitch S set_cached p =
     and_then (allocateMemory S (4 * 8)) (\<lambda>(a, _).
       let streams = map stream_of (operators p);
           job_struct = concat (map htobe32 (switch_words streams IOStreamID (replicate 8 0x80000000)))
       in if \<exists>s \<in> set streams. unat s \<ge> 8 then undefined_behaviour
          else and_then (rethrow (simpleJob S ConfigureStreams (a, job_struct))) (\<lambda>_.
                 ret (p\<lparr>cachedSwitchConfiguration := set_cached\<rparr>)))"

fun configure_all :: "'c snap_lib \<Rightarrow> OperatorContext list \<Rightarrow> ('c, OperatorContext list) act" where
  "configure_all S [] = ret []"
| "configure_all S (oc # ocs) =
     and_then (configure S oc) (\<lambda>oc. and_then (configure_all S ocs) (\<lambda>ocs. ret (oc # ocs)))"

text \<open>
  The mask of the enabled streams, from \<open>m\<close> on.  \<open>1u << streamID\<close> is undefined behaviour for
  a stream of 32 or more.
\<close>

fun stream_mask :: "u64 \<Rightarrow> u8 list \<Rightarrow> ('c, u64) act" where
  "stream_mask m [] = ret m"
| "stream_mask m (s # streams) =
     (if unat s \<ge> 32 then undefined_behaviour
      else stream_mask (m OR ucast (push_bit (unat s) (1 :: u32))) streams)"

definition Pipeline_run ::
  "'c snap_lib \<Rightarrow> DataSource \<Rightarrow> DataSink \<Rightarrow> Pipeline \<Rightarrow> ('c, u64 \<times> Pipeline) act" where
  "Pipeline_run S dataSource dataSink p =
     and_then (configure_all S (operators p)) (\<lambda>ocs.
     and_then (stream_mask 0 (map stream_of (filter needs_preparation ocs))) (\<lambda>enable_mask.
     and_then (if enable_mask \<noteq> 0
               then executeJob S RunOperators (0, []) no_address no_address enable_mask 0
               else ret (0, 0, [])) (\<lambda>_.
     and_then (if \<not> cachedSwitchConfiguration p then configureSwitch S False (p\<lparr>operators := ocs\<rparr>)
               else ret (p\<lparr>operators := ocs\<rparr>)) (\<lambda>p.
       let p = p\<lparr>operators := map set_is_prepared (operators p)\<rparr>
       in and_then (stream_mask 1 (map stream_of (operators p))) (\<lambda>enable_mask.
          and_then (executeJob S RunOperators (0, []) (address dataSource) (address dataSink)
                      enable_mask 1) (\<lambda>(output_size, _, _).
            ret (output_size, p)))))))"

section \<open>Runners\<close>

record ProfilingResults =
  globalClockCounter :: u64
  inputDataByteCount :: u64
  inputTransferCycleCount :: u64
  inputSlaveIdleCount :: u64
  inputMasterIdleCount :: u64
  outputDataByteCount :: u64
  outputTransferCycleCount :: u64
  outputSlaveIdleCount :: u64
  outputMasterIdleCount :: u64

text \<open>
  One record for \<open>SnapPipelineRunner\<close> and \<open>ProfilingPipelineRunner\<close>; \<open>profiling\<close> tells which of them
  it is.
\<close>

record Runner =
  profiling :: bool
  pipeline :: Pipeline
  initialized :: bool
  the_card :: int
  profileStreamIds :: "(u8 \<times> u8) option"
  results :: ProfilingResults

definition results_zero :: ProfilingResults where
  "results_zero = \<lparr>globalClockCounter = 0, inputDataByteCount = 0, inputTransferCycleCount = 0,
     inputSlaveIdleCount = 0, inputMasterIdleCount = 0, outputDataByteCount = 0,
     outputTransferCycleCount = 0, outputSlaveIdleCount = 0, outputMasterIdleCount = 0\<rparr>"

definition new_Runner :: "bool \<Rightarrow> int \<Rightarrow> Pipeline \<Rightarrow> Runner" where
  "new_Runner prof dev p = \<lparr>profiling = prof, pipeline = p, initialized = False, the_card = dev,
     profileStreamIds = None, results = results_zero\<rparr>"

text \<open>The streams on both sides of the one operator, source or sink that is to be profiled.\<close>

definition select_streams :: "bool \<Rightarrow> bool \<Rightarrow> OperatorContext list \<Rightarrow> string + (u8 \<times> u8) option" where
  "select_streams source sink ocs =
     (let marked = filter (\<lambda>i. profilingEnabled (ocs ! i)) [0..<length ocs]
      in if length marked > 1 then Inl ''Only one operator can be selected for profiling.''
         else if length (filter (\<lambda>b. b) [marked \<noteq> [], source, sink]) > 1
         then Inl ''Only one operator can be selected for profiling.''
         else
           let ids = (case marked of
                        [] \<Rightarrow> None
                      | i # _ \<Rightarrow> Some (stream_of (ocs ! i),
                          if Suc i = length ocs then IOStreamID else stream_of (ocs ! Suc i)));
               ids = (if source then
                        (case ocs of [] \<Rightarrow> Some (IOStreamID, IOStreamID)
                         | oc # _ \<Rightarrow> Some (stream_of oc, stream_of oc))
                      else ids);
               ids = (if sink then Some (IOStreamID, IOStreamID) else ids)
           in Inr ids)"

definition preRun :: "'c snap_lib \<Rightarrow> bool \<Rightarrow> bool \<Rightarrow> bool \<Rightarrow> Runner \<Rightarrow> ('c, Runner) act" where
  "preRun S source sink initialize r =
     (if \<not> profiling r then ret r
      else
        and_then
          (if \<not> initialize then ret r
           else case select_streams source sink (operators (pipeline r)) of
                  Inl e \<Rightarrow> throw e
                | Inr None \<Rightarrow> ret (r\<lparr>profileStreamIds := None\<rparr>)
                | Inr (Some (id0, id1)) \<Rightarrow>
                    and_then (allocateMemory S (8 * 2)) (\<lambda>(a, _).
                    and_then (rethrow (simpleJob S ConfigurePerfmon
                        (a, htobe64 (ucast id0) @ htobe64 (ucast id1)))) (\<lambda>_.
                      ret (r\<lparr>profileStreamIds := Some (id0, id1)\<rparr>)))) (\<lambda>r.
          if profileStreamIds r \<noteq> None
          then and_then (simpleJob S ResetPerfmon (0, [])) (\<lambda>_. ret r)
          else ret r))"

definition be64toh :: "bytes \<Rightarrow> u64" where "be64toh bs = dec64 (rev (take 8 bs))"
definition be32toh :: "bytes \<Rightarrow> u64" where "be32toh bs = ucast (dec32 (rev (take 4 bs)))"

definition add_results :: "bytes \<Rightarrow> ProfilingResults \<Rightarrow> ProfilingResults" where
  "add_results results64 r =
     (let results32 = (\<lambda>i. be32toh (drop (8 + 4 * i) results64))
      in \<lparr>globalClockCounter = globalClockCounter r + be64toh results64,
          inputDataByteCount = inputDataByteCount r + results32 2,
          inputTransferCycleCount = inputTransferCycleCount r + results32 0,
          inputSlaveIdleCount = inputSlaveIdleCount r + results32 3,
          inputMasterIdleCount = inputMasterIdleCount r + results32 4,
          outputDataByteCount = outputDataByteCount r + results32 7,
          outputTransferCycleCount = outputTransferCycleCount r + results32 5,
          outputSlaveIdleCount = outputSlaveIdleCount r + results32 8,
          outputMasterIdleCount = outputMasterIdleCount r + results32 9\<rparr>)"

text \<open>The formatted text of the results is the argument \<open>format\<close>.\<close>

definition postRun ::
  "'c snap_lib \<Rightarrow> (ProfilingResults \<Rightarrow> bool \<Rightarrow> bool \<Rightarrow> string) \<Rightarrow> ('c, 'x) DataSourceContext \<Rightarrow>
   ('c, 'y) DataSinkContext \<Rightarrow> bool \<Rightarrow> 'x \<Rightarrow> 'y \<Rightarrow> Runner \<Rightarrow> ('c, 'x \<times> 'y \<times> Runner) act" where
  "postRun S format DS DK finalize x y r =
     (case (profiling r, profileStreamIds r) of
        (True, Some (id0, id1)) \<Rightarrow>
          and_then (allocateMemory S (8 * 6)) (\<lambda>(a, bs).
          and_then (rethrow (simpleJob S ReadPerfmonCounters (a, bs))) (\<lambda>(_, _, results64).
            let res = add_results results64 (results r);
                r = r\<lparr>results := res\<rparr>;
                ocs = operators (pipeline r)
            in if \<not> finalize then ret (x, y, r)
               else if src_profilingEnabled DS x
               then ret (src_setProfilingResults DS (format res True False) x, y, r)
               else if snk_profilingEnabled DK y
               then ret (x, snk_setProfilingResults DK (format res False True) y, r)
               else ret (x, y,
                      case find (\<lambda>i. stream_of (ocs ! i) = id0) [0..<length ocs] of
                        None \<Rightarrow> r
                      | Some i \<Rightarrow> r\<lparr>pipeline := (pipeline r)\<lparr>operators :=
                          ocs[i := (ocs ! i)\<lparr>profilingResults := format res False False\<rparr>]\<rparr>\<rparr>)))
      | _ \<Rightarrow> ret (x, y, r))"

definition Runner_run ::
  "'c snap_lib \<Rightarrow> (ProfilingResults \<Rightarrow> bool \<Rightarrow> bool \<Rightarrow> string) \<Rightarrow>
   ('c, 'x) DataSourceContext \<Rightarrow> ('c, 'y) DataSinkContext \<Rightarrow> 'x \<Rightarrow> 'y \<Rightarrow> Runner \<Rightarrow>
     ('c, (u64 \<times> bool) \<times> 'x \<times> 'y \<times> Runner) act" where
  "Runner_run S format DS DK x y r =
     and_then (SnapAction S (the_card r)) (\<lambda>_.
     and_finally
      (let initialize = (\<not> initialized r) in
       and_then
         (if initialize then
            let totalSize = src_reportTotalSize DS x in
            and_then (if totalSize > 0 then snk_prepareForTotalSize DK totalSize y else ret y) (\<lambda>y.
            and_then (configureSwitch S True (pipeline r)) (\<lambda>p. ret (y, r\<lparr>pipeline := p\<rparr>)))
          else ret (y, r)) (\<lambda>(y, r).
       and_then (src_configure DS initialize x) (\<lambda>x.
       and_then (src_dataSource DS x) (\<lambda>dataSource.
       let size = a_size (address dataSource);
           endOfInput = src_endOfInput DS x in
       and_then (snk_configure DK (ucast size) initialize y) (\<lambda>y.
       and_then (preRun S (src_profilingEnabled DS x) (snk_profilingEnabled DK y) initialize
                   (r\<lparr>initialized := True\<rparr>)) (\<lambda>r.
       and_then (if size > 0
                 then and_then (src_dataSource DS x) (\<lambda>dataSource.
                      and_then (snk_dataSink DK y) (\<lambda>dataSink.
                      and_then (Pipeline_run S dataSource dataSink (pipeline r))
                        (\<lambda>(outputSize, p). ret (outputSize, r\<lparr>pipeline := p\<rparr>))))
                 else ret (0, r)) (\<lambda>(outputSize, r).
       and_then (postRun S format DS DK endOfInput x y r) (\<lambda>(x, y, r).
       and_then (src_finalize DS (pipeline r) x) (\<lambda>x.
       and_then (snk_finalize DK (pipeline r) outputSize endOfInput y) (\<lambda>y.
         ret ((outputSize, endOfInput), x, y, r)))))))))))
      (SnapAction_destroy S))"

end
