(* ===== verification/Pipeline_Props.thy ===== *)
theory Pipeline_Props
  imports Pipeline
begin

text \<open>
  What the jobs that the host prepares make of the FPGA: the stream switch is configured for the
  order of the operators, and the extents of a file that are mapped into a slot are those that the
  FPGA translates with.
\<close>

section \<open>Parameters of a job as the FPGA reads them\<close>

lemma take_drop_concat:
  assumes "\<forall>x \<in> set xs. length x = n" "k < length xs"
  shows "take n (drop (n * k) (concat xs)) = xs ! k"
  using assms
proof (induction xs arbitrary: k)
  case (Cons x xs)
  then show ?case by (cases k) (simp_all add: algebra_simps)
qed simp

lemma length_concat_const: "\<forall>x \<in> set xs. length x = n \<Longrightarrow> length (concat xs) = n * length xs"
  by (induction xs) simp_all

section \<open>The stream switch\<close>

text \<open>Which input feeds an output: every operator gets the stream before it, I/O the last one.\<close>

definition switch_source :: "u8 list \<Rightarrow> u8 \<Rightarrow> u8 option" where
  "switch_source streams = map_of (zip (streams @ [IOStreamID]) (IOStreamID # streams))"

lemma length_switch_words [simp]: "length (switch_words streams prev js) = length js"
  by (induction streams prev js rule: switch_words.induct) simp_all

lemma stream_eq_iff: "k < 8 \<Longrightarrow> (word_of_nat k :: u8) = c \<longleftrightarrow> k = unat c"
proof -
  assume "k < 8"
  then have "unat (word_of_nat k :: u8) = k" by (simp add: unat_of_nat)
  then show ?thesis by (metis word_of_nat_unat)
qed

lemma switch_words_nth:
  assumes "length js = 8" "distinct (streams @ [IOStreamID])" "\<forall>s \<in> set streams. unat s < 8" "k < 8"
  shows "switch_words streams prev js ! k =
    (case map_of (zip (streams @ [IOStreamID]) (prev # streams)) (word_of_nat k) of
       None \<Rightarrow> js ! k | Some s \<Rightarrow> ucast s)"
  using assms
proof (induction streams arbitrary: prev js)
  case Nil
  then show ?case using stream_eq_iff [of k 0] by (auto simp: nth_list_update)
next
  case (Cons c ss)
  have k: "(word_of_nat k :: u8) = c \<longleftrightarrow> k = unat c" using \<open>k < 8\<close> by (rule stream_eq_iff)
  have n: "map_of (zip (ss @ [IOStreamID]) (c # ss)) c = None"
    using Cons.prems(2) by (auto simp: map_of_eq_None_iff dest!: set_zip_leftD)
  have ih: "switch_words ss c (js[unat c := ucast prev]) ! k =
      (case map_of (zip (ss @ [IOStreamID]) (c # ss)) (word_of_nat k) of
         None \<Rightarrow> js[unat c := ucast prev] ! k | Some s \<Rightarrow> ucast s)"
    by (rule Cons.IH) (use Cons.prems in auto)
  show ?case
  proof (cases "k = unat c")
    case True
    then have w: "word_of_nat k = c" using k by simp
    have "switch_words ss c (js[unat c := ucast prev]) ! k = ucast prev"
      using ih True Cons.prems(1,3) unfolding w n by simp
    then show ?thesis using w by simp
  next
    case False
    then have "js[unat c := ucast prev] ! k = js ! k" "word_of_nat k \<noteq> c" using k by simp_all
    then show ?thesis using ih by (simp only: switch_words.simps append.simps zip_Cons_Cons map_of.simps
        fun_upd_other fst_conv snd_conv not_False_eq_True)
  qed
qed

text \<open>The words of the job, as the FPGA reads them from a memory that holds the job.\<close>

lemma streams_job_words:
  assumes "holds mem a (concat (map htobe32 ws))" "length ws = 8" "k < 8"
  shows "mtl_get32be (mem (MFB_ADDRESS a)) (k * 4) = ws ! k"
proof -
  have l: "\<forall>x \<in> set (map htobe32 ws). length x = 4" by simp
  have "take 4 (drop (64 * 0 + k * 4) (concat (map htobe32 ws))) = htobe32 (ws ! k)"
    using take_drop_concat [OF l, of k] assms(2,3) by (simp add: mult.commute)
  moreover have "length (concat (map htobe32 ws)) = 32"
    using length_concat_const [OF l] assms(2) by simp
  ultimately show ?thesis using holds_get32 [OF assms(1), of 0 "k * 4" "ws ! k"] assms(3) by simp
qed

text \<open>The register writes that route the streams.\<close>

definition routing :: "u8 list \<Rightarrow> reg_write list" where
  "routing streams =
     map (\<lambda>k. (SwitchBaseAddr + AXI_STREAM_SWITCH_MAPPING_CONFIG_OFFSET + word_of_nat k,
            case switch_source streams (word_of_nat k) of None \<Rightarrow> 0x80000000 | Some s \<Rightarrow> ucast s))
       [0, 1, 2, 3, 4, 5, 6, 7] @ [switch_commit SwitchBaseAddr]"

context snap_card
begin

lemma configureSwitch_routes:
  assumes "configureSwitch S cached p c = Some (Inr p', c')"
    and "distinct (map stream_of (operators p) @ [IOStreamID])" "\<forall>oc \<in> set (operators p). unat (stream_of oc) < 8"
  shows "f_writes (fp c') = f_writes (fp c) @ routing (map stream_of (operators p)) \<and>
    p' = p\<lparr>cachedSwitchConfiguration := cached\<rparr>"
proof -
  let ?streams = "map stream_of (operators p)"
  let ?ws = "switch_words ?streams IOStreamID (replicate 8 0x80000000)"
  have d: "\<not> (\<exists>oc \<in> set (operators p). 8 \<le> unat (stream_of oc))" using assms(3) by force
  obtain a bs c1 o0 o1 bs' where al: "allocateMemory S 32 c = Some (Inr (a, bs), c1)"
      and ex: "simpleJob S ConfigureStreams (a, concat (map htobe32 ?ws)) c1 = Some (Inr (o0, o1, bs'), c')"
      and p': "p' = p\<lparr>cachedSwitchConfiguration := cached\<rparr>"
    using assms(1) d by (auto simp: configureSwitch_def and_then_Inr Let_def)
  have n32: "(32 :: nat) \<le> 2 ^ 32" by simp
  have l: "length (concat (map htobe32 ?ws)) = 32"
    using length_concat_const [of "map htobe32 ?ws" 4] by simp
  then have "length (concat (map htobe32 ?ws)) \<le> 2 ^ 32" by simp
  then obtain mem job' where m: "holds mem a (concat (map htobe32 ?ws))"
      "process_action nvme indeterminate \<lparr>job_address = a, job_type = Some ConfigureStreams, j_source = no_address,
        j_destination = no_address, direct_data = [0, 0, 0, 0]\<rparr> ((fp c1)\<lparr>f_mem := mem\<rparr>) =
      Some (SNAP_RETC_SUCCESS, job', fp c')"
    using executed [OF ex allocated(2) [OF al n32]] by blast
  have w: "mtl_get32be (mem (MFB_ADDRESS a)) (k * 4) =
      (case switch_source ?streams (word_of_nat k) of None \<Rightarrow> 0x80000000 | Some s \<Rightarrow> ucast s)" if "k < 8" for k
  proof -
    have "mtl_get32be (mem (MFB_ADDRESS a)) (k * 4) = ?ws ! k" using streams_job_words [OF m(1) _ that] by simp
    also have "\<dots> = (case switch_source ?streams (word_of_nat k) of
        None \<Rightarrow> replicate 8 0x80000000 ! k | Some s \<Rightarrow> ucast s)"
      unfolding switch_source_def by (rule switch_words_nth) (use assms(2,3) that in auto)
    also have "replicate 8 (0x80000000 :: u32) ! k = 0x80000000" using that by simp
    finally show ?thesis .
  qed
  have "map (\<lambda>k. switch_set_mapping SwitchBaseAddr (mtl_get32be (mem (MFB_ADDRESS a)) (k * 4)) (word_of_nat k))
      [0, 1, 2, 3, 4, 5, 6, 7] @ [switch_commit SwitchBaseAddr] = routing ?streams"
    unfolding routing_def
  proof (rule arg_cong2 [of _ _ _ _ "(@)", OF map_cong [OF refl] refl])
    fix k :: nat assume "k \<in> set [0, 1, 2, 3, 4, 5, 6, 7]"
    then have "k < 8" by auto
    then show "switch_set_mapping SwitchBaseAddr (mtl_get32be (mem (MFB_ADDRESS a)) (k * 4)) (word_of_nat k) =
        (SwitchBaseAddr + AXI_STREAM_SWITCH_MAPPING_CONFIG_OFFSET + word_of_nat k,
         case switch_source ?streams (word_of_nat k) of None \<Rightarrow> 0x80000000 | Some s \<Rightarrow> ucast s)"
      unfolding switch_set_mapping_def by (simp only: w)
  qed
  then have "fp c' = reg_out (routing ?streams) ((fp c)\<lparr>f_mem := mem\<rparr>)"
    using m(2) allocated(4) [OF al n32]
    by (simp add: process_action_def action_configure_streams_def Let_def)
  then show ?thesis using p' by (simp add: reg_out_def)
qed

end

lemma switch_source_chain:
  assumes "distinct (streams @ [IOStreamID])"
  shows "i < length streams \<Longrightarrow> switch_source streams (streams ! i) = Some ((IOStreamID # streams) ! i)"
    and "switch_source streams IOStreamID = Some (last (IOStreamID # streams))"
proof -
  have z: "switch_source streams ((streams @ [IOStreamID]) ! i) = Some ((IOStreamID # streams) ! i)"
    if "i \<le> length streams" for i
    unfolding switch_source_def
    by (rule map_of_is_SomeI) (use assms that in \<open>auto simp: set_zip\<close>)
  show "i < length streams \<Longrightarrow> switch_source streams (streams ! i) = Some ((IOStreamID # streams) ! i)"
    using z [of i] by (simp add: nth_append)
  have "(IOStreamID # streams) ! length streams = last (IOStreamID # streams)"
    by (cases streams rule: rev_cases) (simp_all add: nth_Cons nth_append)
  then show "switch_source streams IOStreamID = Some (last (IOStreamID # streams))"
    using z [of "length streams"] by (simp only: nth_append_length le_refl)
qed

text \<open>
  C9: the job that \<open>configureSwitch\<close> prepares makes the FPGA route the data through the operators in
  their order.  The registers of the stream switch are written once for every output and then
  committed: the input of every operator is the stream of the operator before it, the first one gets
  the data source, the data sink gets the last one, and all other outputs are disabled.
\<close>

theorem switch_follows_pipeline:
  assumes "snap_card S fp nvme indeterminate" "configureSwitch S cached p c = Some (Inr p', c')"
    and "distinct (map stream_of (operators p) @ [IOStreamID])" "\<forall>oc \<in> set (operators p). unat (stream_of oc) < 8"
  defines "streams \<equiv> map stream_of (operators p)"
  shows "f_writes (fp c') = f_writes (fp c) @ routing streams \<and> p' = p\<lparr>cachedSwitchConfiguration := cached\<rparr> \<and>
    (\<forall>i < length streams. switch_source streams (streams ! i) = Some ((IOStreamID # streams) ! i)) \<and>
    switch_source streams IOStreamID = Some (last (IOStreamID # streams)) \<and>
    (\<forall>s. s \<noteq> IOStreamID \<longrightarrow> s \<notin> set streams \<longrightarrow> switch_source streams s = None)"
proof -
  have "switch_source streams s = None" if "s \<noteq> IOStreamID" "s \<notin> set streams" for s
    unfolding switch_source_def map_of_eq_None_iff using that by (auto dest!: set_zip_leftD)
  then show ?thesis
    using snap_card.configureSwitch_routes [OF assms(1-4)] switch_source_chain [OF assms(3)]
    unfolding streams_def by blast
qed

definition ex_pipeline :: Pipeline where
  "ex_pipeline = new_Pipeline [new_Operator (ex_spec\<lparr>streamID := 3\<rparr>), new_Operator (ex_spec\<lparr>streamID := 1\<rparr>)]"

lemma ex_streams: "map stream_of (operators ex_pipeline) = [3, 1]"
  by (simp add: ex_pipeline_def new_Pipeline_def stream_of_def new_OperatorContext_def new_Operator_def)

theorem switch_follows_pipeline_witness:
  "\<exists>p' c'. configureSwitch (fpga_lib False 0) True ex_pipeline idle_fpga = Some (Inr p', c') \<and>
     f_writes c' = f_writes idle_fpga @ routing [3, 1] \<and> switch_source [3, 1] 1 = Some 3"
proof -
  have d: "distinct (map stream_of (operators ex_pipeline) @ [IOStreamID])"
    "\<forall>oc \<in> set (operators ex_pipeline). unat (stream_of oc) < 8"
    unfolding ex_streams by (simp_all add: ex_pipeline_def new_Pipeline_def stream_of_def new_OperatorContext_def new_Operator_def)
  then have nb: "\<not> (\<exists>oc \<in> set (operators ex_pipeline). 8 \<le> unat (stream_of oc))" by force
  obtain p' c' where r: "configureSwitch (fpga_lib False 0) True ex_pipeline idle_fpga = Some (Inr p', c')"
    using nb by (simp add: configureSwitch_def allocateMemory_def executeJob_def fpga_lib_def and_then_def rethrow_def
        on_exception_def hls_action_def process_action_def action_configure_streams_def Let_def)
  note t = switch_follows_pipeline [OF fcard.snap_card_axioms r d, unfolded ex_streams]
  then have "switch_source [3, 1] 1 = Some 3" by (auto dest: spec [of _ 1])
  with r t show ?thesis by auto
qed

section \<open>Mapping extents\<close>

text \<open>The map of the FPGA that a slot names.\<close>

fun slot_map :: "ExtmapSlot \<Rightarrow> fpga \<Rightarrow> mtl_extmap" where
  "slot_map CardDRAMRead s = r_dram_map (f_read s)"
| "slot_map CardDRAMWrite s = w_dram_map (f_write s)"
| "slot_map NVMeRead s = r_nvme_map (f_read s)"
| "slot_map NVMeWrite s = w_nvme_map (f_write s)"

text \<open>The extents of a job as bytes: two big-endian words each, zeros behind the last one.\<close>

definition extent_bytes :: "mtl_file_extent list \<Rightarrow> nat \<Rightarrow> bytes" where
  "extent_bytes fes i =
     (if i < length fes then htobe64 (fe_offset (fes ! i)) @ htobe64 (fe_length (fes ! i)) else replicate 16 0)"

lemma le_bytes_0: "le_bytes n 0 = replicate n 0"
  by (induction n) simp_all

lemma htobe64_0: "htobe64 0 = replicate 8 0"
  by (simp only: htobe64_def enc64_def unsigned_0 le_bytes_0 rev_replicate)

lemma extent_bytes_words:
  "take 8 (extent_bytes fes i) = htobe64 (nth_or0 (map fe_offset fes) i)"
  "take 8 (drop 8 (extent_bytes fes i)) = htobe64 (nth_or0 (map fe_length fes) i)"
  "length (extent_bytes fes i) = 16"
  by (simp_all add: extent_bytes_def nth_or0_def htobe64_0)

lemma MFB_ADDRESS_add:
  assumes "unat a + 64 * q < 2 ^ 64"
  shows "MFB_ADDRESS (a + word_of_nat (64 * q)) = MFB_ADDRESS a + word_of_nat q"
proof -
  have u: "unat (word_of_nat (64 * q) :: u64) = 64 * q" "unat (word_of_nat q :: u64) = q"
    using assms by (simp_all add: unat_of_nat del: of_nat_mult)
  have d: "unat (drop_bit 6 (x :: u64)) = unat x div 64" for x
    using unsigned_less [of x] by (simp add: unsigned_drop_bit_eq drop_bit_nat_def take_bit_nat_eq_self)
  have s: "unat (a + word_of_nat (64 * q)) = unat a + 64 * q"
    using assms u(1) by (subst unat_add_exact) simp_all
  have "unat a div 64 + q < 2 ^ 64" using assms by linarith
  then have "unat (drop_bit 6 a + word_of_nat q :: u64) = unat a div 64 + q"
    using u(2) d [of a] by (subst unat_add_exact) simp_all
  then show ?thesis
    unfolding MFB_ADDRESS_def word_eq_unat d s by simp
qed

text \<open>A memory that holds the job holds the extents where \<open>mtl_extmap_load\<close> looks for them.\<close>

lemma map_job_extents:
  assumes h: "holds mem a (pre @ concat (map (extent_bytes fes) [0..<512]))" and "length pre = 64"
    and "unat a + 8256 < 2 ^ 64"
  shows "ext_mem mem (a + 64) fes"
  unfolding ext_mem_def
proof (intro allI impI)
  fix i :: nat assume "i < MaxExtentsPerFile"
  then have i: "i < 512" by simp
  let ?bs = "pre @ concat (map (extent_bytes fes) [0..<512])"
  let ?q = "Suc (i div 4)" and ?r = "16 * (i mod 4)"
  have arith: "64 * Suc d + 16 * m = 64 + 16 * (4 * d + m)" for d m by simp
  have pos: "64 * ?q + ?r = 64 + 16 * i" unfolding arith mult_div_mod_eq ..
  have l: "\<forall>x \<in> set (map (extent_bytes fes) [0..<512]). length x = 16" by (simp add: extent_bytes_words(3))
  have len: "length ?bs = 64 + 16 * 512" using assms(2) length_concat_const [OF l] by simp
  have e: "take 16 (drop (64 + 16 * i) ?bs) = extent_bytes fes i"
    using take_drop_concat [OF l, of i] i assms(2) by simp
  have g: "take 8 (take 16 xs) = take 8 xs" "take 8 (drop 8 (take 16 xs)) = take 8 (drop 8 xs)" for xs :: bytes
    by (simp_all add: drop_take)
  have w1: "take 8 (drop (64 * ?q + ?r) ?bs) = take 8 (extent_bytes fes i)"
    unfolding pos e [symmetric] g ..
  have pos8: "64 * ?q + (?r + 8) = 8 + (64 + 16 * i)" using pos by linarith
  have w2: "take 8 (drop (64 * ?q + (?r + 8)) ?bs) = take 8 (drop 8 (extent_bytes fes i))"
    unfolding e [symmetric] g pos8 drop_drop ..
  have a: "MFB_ADDRESS (a + 64 + word_of_nat (64 * (i div 4))) = MFB_ADDRESS a + word_of_nat ?q"
    using MFB_ADDRESS_add [of a ?q] assms(3) i by (simp add: algebra_simps)
  have b: "64 * ?q + ?r + 8 \<le> length ?bs" "64 * ?q + (?r + 8) + 8 \<le> length ?bs" "?r + 8 \<le> 64" "?r + 8 + 8 \<le> 64"
    using i len pos by auto
  show "ext_word mem (a + 64) i 0 = nth_or0 (map fe_offset fes) i \<and>
      ext_word mem (a + 64) i 8 = nth_or0 (map fe_length fes) i"
    unfolding ext_word_def a
    using holds_get64 [OF h b(1,3) w1 [unfolded extent_bytes_words]]
      holds_get64 [OF h b(2,4) w2 [unfolded extent_bytes_words]] by simp
qed

definition map_job :: "ExtmapSlot \<Rightarrow> mtl_file_extent list \<Rightarrow> bytes \<Rightarrow> bytes" where
  "map_job slot fes job_struct =
     (htobe64 (slot_code slot) @ take 56 (drop 8 job_struct)) @ concat (map (extent_bytes fes) [0..<512])"

lemma all_slots: "(\<forall>t. P t) \<longleftrightarrow> P CardDRAMRead \<and> P CardDRAMWrite \<and> P NVMeRead \<and> P NVMeWrite"
  by (metis ExtmapSlot.exhaust)

lemma action_map_maps:
  assumes "action_map nvme a s = (SNAP_RETC_SUCCESS, s')" "maps_sized s" "length bs = 8256"
    and h: "holds (f_mem s) a (map_job slot fes bs)" and "unat a + 8256 < 2 ^ 64"
  shows "maps_sized s' \<and> extmap_ok (slot_map slot s') fes \<and>
    (\<forall>t. t \<noteq> slot \<longrightarrow> slot_map t s' = slot_map t s)"
proof -
  let ?pre = "htobe64 (slot_code slot) @ take 56 (drop 8 bs)"
  have pre: "length ?pre = 64" using assms(3) by simp
  note hh = h [unfolded map_job_def]
  have ext: "ext_mem (f_mem s) (a + MFB_INCREMENT) fes" using map_job_extents [OF hh pre assms(5)] by simp
  have "mtl_get64be (f_mem s (MFB_ADDRESS a + word_of_nat 0)) 0 = slot_code slot"
    by (rule holds_get64 [OF hh]) simp_all
  then have slot: "slot_of_code (mtl_get64be (f_mem s (MFB_ADDRESS a)) 0) = Some slot" by simp
  have ok: "extmap_sized M \<Longrightarrow> extmap_ok (mtl_extmap_load M (a + MFB_INCREMENT) (f_mem s)) fes" for M
    using mtl_extmap_load_ok [OF ext] by blast
  have sized: "maps_sized s'" using action_map_sized [of nvme a s] assms(1,2) by simp
  show ?thesis
    using assms(1,2) sized slot ok unfolding action_map_def Let_def all_slots
    by (cases slot) (auto simp: maps_sized_def split: if_splits)
qed

context snap_card
begin

lemma map_job_maps:
  assumes "allocateMemory S 8256 c = Some (Inr (a, bs), c1)"
    and "simpleJob S Map (a, map_job slot fes bs) c1 = Some (Inr r, c')" "maps_sized (fp c)"
  shows "maps_sized (fp c') \<and> extmap_ok (slot_map slot (fp c')) fes \<and>
    (\<forall>t. t \<noteq> slot \<longrightarrow> slot_map t (fp c') = slot_map t (fp c))"
proof -
  have n: "(8256 :: nat) \<le> 2 ^ 32" by simp
  note al = allocated [OF assms(1) n]
  have "length (concat (map (extent_bytes fes) [0..<512])) = 16 * 512"
    using length_concat_const [of "map (extent_bytes fes) [0..<512]" 16] by (simp add: extent_bytes_words(3))
  then have "length (map_job slot fes bs) \<le> 2 ^ 32" using al(1) by (simp add: map_job_def)
  moreover obtain o0 o1 bs' where r: "r = (o0, o1, bs')" by (cases r)
  ultimately obtain mem job' where m: "holds mem a (map_job slot fes bs)"
      "process_action nvme indeterminate \<lparr>job_address = a, job_type = Some Map, j_source = no_address,
        j_destination = no_address, direct_data = [0, 0, 0, 0]\<rparr> ((fp c1)\<lparr>f_mem := mem\<rparr>) =
      Some (SNAP_RETC_SUCCESS, job', fp c')"
    using executed [OF assms(2) [unfolded r] al(2)] by blast
  obtain rc s' where a: "action_map nvme a ((fp c1)\<lparr>f_mem := mem\<rparr>) = (rc, s')"
    by (cases "action_map nvme a ((fp c1)\<lparr>f_mem := mem\<rparr>)")
  then have "rc = SNAP_RETC_SUCCESS" "s' = fp c'" using m(2) by (simp_all add: process_action_def)
  moreover have "slot_map t ((fp c)\<lparr>f_mem := mem\<rparr>) = slot_map t (fp c)" for t by (cases t) simp_all
  ultimately show ?thesis
    using action_map_maps [of nvme a "(fp c1)\<lparr>f_mem := mem\<rparr>" s' bs slot fes] a m(1) assms(3) al by simp
qed

end

end
