(* ===== verification/File_Contexts.thy ===== *)
theory File_Contexts
  imports Pipeline_Props Contents
begin

text \<open>
  Files of the card as data sources and sinks of pipelines, and the storage backend built on them
  (\<open>file_data_source_context.cpp\<close>, \<open>file_data_sink_context.cpp\<close>, \<open>metal_pipeline_storage.cpp\<close>).

  The state is the context of the file system, whose storage is the state \<open>'c\<close> of the SNAP library
  together with the DRAM file system that a file system on NVMe has for its page files.
\<close>

section \<open>The library inside a larger state\<close>

definition snap_within :: "('g \<Rightarrow> 'c) \<Rightarrow> ('c \<Rightarrow> 'g \<Rightarrow> 'g) \<Rightarrow> 'c snap_lib \<Rightarrow> 'g snap_lib" where
  "snap_within part put S =
     \<lparr>snap_card_alloc_dev = (\<lambda>d g. let (b, c) = snap_card_alloc_dev S d (part g) in (b, put c g)),
      snap_card_free = (\<lambda>g. put (snap_card_free S (part g)) g),
      snap_attach_action = (\<lambda>t g. let (b, c) = snap_attach_action S t (part g) in (b, put c g)),
      snap_detach_action = (\<lambda>g. put (snap_detach_action S (part g)) g),
      snap_malloc = (\<lambda>n g. let (a, bs, c) = snap_malloc S n (part g) in (a, bs, put c g)),
      snap_action_sync_execute_job = (\<lambda>job bs g.
        let (rc, retc, job, bs, c) = snap_action_sync_execute_job S job bs (part g)
        in (rc, retc, job, bs, put c g))\<rparr>"

lemma snap_within_card:
  assumes "snap_card S fp nvme indeterminate" "\<And>c g. part (put c g) = c"
  shows "snap_card (snap_within part put S) (\<lambda>g. fp (part g)) nvme indeterminate"
proof (rule snap_card.intro)
  fix n g a bs g'
  assume "snap_malloc (snap_within part put S) n g = (a, bs, g')" "n \<le> 2 ^ 32"
  then show "length bs = n \<and> 64 dvd unat a \<and> unat a + n < 2 ^ 64 \<and> fp (part g') = fp (part g)"
    using snap_card.malloc [OF assms(1), of n "part g"] assms(2)
    by (auto simp: snap_within_def split: prod.splits)
next
  fix job bs g retc job' bs' g'
  assume e: "snap_action_sync_execute_job (snap_within part put S) job bs g = (SNAP_OK, retc, job', bs', g')"
    and a: "64 dvd unat (job_address job)" "length bs \<le> 2 ^ 32"
  obtain c' where c: "snap_action_sync_execute_job S job bs (part g) = (SNAP_OK, retc, job', bs', c')" "g' = put c' g"
    using e by (auto simp: snap_within_def split: prod.splits)
  show "\<exists>mem s. holds mem (job_address job) bs \<and>
      hls_action nvme indeterminate 1 job ((fp (part g))\<lparr>f_mem := mem\<rparr>) = Some (retc, None, job', s) \<and>
      fp (part g') = s \<and> length bs' = length bs \<and> holds (f_mem s) (job_address job) bs'"
    using snap_card.exec [OF assms(1) c(1) a] assms(2) c(2) by simp
qed

section \<open>State\<close>

record PipelineStorage =
  ps_card :: int
  ps_type :: AddressType
  ps_map :: MapType

record ('t, 'c) card_storage =
  snap_state :: 'c
  dramPipelineStorage :: "('t, unit) mtl_context option"

type_synonym ('t, 'c) card_ctx = "('t, ('t, 'c) card_storage) mtl_context"

definition fs_lib :: "'c snap_lib \<Rightarrow> ('t, 'c) card_ctx snap_lib" where
  "fs_lib S = snap_within (\<lambda>ctx. snap_state (storage ctx))
     (\<lambda>c ctx. ctx\<lparr>storage := (storage ctx)\<lparr>snap_state := c\<rparr>\<rparr>) S"

definition PagefileReadPath :: bytes where "PagefileReadPath = cstr ''/.pagefile_read''"
definition PagefileWritePath :: bytes where "PagefileWritePath = cstr ''/.pagefile_write''"

section \<open>Extents\<close>

definition mapExtents :: "'c snap_lib \<Rightarrow> ExtmapSlot \<Rightarrow> mtl_file_extent list \<Rightarrow> ('c, unit) act" where
  "mapExtents S slot extents =
     and_then (allocateMemory S (8 * (8 + 2 * MaxExtentsPerFile))) (\<lambda>(a, job_struct).
     and_then (rethrow (simpleJob S Map (a, map_job slot extents job_struct))) (\<lambda>_. ret ()))"

text \<open>The extents of a page file of the DRAM file system.\<close>

definition pagefile_extents ::
  "'t mdb_ops \<Rightarrow> bytes \<Rightarrow> ('t, unit) mtl_context option \<Rightarrow> (string + mtl_file_extent list) option" where
  "pagefile_extents L path dramFilesystem =
     (case dramFilesystem of
        None \<Rightarrow> Some (Inl ''A DRAM filesystem must be provided.'')
      | Some dram \<Rightarrow> do {
          (res, pagefileInode) \<leftarrow> mtl_open L dram path;
          if res \<noteq> MTL_SUCCESS then Some (Inl ''Pagefile does not exist.'')
          else do {
            pagefileInode \<leftarrow> pagefileInode;
            case mtl_load_extent_list L dram pagefileInode of
              (res, loaded) \<Rightarrow>
                if res \<noteq> MTL_SUCCESS then Some (Inl ''Unable to load pagefile extents.'')
                else do { (pagefileExtents, _) \<leftarrow> loaded; Some (Inr pagefileExtents) }
          }
        })"

text \<open>The switch on the map type that source and sink share, for their two slots and page file.\<close>

definition map_file ::
  "'t mdb_ops \<Rightarrow> 'c snap_lib \<Rightarrow> ExtmapSlot \<Rightarrow> ExtmapSlot \<Rightarrow> bytes \<Rightarrow> MapType \<Rightarrow> mtl_file_extent list \<Rightarrow>
     (('t, 'c) card_ctx, unit) act" where
  "map_file L S dramSlot nvmeSlot path m extents ctx =
     (case m of
        MapDRAMAndNVMe \<Rightarrow>
          (case pagefile_extents L path (dramPipelineStorage (storage ctx)) of
             None \<Rightarrow> None
           | Some (Inl e) \<Rightarrow> throw e ctx
           | Some (Inr pagefileExtents) \<Rightarrow>
               and_then (mapExtents (fs_lib S) dramSlot pagefileExtents) (\<lambda>_.
                 mapExtents (fs_lib S) nvmeSlot extents) ctx)
      | MapDRAM \<Rightarrow> mapExtents (fs_lib S) dramSlot extents ctx
      | MapNVMe \<Rightarrow> mapExtents (fs_lib S) nvmeSlot extents ctx
      | MapNone \<Rightarrow> ret () ctx)"

section \<open>File as data source\<close>

record FileDataSourceContext = DefaultSource +
  f_inode_id :: u64
  f_fileLength :: u64
  f_extents :: "mtl_file_extent list"

text \<open>
  \<open>filesystem\<close> is \<^term>\<open>None\<close> for a null pointer, \<open>junk\<close> the value of \<open>_fileLength\<close> where the
  constructor leaves it unwritten.
\<close>

definition new_FileDataSourceContext ::
  "'t mdb_ops \<Rightarrow> u64 \<Rightarrow> PipelineStorage option \<Rightarrow> u64 \<Rightarrow> u64 \<Rightarrow> u64 \<Rightarrow>
     (('t, 'c) card_ctx, FileDataSourceContext) act" where
  "new_FileDataSourceContext L junk filesystem inode_id offset sz ctx =
     (let dataSource = \<lparr>ds_address = offset, ds_size = sz,
            ds_addressType = (case filesystem of None \<Rightarrow> Host | Some fs \<Rightarrow> ps_type fs),
            ds_mapType = (case filesystem of None \<Rightarrow> MapNone | Some fs \<Rightarrow> ps_map fs)\<rparr>
      in if inode_id = 0
         then ret \<lparr>s_dataSource = dataSource, s_profilingEnabled = False, s_profilingResults = [],
                    f_inode_id = 0, f_fileLength = junk, f_extents = []\<rparr> ctx
         else if filesystem = None then None
         else case mtl_load_extent_list L ctx inode_id of
                (res, loaded) \<Rightarrow>
                  if res \<noteq> MTL_SUCCESS then throw ''Unable to load extents'' ctx
                  else do {
                    (extents, fileLength) \<leftarrow> loaded;
                    ret \<lparr>s_dataSource = withSize (min (offset + sz) fileLength - offset) dataSource,
                         s_profilingEnabled = False, s_profilingResults = [],
                         f_inode_id = inode_id, f_fileLength = fileLength, f_extents = extents\<rparr> ctx
                  })"

definition source_configure ::
  "'t mdb_ops \<Rightarrow> 'c snap_lib \<Rightarrow> FileDataSourceContext \<Rightarrow> (('t, 'c) card_ctx, FileDataSourceContext) act" where
  "source_configure L S x =
     (if f_extents x = [] then throw ''Extents were not initialized''
      else and_then (map_file L S CardDRAMRead NVMeRead PagefileReadPath
                       (a_map (address (s_dataSource x))) (f_extents x)) (\<lambda>_. ret x))"

definition source_finalize :: "FileDataSourceContext \<Rightarrow> FileDataSourceContext" where
  "source_finalize x =
     (let a = address (s_dataSource x)
      in x\<lparr>s_dataSource := \<lparr>ds_address = a_addr a + ucast (a_size a), ds_size = ucast (a_size a),
             ds_addressType = a_type a, ds_mapType = a_map a\<rparr>\<rparr>)"

definition source_endOfInput :: "FileDataSourceContext \<Rightarrow> bool" where
  "source_endOfInput x =
     (a_addr (address (s_dataSource x)) + ucast (a_size (address (s_dataSource x))) \<ge> f_fileLength x)"

text \<open>
  The object as the runner sees it: \<open>reportTotalSize\<close> of the class is not \<open>const\<close> and so does not
  override the function of the base class, which returns 0.
\<close>

definition file_source ::
  "'t mdb_ops \<Rightarrow> 'c snap_lib \<Rightarrow> (('t, 'c) card_ctx, FileDataSourceContext) DataSourceContext" where
  "file_source L S =
     \<lparr>src_configure = (\<lambda>_. source_configure L S), src_finalize = (\<lambda>_ x. ret (source_finalize x)),
      src_dataSource = (\<lambda>x. ret (s_dataSource x)), src_reportTotalSize = (\<lambda>_. 0), src_endOfInput = source_endOfInput,
      src_profilingEnabled = s_profilingEnabled,
      src_setProfilingResults = (\<lambda>t x. x\<lparr>s_profilingResults := t\<rparr>)\<rparr>"

definition reportTotalSize :: "FileDataSourceContext \<Rightarrow> u64" where
  "reportTotalSize x = f_fileLength x"

section \<open>File as data sink\<close>

record FileDataSinkContext = DefaultSink +
  k_inode_id :: u64
  k_truncateOnFinalize :: bool
  k_extents :: "mtl_file_extent list"
  k_filesystem :: bool \<comment> \<open>is not null\<close>
  k_cachedTotalSize :: u64

definition loadExtents :: "'t mdb_ops \<Rightarrow> FileDataSinkContext \<Rightarrow> (('t, 'c) card_ctx, FileDataSinkContext) act" where
  "loadExtents L y ctx =
     (if \<not> k_filesystem y then None
      else case mtl_load_extent_list L ctx (k_inode_id y) of
             (res, loaded) \<Rightarrow>
               if res \<noteq> MTL_SUCCESS then throw ''Unable to load extents'' ctx
               else do {
                 (extents, fileLength) \<leftarrow> loaded;
                 ret (y\<lparr>k_extents := extents, k_cachedTotalSize := fileLength\<rparr>) ctx
               })"

definition fs_truncate_to :: "'t mdb_ops \<Rightarrow> u64 \<Rightarrow> FileDataSinkContext \<Rightarrow> (('t, 'c) card_ctx, unit) act" where
  "fs_truncate_to L sz y ctx =
     (if \<not> k_filesystem y then None
      else case mtl_truncate L ctx (k_inode_id y) sz of
             None \<Rightarrow> None
           | Some (res, ctx) \<Rightarrow>
               if res \<noteq> MTL_SUCCESS then throw ''Unable to update file length'' ctx else ret () ctx)"

definition prepareForTotalSize ::
  "'t mdb_ops \<Rightarrow> u64 \<Rightarrow> FileDataSinkContext \<Rightarrow> (('t, 'c) card_ctx, FileDataSinkContext) act" where
  "prepareForTotalSize L sz y =
     (if sz \<le> k_cachedTotalSize y then ret y
      else and_then (fs_truncate_to L sz y) (\<lambda>_. loadExtents L y))"

definition new_FileDataSinkContext ::
  "'t mdb_ops \<Rightarrow> PipelineStorage option \<Rightarrow> u64 \<Rightarrow> u64 \<Rightarrow> u64 \<Rightarrow> bool \<Rightarrow>
     (('t, 'c) card_ctx, FileDataSinkContext) act" where
  "new_FileDataSinkContext L filesystem inode_id offset sz truncateOnFinalize =
     (let y = \<lparr>k_dataSink = \<lparr>ds_address = offset, ds_size = sz,
                 ds_addressType = (case filesystem of None \<Rightarrow> Host | Some fs \<Rightarrow> ps_type fs),
                 ds_mapType = (case filesystem of None \<Rightarrow> MapNone | Some fs \<Rightarrow> ps_map fs)\<rparr>,
               k_profilingEnabled = False, k_profilingResults = [],
               k_inode_id = inode_id, k_truncateOnFinalize = truncateOnFinalize, k_extents = [],
               k_filesystem = (filesystem \<noteq> None), k_cachedTotalSize = 0\<rparr>
      in if inode_id = 0 then ret y
         else and_then (loadExtents L y) (prepareForTotalSize L (offset + sz)))"

definition sink_configure ::
  "'t mdb_ops \<Rightarrow> 'c snap_lib \<Rightarrow> u64 \<Rightarrow> FileDataSinkContext \<Rightarrow> (('t, 'c) card_ctx, FileDataSinkContext) act" where
  "sink_configure L S inputSize y =
     (let y = y\<lparr>k_dataSink := withSize inputSize (k_dataSink y)\<rparr>;
          a = address (k_dataSink y);
          end = a_addr a + ucast (a_size a)
      in and_then (if end > k_cachedTotalSize y then prepareForTotalSize L end y else ret y) (\<lambda>y.
         and_then (map_file L S CardDRAMWrite NVMeWrite PagefileWritePath
                     (a_map (address (k_dataSink y))) (k_extents y)) (\<lambda>_. ret y)))"

definition sink_finalize ::
  "'t mdb_ops \<Rightarrow> u64 \<Rightarrow> bool \<Rightarrow> FileDataSinkContext \<Rightarrow> (('t, 'c) card_ctx, FileDataSinkContext) act" where
  "sink_finalize L outputSize endOfInput y =
     (let a = address (k_dataSink y);
          y = y\<lparr>k_dataSink := \<lparr>ds_address = a_addr a + outputSize, ds_size = ucast (a_size a),
                 ds_addressType = a_type a, ds_mapType = a_map a\<rparr>\<rparr>
      in if endOfInput \<and> k_inode_id y \<noteq> 0 \<and> k_truncateOnFinalize y
         then and_then (fs_truncate_to L (a_addr (address (k_dataSink y))) y) (\<lambda>_. ret y)
         else ret y)"

definition file_sink ::
  "'t mdb_ops \<Rightarrow> 'c snap_lib \<Rightarrow> (('t, 'c) card_ctx, FileDataSinkContext) DataSinkContext" where
  "file_sink L S =
     \<lparr>snk_configure = (\<lambda>sz _. sink_configure L S sz), snk_finalize = (\<lambda>_. sink_finalize L),
      snk_prepareForTotalSize = prepareForTotalSize L, snk_dataSink = (\<lambda>y. ret (k_dataSink y)),
      snk_profilingEnabled = k_profilingEnabled,
      snk_setProfilingResults = (\<lambda>t y. y\<lparr>k_profilingResults := t\<rparr>)\<rparr>"

section \<open>The card as storage backend\<close>

text \<open>
  \<open>buffer\<close> is the address of the buffer in the memory of the host; \<open>poke\<close> and \<open>peek\<close> write and read
  this memory.  An exception in the constructor of a file context is thrown outside the \<open>try\<close> block
  and leaves the C code that called: \<^term>\<open>None\<close>.
\<close>

definition storage_read ::
  "'t mdb_ops \<Rightarrow> 'c snap_lib \<Rightarrow> (u64 \<Rightarrow> nat \<Rightarrow> 'c \<Rightarrow> bytes) \<Rightarrow> PipelineStorage \<Rightarrow> u64 \<Rightarrow> ('t, 'c) card_ctx \<Rightarrow>
     u64 \<Rightarrow> u64 \<Rightarrow> u64 \<Rightarrow> (int \<times> bytes \<times> ('t, 'c) card_storage) option" where
  "storage_read L S peek ps buffer ctx inode_id offset len =
     (case new_FileDataSourceContext L 0 (Some ps) inode_id offset len ctx of
        Some (Inr source, ctx) \<Rightarrow>
          let sink = new_DefaultSink \<lparr>ds_address = buffer, ds_size = len, ds_addressType = Host, ds_mapType = MapNone\<rparr>;
              runner = new_Runner False (ps_card ps) (new_Pipeline [])
          in (case Runner_run (fs_lib S) (\<lambda>_ _ _. []) (file_source L S) DefaultDataSinkContext source sink runner ctx of
                None \<Rightarrow> None
              | Some (r, ctx) \<Rightarrow>
                  Some (case r of Inl _ \<Rightarrow> MTL_ERROR_INVALID_ARGUMENT | Inr _ \<Rightarrow> MTL_SUCCESS,
                        peek buffer (unat len) (snap_state (storage ctx)), storage ctx))
      | _ \<Rightarrow> None)"

definition storage_write ::
  "'t mdb_ops \<Rightarrow> 'c snap_lib \<Rightarrow> (u64 \<Rightarrow> bytes \<Rightarrow> 'c \<Rightarrow> 'c) \<Rightarrow> PipelineStorage \<Rightarrow> u64 \<Rightarrow> ('t, 'c) card_ctx \<Rightarrow>
     u64 \<Rightarrow> u64 \<Rightarrow> bytes \<Rightarrow> (int \<times> ('t, 'c) card_ctx) option" where
  "storage_write L S poke ps buffer ctx inode_id offset data =
     (let len = word_of_nat (length data);
          ctx = ctx\<lparr>storage := (storage ctx)\<lparr>snap_state := poke buffer data (snap_state (storage ctx))\<rparr>\<rparr>;
          source = new_DefaultSource \<lparr>ds_address = buffer, ds_size = len, ds_addressType = Host, ds_mapType = MapNone\<rparr>
      in case new_FileDataSinkContext L (Some ps) inode_id offset len False ctx of
           Some (Inr sink, ctx) \<Rightarrow>
             let runner = new_Runner False (ps_card ps) (new_Pipeline [])
             in (case Runner_run (fs_lib S) (\<lambda>_ _ _. []) DefaultDataSourceContext (file_sink L S) source sink runner ctx of
                   None \<Rightarrow> None
                 | Some (r, ctx) \<Rightarrow>
                     Some (case r of Inl _ \<Rightarrow> MTL_ERROR_INVALID_ARGUMENT | Inr _ \<Rightarrow> MTL_SUCCESS, ctx))
         | _ \<Rightarrow> None)"

definition storage_get_metadata :: "('t, 'c) card_storage \<Rightarrow> int \<times> mtl_storage_metadata" where
  "storage_get_metadata s = (MTL_SUCCESS, \<lparr>mtl_storage_metadata.num_blocks = 64 * 1024 * 1024, block_size = StorageBlockSize\<rparr>)"

definition card_backend ::
  "'t mdb_ops \<Rightarrow> 'c snap_lib \<Rightarrow> (u64 \<Rightarrow> nat \<Rightarrow> 'c \<Rightarrow> bytes) \<Rightarrow> (u64 \<Rightarrow> bytes \<Rightarrow> 'c \<Rightarrow> 'c) \<Rightarrow> PipelineStorage \<Rightarrow> u64 \<Rightarrow>
     ('t, ('t, 'c) card_storage) mtl_storage_backend" where
  "card_backend L S peek poke ps buffer =
     \<lparr>sb_initialize = (\<lambda>s. (MTL_SUCCESS, s)), sb_deinitialize = (\<lambda>s. (MTL_SUCCESS, s)),
      sb_get_metadata = storage_get_metadata, sb_write = storage_write L S poke ps buffer,
      sb_read = storage_read L S peek ps buffer\<rparr>"

definition createDramPagefile :: "'t mdb_ops \<Rightarrow> u32 \<Rightarrow> bytes \<Rightarrow> (('t, unit) mtl_context, unit) act" where
  "createDramPagefile L now pagefilePath dram =
     (case mtl_open L dram pagefilePath of
        None \<Rightarrow> None
      | Some (res, pagefile_inode) \<Rightarrow>
          let resize = (\<lambda>i dram.
                case mtl_truncate L dram i PagefileSize of
                  None \<Rightarrow> None
                | Some (res, dram) \<Rightarrow>
                    if res \<noteq> MTL_SUCCESS then throw ''Could not resize pagefile.'' dram else ret () dram)
          in if res = MTL_ERROR_NOENTRY then
               (case mtl_create L now dram pagefilePath 0 of
                  None \<Rightarrow> None
                | Some (res, created, dram) \<Rightarrow>
                    if res \<noteq> MTL_SUCCESS then throw ''Could not create pagefile.'' dram
                    else do { i \<leftarrow> created; resize i dram })
             else if res \<noteq> MTL_SUCCESS then throw ''Could not open pagefile.'' dram
             else do { i \<leftarrow> pagefile_inode; resize i dram })"

text \<open>
  The constructor: the result of \<open>mtl_initialize\<close> is not looked at, so that the context may be null.
\<close>

definition new_PipelineStorage ::
  "'t mdb_ops \<Rightarrow> 'c snap_lib \<Rightarrow> (u64 \<Rightarrow> nat \<Rightarrow> 'c \<Rightarrow> bytes) \<Rightarrow> (u64 \<Rightarrow> bytes \<Rightarrow> 'c \<Rightarrow> 'c) \<Rightarrow> PipelineStorage \<Rightarrow> u64 \<Rightarrow>
   u32 \<Rightarrow> 't mdb_env option \<Rightarrow> 'c \<Rightarrow> ('t, unit) mtl_context option \<Rightarrow>
     ((string + ('t, 'c) card_ctx option) \<times> ('t, unit) mtl_context option) option" where
  "new_PipelineStorage L S peek poke ps buffer now store c dram = do {
     (_, ctx) \<leftarrow> mtl_initialize L (card_backend L S peek poke ps buffer) now store
                   \<lparr>snap_state = c, dramPipelineStorage = dram\<rparr>;
     if ps_map ps \<noteq> MapDRAMAndNVMe then Some (Inr ctx, dram)
     else case dram of
            None \<Rightarrow> Some (Inl ''A DRAM filesystem must be provided.'', dram)
          | Some d \<Rightarrow> do {
              (r, d) \<leftarrow> and_then (createDramPagefile L now PagefileReadPath) (\<lambda>_.
                          createDramPagefile L now PagefileWritePath) d;
              case r of
                Inl e \<Rightarrow> Some (Inl e, Some d)
              | Inr _ \<Rightarrow> Some (Inr (map_option (\<lambda>ctx. ctx\<lparr>storage := (storage ctx)\<lparr>dramPipelineStorage := Some d\<rparr>\<rparr>) ctx),
                               Some d)
            }
   }"

end
