(* ===== verification/Agents.thy ===== *)
theory Agents
  imports File_Contexts "HOL-Library.Sublist"
begin

text \<open>
  The driver's server for operator processes (\<open>operator_agent.cpp\<close>, \<open>agent_pool.cpp\<close>, \<open>server.cpp\<close>,
  \<open>buffer.hpp\<close>).  Every started operator connects as an agent and says which process feeds it and
  which one it feeds; once the agents that are connected form a chain, the pipeline is run.

  Agents are shared objects: the list \<open>agents\<close> holds all of them, and a pointer is an index.  Messages
  that a process will send are the list \<open>inbox\<close>, those sent to it are recorded.
\<close>

section \<open>Messages and buffers\<close>

record RegistrationRequest =
  rq_pid :: u64
  rq_cwd :: bytes
  rq_mountpoint :: bytes
  rq_operator_type :: string
  rq_input_pid :: u64
  rq_output_pid :: u64
  rq_args :: "string list"
  rq_input_filename :: "bytes option"
  rq_output_filename :: "bytes option"

record RegistrationResponse =
  rs_error_msg :: "string option"
  rs_valid :: bool
  rs_input_buffer_filename :: "bytes option"
  rs_output_buffer_filename :: "bytes option"
  rs_agent_read_filename :: "bytes option"

record ProcessingResponse =
  pr_size :: "u64 option"
  pr_eof :: bool
  pr_message :: "string option"

definition BufferSize :: u64 where [simp]: "BufferSize = 64 * 1024 * 1024"

text \<open>
  A shared buffer: its file and the address where its two halves are mapped.  The calls of the
  operating system are arguments, over a state \<open>'c\<close> of the machine.
\<close>

record buffer =
  b_filename :: bytes
  b_file :: int
  b_base :: u64
  b_current :: bool

record 'c os_lib =
  os_mkstemp :: "bytes \<Rightarrow> 'c \<Rightarrow> int \<times> bytes \<times> 'c"
  os_open :: "bytes \<Rightarrow> bool \<Rightarrow> 'c \<Rightarrow> int \<times> 'c"
  os_ftruncate :: "int \<Rightarrow> u64 \<Rightarrow> 'c \<Rightarrow> int \<times> 'c"
  os_mmap :: "u64 \<Rightarrow> bool \<Rightarrow> int \<Rightarrow> 'c \<Rightarrow> u64 option \<times> 'c"
  os_munmap :: "u64 \<Rightarrow> u64 \<Rightarrow> 'c \<Rightarrow> 'c"
  os_close :: "int \<Rightarrow> 'c \<Rightarrow> 'c"
  os_realpath :: "bytes \<Rightarrow> 'c \<Rightarrow> bytes option"
  os_read_file :: "bytes \<Rightarrow> nat \<Rightarrow> 'c \<Rightarrow> bytes option"

definition map_buffer :: "'c os_lib \<Rightarrow> bytes \<Rightarrow> int \<Rightarrow> bool \<Rightarrow> ('c, buffer) act" where
  "map_buffer OS filename file is_writable c =
     (case os_mmap OS (2 * BufferSize) is_writable file c of
        (None, c) \<Rightarrow> throw ''Failed to memory-map file'' (os_close OS file c)
      | (Some base, c) \<Rightarrow> ret \<lparr>b_filename = filename, b_file = file, b_base = base, b_current = False\<rparr> c)"

definition createTempFileForSharedBuffer :: "'c os_lib \<Rightarrow> bool \<Rightarrow> ('c, buffer) act" where
  "createTempFileForSharedBuffer OS is_writable c =
     (let (file, output_file_name, c) = os_mkstemp OS (cstr ''/tmp/metal-mmap-XXXXXX'') c;
          (res, c) = os_ftruncate OS file (2 * BufferSize) c
      in if res \<noteq> 0 then throw ''Failed to extend buffer file'' (os_close OS file c)
         else map_buffer OS output_file_name file is_writable c)"

definition mapSharedBuffer :: "'c os_lib \<Rightarrow> bytes \<Rightarrow> bool \<Rightarrow> ('c, buffer) act" where
  "mapSharedBuffer OS file_name is_writable c =
     (let (file, c) = os_open OS file_name is_writable c
      in if file = -1 then throw ''Failed to open file'' c
         else map_buffer OS file_name file is_writable c)"

text \<open>Only half of what was mapped is unmapped.\<close>

definition buffer_destroy :: "'c os_lib \<Rightarrow> buffer \<Rightarrow> 'c \<Rightarrow> 'c" where
  "buffer_destroy OS b c =
     (let c = (if b_base b \<noteq> 0 then os_munmap OS (b_base b) BufferSize c else c)
      in if b_file b \<noteq> 0 then os_close OS (b_file b) c else c)"

definition buffer_current :: "buffer \<Rightarrow> u64" where
  "buffer_current b = b_base b + (if b_current b then BufferSize else 0)"

definition buffer_next :: "buffer \<Rightarrow> u64" where
  "buffer_next b = b_base b + (if b_current b then 0 else BufferSize)"

definition buffer_swap :: "buffer \<Rightarrow> buffer" where
  "buffer_swap b = b\<lparr>b_current := \<not> b_current b\<rparr>"

section \<open>Agents\<close>

record OperatorAgent =
  pid :: u32
  operatorType :: string
  cwd :: bytes
  metalMountpoint :: bytes
  args :: "string list"
  inputAgentPid :: u32
  outputAgentPid :: u32
  outputAgent :: "nat option"
  inputBuffer :: "buffer option"
  outputBuffer :: "buffer option"
  internalInputFilename :: bytes
  internalOutputFilename :: bytes
  internalInputFile :: "u64 \<times> nat option"
  internalOutputFile :: "u64 \<times> nat option"
  agentLoadFile :: bytes
  agent_error :: string
  terminated :: bool
  inbox :: "(u64 \<times> bool) list"
  registration_responses :: "RegistrationResponse list"
  processing_responses :: "ProcessingResponse list"

definition new_OperatorAgent :: "RegistrationRequest \<Rightarrow> (u64 \<times> bool) list \<Rightarrow> OperatorAgent" where
  "new_OperatorAgent request later =
     \<lparr>pid = ucast (rq_pid request), operatorType = rq_operator_type request, cwd = rq_cwd request,
      metalMountpoint = rq_mountpoint request, args = rq_args request,
      inputAgentPid = ucast (rq_input_pid request), outputAgentPid = ucast (rq_output_pid request),
      outputAgent = None, inputBuffer = None, outputBuffer = None,
      internalInputFilename = (case rq_input_filename request of None \<Rightarrow> [] | Some f \<Rightarrow> f),
      internalOutputFilename = (case rq_output_filename request of None \<Rightarrow> [] | Some f \<Rightarrow> f),
      internalInputFile = (0, None), internalOutputFile = (0, None), agentLoadFile = [],
      agent_error = [], terminated = False, inbox = later, registration_responses = [],
      processing_responses = []\<rparr>"

definition isOutputConnectedTo :: "OperatorAgent \<Rightarrow> OperatorAgent \<Rightarrow> bool" where
  "isOutputConnectedTo agent other \<longleftrightarrow> pid other = outputAgentPid agent"

definition isInputAgent :: "OperatorAgent \<Rightarrow> bool" where
  "isInputAgent agent \<longleftrightarrow> inputAgentPid agent = 0"

definition isOutputAgent :: "OperatorAgent \<Rightarrow> bool" where
  "isOutputAgent agent \<longleftrightarrow> outputAgentPid agent = 0"

definition resolvePath :: "bytes \<Rightarrow> OperatorAgent \<Rightarrow> bytes" where
  "resolvePath relativeOrAbsolutePath agent =
     (if relativeOrAbsolutePath = [] then cwd agent
      else if hd relativeOrAbsolutePath = slash then relativeOrAbsolutePath
      else cwd agent @ slash # relativeOrAbsolutePath)"

text \<open>
  A mount is its prefix and, if its handler is a file system on the card, which one; \<open>fss\<close> are the
  contexts of these file systems.
\<close>

definition resolve_file ::
  "'t mdb_ops \<Rightarrow> (bytes \<times> nat option) list \<Rightarrow> (nat \<Rightarrow> ('t, 's) mtl_context) \<Rightarrow> string \<Rightarrow> bytes \<Rightarrow>
     (string + u64 \<times> nat option) option" where
  "resolve_file L mounts fss msg filename =
     (case find (\<lambda>(p, _). prefix p filename) mounts of
        Some (p, Some fs) \<Rightarrow> do {
          (res, inode_id) \<leftarrow> mtl_open L (fss fs) (drop (length p) filename);
          if res \<noteq> MTL_SUCCESS then Some (Inl msg)
          else do { i \<leftarrow> inode_id; Some (Inr (i, Some fs)) }
        }
      | _ \<Rightarrow> Some (Inl msg))"

definition setInternalInputFile ::
  "'t mdb_ops \<Rightarrow> (bytes \<times> nat option) list \<Rightarrow> (nat \<Rightarrow> ('t, 's) mtl_context) \<Rightarrow> bytes \<Rightarrow> OperatorAgent \<Rightarrow>
     (string + OperatorAgent) option" where
  "setInternalInputFile L mounts fss filename agent = do {
     r \<leftarrow> resolve_file L mounts fss ''An invalid input file path was provided.'' filename;
     Some (case r of Inl e \<Rightarrow> Inl e | Inr f \<Rightarrow> Inr (agent\<lparr>internalInputFile := f\<rparr>))
   }"

definition setInternalOutputFile ::
  "'t mdb_ops \<Rightarrow> (bytes \<times> nat option) list \<Rightarrow> (nat \<Rightarrow> ('t, 's) mtl_context) \<Rightarrow> bytes \<Rightarrow> OperatorAgent \<Rightarrow>
     (string + OperatorAgent) option" where
  "setInternalOutputFile L mounts fss filename agent = do {
     r \<leftarrow> resolve_file L mounts fss ''An invalid output file path was provided.'' filename;
     Some (case r of Inl e \<Rightarrow> Inl e | Inr f \<Rightarrow> Inr (agent\<lparr>internalOutputFile := f\<rparr>))
   }"

text \<open>
  What the handling of a pipeline throws: an error to tell to one agent, or any other exception.
  \<open>realpath\<close> is the function of the C library, \<^term>\<open>None\<close> where the file does not exist; \<open>self\<close>
  is the agent itself.
\<close>

datatype driver_error = ClientError nat string | RuntimeError string

definition setInputFile ::
  "'t mdb_ops \<Rightarrow> (bytes \<times> nat option) list \<Rightarrow> (nat \<Rightarrow> ('t, 's) mtl_context) \<Rightarrow> (bytes \<Rightarrow> bytes option) \<Rightarrow> nat \<Rightarrow> bytes \<Rightarrow>
     OperatorAgent \<Rightarrow> (driver_error + OperatorAgent) option" where
  "setInputFile L mounts fss realpath self filename agent =
     (if fst (internalInputFile agent) \<noteq> 0 then Some (Inr agent)
      else case realpath (resolvePath filename agent) of
        None \<Rightarrow> Some (Inl (ClientError self ''Could not find input file.''))
      | Some realPath \<Rightarrow>
          if prefix (metalMountpoint agent) realPath
          then map_option (map_sum RuntimeError (\<lambda>a. a))
                 (setInternalInputFile L mounts fss (drop (length (metalMountpoint agent)) realPath) agent)
          else Some (Inr (agent\<lparr>agentLoadFile := realPath\<rparr>)))"

definition sendRegistrationResponse :: "RegistrationResponse \<Rightarrow> OperatorAgent \<Rightarrow> OperatorAgent" where
  "sendRegistrationResponse message agent =
     agent\<lparr>registration_responses := registration_responses agent @ [message]\<rparr>"

definition sendProcessingResponse :: "ProcessingResponse \<Rightarrow> OperatorAgent \<Rightarrow> OperatorAgent" where
  "sendProcessingResponse message agent =
     agent\<lparr>processing_responses := processing_responses agent @ [message]\<rparr>"

text \<open>Receiving from a process that sends nothing more never returns.\<close>

definition receiveProcessingRequest :: "OperatorAgent \<Rightarrow> ((u64 \<times> bool) \<times> OperatorAgent) option" where
  "receiveProcessingRequest agent =
     (case inbox agent of [] \<Rightarrow> None | m # ms \<Rightarrow> Some (m, agent\<lparr>inbox := ms\<rparr>))"

section \<open>Agent pool\<close>

record AgentPool =
  agents :: "OperatorAgent list"
  registered_agents :: "nat list"
  pipeline_agents :: "nat list"
  contains_valid_pipeline_cached :: bool

definition connect_agents :: "nat \<Rightarrow> nat \<Rightarrow> OperatorAgent list \<Rightarrow> OperatorAgent list" where
  "connect_agents agent other_agent A =
     (if isOutputConnectedTo (A ! other_agent) (A ! agent)
      then A[other_agent := (A ! other_agent)\<lparr>outputAgent := Some agent\<rparr>]
      else if isOutputConnectedTo (A ! agent) (A ! other_agent)
      then A[agent := (A ! agent)\<lparr>outputAgent := Some other_agent\<rparr>]
      else A)"

definition registerAgent :: "RegistrationRequest \<Rightarrow> (u64 \<times> bool) list \<Rightarrow> AgentPool \<Rightarrow> AgentPool" where
  "registerAgent request later pool =
     (let agent = length (agents pool);
          A = fold (connect_agents agent) (registered_agents pool) (agents pool @ [new_OperatorAgent request later])
      in pool\<lparr>agents := A, registered_agents := registered_agents pool @ [agent],
              contains_valid_pipeline_cached := False\<rparr>)"

text \<open>The walk along the pointers ends at an output agent or a null pointer; on a cycle it does not end.\<close>

partial_function (option) walk_pipeline :: "OperatorAgent list \<Rightarrow> nat option \<Rightarrow> nat list option" where
  "walk_pipeline A pipeline_agent =
     (case pipeline_agent of
        None \<Rightarrow> Some []
      | Some a \<Rightarrow>
          if isOutputAgent (A ! a) then Some [a]
          else do { rest \<leftarrow> walk_pipeline A (outputAgent (A ! a)); Some (a # rest) })"

definition containsValidPipeline :: "AgentPool \<Rightarrow> (bool \<times> AgentPool) option" where
  "containsValidPipeline pool =
     (if contains_valid_pipeline_cached pool then Some (True, pool)
      else case find (\<lambda>a. isInputAgent (agents pool ! a)) (registered_agents pool) of
        None \<Rightarrow> Some (False, pool)
      | Some start \<Rightarrow> do {
          walked \<leftarrow> walk_pipeline (agents pool) (Some start);
          if isOutputAgent (agents pool ! last walked)
          then Some (True, pool\<lparr>contains_valid_pipeline_cached := True, pipeline_agents := walked,
                 registered_agents := filter (\<lambda>a. a \<notin> set walked) (registered_agents pool)\<rparr>)
          else Some (False, pool)
        })"

definition sendRegistrationInvalid :: "OperatorAgent \<Rightarrow> OperatorAgent" where
  "sendRegistrationInvalid agent =
     (let accept_data = \<lparr>rs_error_msg = Some (if agent_error agent \<noteq> [] then agent_error agent
             else ''An invalid operator chain was specified.'' @ [CHR 0x0A]), rs_valid = False,
            rs_input_buffer_filename = None, rs_output_buffer_filename = None, rs_agent_read_filename = None\<rparr>
      in (sendRegistrationResponse accept_data agent)\<lparr>terminated := True\<rparr>)"

definition update_agent :: "(OperatorAgent \<Rightarrow> OperatorAgent) \<Rightarrow> nat \<Rightarrow> OperatorAgent list \<Rightarrow> OperatorAgent list" where
  "update_agent f a A = A[a := f (A ! a)]"

definition releaseUnusedAgents :: "AgentPool \<Rightarrow> AgentPool" where
  "releaseUnusedAgents pool =
     pool\<lparr>agents := fold (update_agent sendRegistrationInvalid) (registered_agents pool) (agents pool),
          registered_agents := []\<rparr>"

definition pool_reset :: "AgentPool \<Rightarrow> AgentPool" where
  "pool_reset pool =
     releaseUnusedAgents (pool\<lparr>
       agents := fold (update_agent (\<lambda>a. if terminated a then a else sendRegistrationInvalid a))
                   (pipeline_agents pool) (agents pool),
       pipeline_agents := []\<rparr>)"

text \<open>
  The server handles one connection after the other.  \<open>run\<close> configures and runs the pipeline of the
  given agents, with a state of its own; a client error names the agent that is told.  \<open>message\<close> is \<^term>\<open>None\<close> where the client
  sends something else than a registration request.
\<close>

definition processRequest ::
  "(nat list \<Rightarrow> OperatorAgent list \<Rightarrow> 's \<Rightarrow> ((nat \<times> string) option \<times> OperatorAgent list \<times> 's) option) \<Rightarrow>
     RegistrationRequest option \<Rightarrow> (u64 \<times> bool) list \<Rightarrow> AgentPool \<times> 's \<Rightarrow> (AgentPool \<times> 's) option" where
  "processRequest run message later = (\<lambda>(pool, s). case message of None \<Rightarrow> Some (pool, s) | Some request \<Rightarrow> do {
     (valid, pool) \<leftarrow> containsValidPipeline (registerAgent request later pool);
     if \<not> valid then Some (pool, s)
     else
       let pool = releaseUnusedAgents pool
       in do {
         (client_error, A, s) \<leftarrow> run (pipeline_agents pool) (agents pool) s;
         let A = (case client_error of None \<Rightarrow> A | Some (a, e) \<Rightarrow> update_agent (\<lambda>x. x\<lparr>agent_error := e\<rparr>) a A);
         Some (pool_reset (pool\<lparr>agents := A\<rparr>), s)
       }
   })"

end
