(* ===== verification/Placeholder.thy ===== *)
theory Placeholder
  imports Agents
begin

text \<open>
  The process that stands for an operator in the shell (\<open>metal-driver-placeholder/operator_agent.cpp\<close>):
  it finds out what its standard input and output are connected to, registers with the driver, and
  then moves data between its files and the buffers that it shares with the driver.

  The process file system is an argument: \<open>readlink\<close> gives the target of a link, \<open>access\<close> tells whether
  a file exists.  Strings in buffers are given without their final zero.  \<^term>\<open>None\<close> is undefined
  behaviour.
\<close>

section \<open>What a file descriptor is connected to\<close>

record ConnectedFile =
  cf_path :: bytes
  cf_pid :: u32
  is_metal_file :: bool

definition no_file :: ConnectedFile where
  "no_file = \<lparr>cf_path = [], cf_pid = 0, is_metal_file = False\<rparr>"

definition FILENAME_MAX :: nat where "FILENAME_MAX = 4096"

definition is_digit :: "u8 \<Rightarrow> bool" where
  "is_digit c \<longleftrightarrow> 48 \<le> c \<and> c \<le> 57"

definition digits_value :: "bytes \<Rightarrow> nat" where
  "digits_value s = foldl (\<lambda>v c. 10 * v + (unat c - 48)) 0 (takeWhile is_digit s)"

text \<open>\<open>atoll\<close> and \<open>atoi\<close> skip white space and read a sign.\<close>

definition atoll :: "bytes \<Rightarrow> int" where
  "atoll s =
     (case dropWhile (\<lambda>c. c = 32 \<or> (9 \<le> c \<and> c \<le> 13)) s of
        [] \<Rightarrow> 0
      | c # cs \<Rightarrow> if c = 45 then - int (digits_value cs) else if c = 43 then int (digits_value cs)
                 else int (digits_value (c # cs)))"

text \<open>
  Reading a link into a buffer: the length as an unsigned number, which is the greatest one on failure,
  and the buffer, where the bytes behind the target stay what they were.
\<close>

definition link_into :: "bytes option \<Rightarrow> bytes \<Rightarrow> u64 \<times> bytes" where
  "link_into target buf =
     (case target of
        None \<Rightarrow> (-1, buf)
      | Some t \<Rightarrow> let t = take FILENAME_MAX t in (word_of_nat (length t), t @ drop (length t) buf))"

definition is_pipe :: "u64 \<Rightarrow> bytes \<Rightarrow> bool" where
  "is_pipe len buf \<longleftrightarrow>
     (let k = unat (min 5 len) in take k buf = take k (cstr ''pipe:'')) \<and> len > 8"

fun scan_processes :: "(bytes \<Rightarrow> bytes option) \<Rightarrow> nat \<Rightarrow> u64 \<Rightarrow> bytes \<Rightarrow> bytes list \<Rightarrow> ConnectedFile option" where
  "scan_processes readlink fd_no st_ino buf [] = Some no_file"
| "scan_processes readlink fd_no st_ino buf (d_name # dirs) =
     (if \<not> list_all is_digit d_name then scan_processes readlink fd_no st_ino buf dirs
      else
        let (len, buf) = link_into (readlink (cstr ''/proc/'' @ d_name @ cstr ''/fd/'' @ [of_nat (49 - fd_no)])) buf
        in if is_pipe len buf \<and> word_of_int (atoll (drop 6 buf)) = st_ino
           then map_option (\<lambda>exe. \<lparr>cf_path = take 254 exe, cf_pid = word_of_int (atoll d_name), is_metal_file = False\<rparr>)
                  (readlink (cstr ''/proc/'' @ d_name @ cstr ''/exe''))
           else scan_processes readlink fd_no st_ino buf dirs)"

text \<open>\<open>proc\<close> are the entries of the directory, if it can be opened, \<open>junk\<close> the unwritten buffer.\<close>

definition get_process_connected_to_std_fd ::
  "(bytes \<Rightarrow> bytes option) \<Rightarrow> bytes list option \<Rightarrow> bytes \<Rightarrow> nat \<Rightarrow> u64 \<Rightarrow> ConnectedFile option" where
  "get_process_connected_to_std_fd readlink proc junk fd_no st_ino =
     (case proc of None \<Rightarrow> Some no_file | Some dirs \<Rightarrow> scan_processes readlink fd_no st_ino junk dirs)"

text \<open>\<open>strncmp\<close> over the length of the shorter string.\<close>

definition same_up_to_shorter :: "bytes \<Rightarrow> bytes \<Rightarrow> bool" where
  "same_up_to_shorter a b \<longleftrightarrow> (let k = min (length a) (length b) in take k a = take k b)"

definition determineProcessOrFileConnectedToStandardFileDescriptor ::
  "(bytes \<Rightarrow> bytes option) \<Rightarrow> (bytes \<Rightarrow> bool) \<Rightarrow> bytes list option \<Rightarrow> bytes \<Rightarrow> u64 \<Rightarrow> nat \<Rightarrow> bytes \<Rightarrow> ConnectedFile option" where
  "determineProcessOrFileConnectedToStandardFileDescriptor readlink access proc junk st_ino fd_no metal_mountpoint = do {
     fd_file \<leftarrow> readlink (cstr ''/proc/self/fd/'' @ [of_nat (48 + fd_no)]);
     let fd_file = take (FILENAME_MAX - 1) fd_file;
     if access fd_file then do {
       let files_prefix = metal_mountpoint @ [slash];
       internal_filename \<leftarrow>
         (if \<not> same_up_to_shorter files_prefix fd_file then Some []
          else if length fd_file + 1 < length files_prefix then None
          else Some (drop (length files_prefix - 1) fd_file));
       if internal_filename \<noteq> [] then Some \<lparr>cf_path = internal_filename, cf_pid = 0, is_metal_file = True\<rparr>
       else if take 9 fd_file = cstr ''/dev/null'' then Some \<lparr>cf_path = cstr ''$NULL'', cf_pid = 0, is_metal_file = True\<rparr>
       else Some \<lparr>cf_path = fd_file, cf_pid = 0, is_metal_file = False\<rparr>
     } else do {
       connected_process \<leftarrow> get_process_connected_to_std_fd readlink proc junk fd_no st_ino;
       if cf_path connected_process \<noteq> [] then
         Some (if \<not> same_up_to_shorter (metal_mountpoint @ cstr ''/operators/'') (cf_path connected_process)
               then connected_process\<lparr>cf_pid := 0\<rparr> else connected_process)
       else Some no_file
     }
   }"

section \<open>The mount point\<close>

definition mount_step :: "bytes \<Rightarrow> bytes \<Rightarrow> bytes \<times> nat \<Rightarrow> bytes \<times> nat" where
  "mount_step path mnt_dir = (\<lambda>(result, previousLongestPath).
     if length mnt_dir > length path then (result, previousLongestPath)
     else if length mnt_dir < previousLongestPath then (result, previousLongestPath)
     else if take (length mnt_dir) path = mnt_dir then (mnt_dir, length mnt_dir)
     else (result, previousLongestPath))"

definition getMountPointOfFilesystem :: "bytes list option \<Rightarrow> bytes \<Rightarrow> string + bytes" where
  "getMountPointOfFilesystem mounts path =
     (case mounts of
        None \<Rightarrow> Inl ''Could not read mounts''
      | Some mounts \<Rightarrow>
          (case fold (mount_step path) mounts ([], 0) of
             (result, previousLongestPath) \<Rightarrow>
               if previousLongestPath = 0 then Inl ''Could not determine mount point'' else Inr result))"

definition selfExecutableFilename :: "(bytes \<Rightarrow> bytes option) \<Rightarrow> bytes option" where
  "selfExecutableFilename readlink = map_option (take 254) (readlink (cstr ''/proc/self/exe''))"

definition determineOperatorName :: "(bytes \<Rightarrow> bytes option) \<Rightarrow> bytes option" where
  "determineOperatorName readlink = map_option (\<lambda>s. basename (take 254 s)) (readlink (cstr ''/proc/self/exe''))"

definition make_request ::
  "u64 \<Rightarrow> string \<Rightarrow> ConnectedFile \<Rightarrow> ConnectedFile \<Rightarrow> string list \<Rightarrow> bytes \<Rightarrow> bytes \<Rightarrow> RegistrationRequest" where
  "make_request own_pid operatorName input output argv own_cwd ownFSMountPoint =
     \<lparr>rq_pid = own_pid, rq_cwd = own_cwd, rq_mountpoint = ownFSMountPoint, rq_operator_type = operatorName,
      rq_input_pid = ucast (cf_pid input), rq_output_pid = ucast (cf_pid output), rq_args = argv,
      rq_input_filename = (if is_metal_file input then Some (cf_path input) else None),
      rq_output_filename = (if is_metal_file output then Some (cf_path output) else None)\<rparr>"

section \<open>Moving data\<close>

text \<open>
  The state of the process: what its input file still holds, which half of a shared buffer is the
  current one (if the buffer is mapped), the last read, and what it has written.  The halves of the
  shared buffers are maps from the flag of the current half to bytes.
\<close>

record client =
  c_input :: bytes
  c_in :: "bool option"
  c_out :: "bool option"
  c_bytesRead :: u64
  c_eof :: bool
  c_stdout :: bytes
  c_stderr :: "string list"

type_synonym halves = "bool \<Rightarrow> bytes"

text \<open>Writing into a half leaves the bytes behind.\<close>

definition put_half :: "bool \<Rightarrow> bytes \<Rightarrow> halves \<Rightarrow> halves" where
  "put_half h bs m = m(h := bs @ drop (length bs) (m h))"

text \<open>\<open>fread\<close> of a whole buffer: the end of the file is noticed when fewer bytes are there.\<close>

definition client_read :: "client \<Rightarrow> halves \<Rightarrow> client \<times> halves" where
  "client_read c m =
     (case c_in c of
        None \<Rightarrow> (c, m)
      | Some h \<Rightarrow>
          let bs = take (unat BufferSize) (c_input c)
          in (c\<lparr>c_input := drop (unat BufferSize) (c_input c), c_bytesRead := word_of_nat (length bs),
                c_eof := (length (c_input c) < unat BufferSize), c_in := Some (\<not> h)\<rparr>, put_half h bs m))"

text \<open>
  The start of the data transfer after the response of the driver; \<open>read_file\<close> is the content of a file
  that the driver wants to be read instead of the standard input.
\<close>

definition client_start ::
  "RegistrationResponse \<Rightarrow> bytes \<Rightarrow> (bytes \<Rightarrow> bytes option) \<Rightarrow> halves \<Rightarrow> (int \<times> string list + client \<times> halves) option" where
  "client_start response stdin read_file m =
     (let err = (case rs_error_msg response of None \<Rightarrow> [] | Some e \<Rightarrow> [e])
      in if \<not> rs_valid response then Some (Inl (1, err))
         else do {
           infd \<leftarrow> (case (rs_input_buffer_filename response, rs_agent_read_filename response) of
                     (Some _, Some f) \<Rightarrow> read_file f | _ \<Rightarrow> Some stdin);
           Some (Inr (client_read
             \<lparr>c_input = infd, c_in = map_option (\<lambda>_. False) (rs_input_buffer_filename response),
              c_out = map_option (\<lambda>_. False) (rs_output_buffer_filename response), c_bytesRead = 0, c_eof = False,
              c_stdout = [], c_stderr = err\<rparr> m))
         })"

text \<open>One turn of the processing loop, part by part, with the last response of the driver.\<close>

definition no_response :: ProcessingResponse where
  "no_response = \<lparr>pr_size = None, pr_eof = False, pr_message = None\<rparr>"

definition client_request :: "client \<Rightarrow> ProcessingResponse \<Rightarrow> (u64 \<times> bool) list" where
  "client_request c resp = (if \<not> pr_eof resp then [(c_bytesRead c, c_eof c)] else [])"

definition response_size :: "ProcessingResponse \<Rightarrow> u64" where
  "response_size resp = (case pr_size resp of None \<Rightarrow> 0 | Some s \<Rightarrow> s)"

definition client_write :: "client \<Rightarrow> ProcessingResponse \<Rightarrow> halves \<Rightarrow> client" where
  "client_write c resp m =
     (let c = (case c_out c of
                 None \<Rightarrow> c
               | Some h \<Rightarrow> if response_size resp \<noteq> 0
                          then c\<lparr>c_stdout := c_stdout c @ take (unat (response_size resp)) (m h), c_out := Some (\<not> h)\<rparr>
                          else c)
      in case pr_message resp of None \<Rightarrow> c | Some t \<Rightarrow> c\<lparr>c_stderr := c_stderr c @ [t]\<rparr>)"

definition client_next :: "client \<Rightarrow> halves \<Rightarrow> client \<times> halves" where
  "client_next c m = (if \<not> c_eof c then client_read c m else (c, m))"

section \<open>The mount point is the longest prefix\<close>

lemma mount_fold:
  assumes "fold (mount_step path) mounts (r0, k0) = (r, k)" "k0 = length r0" "prefix r0 path"
  shows "k = length r \<and> prefix r path \<and> (r = r0 \<or> r \<in> set mounts) \<and>
    (\<forall>m \<in> set mounts. prefix m path \<longrightarrow> length m \<le> k) \<and> k0 \<le> k"
  using assms
proof (induction mounts arbitrary: r0 k0)
  case (Cons m mounts)
  obtain r1 k1 where s: "mount_step path m (r0, k0) = (r1, k1)" by fastforce
  have p: "prefix m path \<longleftrightarrow> length m \<le> length path \<and> take (length m) path = m"
    by (metis append_eq_conv_conj prefix_def prefix_length_le take_is_prefix)
  have "k1 = length r1" "prefix r1 path" "r1 = r0 \<or> r1 = m" "prefix m path \<Longrightarrow> length m \<le> k1" "k0 \<le> k1"
    using s Cons.prems p by (auto simp: mount_step_def split: if_splits)
  then show ?case using Cons.IH [of r1 k1] Cons.prems(1) s by fastforce
qed simp

text \<open>
  The mount point of the executable is the longest of the mount points that are a prefix of its
  path, as strings; without one it is an error.
\<close>

theorem mount_point_longest:
  "(\<forall>m. getMountPointOfFilesystem (Some mounts) path = Inr m \<longrightarrow>
     m \<in> set mounts \<and> prefix m path \<and> (\<forall>m' \<in> set mounts. prefix m' path \<longrightarrow> length m' \<le> length m)) \<and>
   (getMountPointOfFilesystem (Some mounts) path = Inl ''Could not determine mount point'' \<longleftrightarrow>
     (\<forall>m \<in> set mounts. prefix m path \<longrightarrow> m = []))"
proof -
  obtain r k where f: "fold (mount_step path) mounts ([], 0) = (r, k)" by fastforce
  note m = mount_fold [OF f]
  show ?thesis using m by (auto simp: getMountPointOfFilesystem_def f)
qed

lemma mount_point_longest_witness:
  "getMountPointOfFilesystem (Some [cstr ''/'', cstr ''/mnt'', cstr ''/mnt/metal'', cstr ''/home'']) (cstr ''/mnt/metal/operators/cat'') =
     Inr (cstr ''/mnt/metal'') \<and> cstr ''/mnt/metal'' \<in> set [cstr ''/'', cstr ''/mnt'', cstr ''/mnt/metal'', cstr ''/home'']"
proof -
  have "getMountPointOfFilesystem (Some [cstr ''/'', cstr ''/mnt'', cstr ''/mnt/metal'', cstr ''/home'']) (cstr ''/mnt/metal/operators/cat'') =
      Inr (cstr ''/mnt/metal'')"
    by code_simp
  then show ?thesis using mount_point_longest by blast
qed

end
