(* ===== verification/Builder.thy ===== *)
theory Builder
  imports Agents
begin

text \<open>
  From agents to a pipeline (\<open>pipeline_builder.cpp\<close>, \<open>pseudo_operators.cpp\<close>, \<open>configured_pipeline.hpp\<close>).
  The command line library cxxopts is an argument, the record \<open>cxxopts_lib\<close> of the functions that are
  called; a function of it that throws returns the message.
\<close>

section \<open>State of the driver\<close>

text \<open>
  The driver's thread works on the card, on the agents and on the file systems of the card.  A file
  system sees the card as its storage, and one on NVMe sees the file system in DRAM; \<open>filesystem\<close>
  gives the parameters of each file system and the number of its DRAM file system.
\<close>

record ('t, 'c) driver =
  d_card :: 'c
  d_agents :: "OperatorAgent list"
  d_fs :: "nat \<Rightarrow> ('t, unit) mtl_context"

datatype option_kind = BoolOption | Uint32Option | Uint64Option | StringOption

record option_decl =
  o_short :: string
  o_long :: string
  o_description :: string
  o_kind :: option_kind
  o_default :: "string option"

record ('o, 'p) cxxopts_lib =
  cx_Options :: "string \<Rightarrow> string \<Rightarrow> 'o"
  cx_add_option :: "option_decl \<Rightarrow> 'o \<Rightarrow> string + 'o"
  cx_parse_positional :: "string list \<Rightarrow> 'o \<Rightarrow> 'o"
  cx_parse :: "'o \<Rightarrow> string list \<Rightarrow> string + 'p"
  cx_help :: "'o \<Rightarrow> string"
  cx_bool :: "'p \<Rightarrow> string \<Rightarrow> string + bool"
  cx_u32 :: "'p \<Rightarrow> string \<Rightarrow> string + u32"
  cx_u64 :: "'p \<Rightarrow> string \<Rightarrow> string + u64"
  cx_string :: "'p \<Rightarrow> string \<Rightarrow> string + string"

record ('t, 'c, 'o, 'p) world =
  w_db :: "'t mdb_ops"
  w_snap :: "'c snap_lib"
  w_os :: "'c os_lib"
  w_cxxopts :: "('o, 'p) cxxopts_lib"
  w_mounts :: "(bytes \<times> nat option) list"
  w_filesystem :: "nat \<Rightarrow> PipelineStorage \<times> nat option"

type_synonym ('t, 'c, 'a) driver_act = "(driver_error, ('t, 'c) driver, 'a) fallible"

definition fs_view :: "('t, 'c, 'o, 'p) world \<Rightarrow> nat \<Rightarrow> ('t, 'c) driver \<Rightarrow> ('t, 'c) card_ctx" where
  "fs_view W k d =
     \<lparr>env = env (d_fs d k), metadata = metadata (d_fs d k),
      storage = \<lparr>snap_state = d_card d, dramPipelineStorage = map_option (d_fs d) (snd (w_filesystem W k))\<rparr>\<rparr>"

definition fs_put :: "nat \<Rightarrow> ('t, 'c) card_ctx \<Rightarrow> ('t, 'c) driver \<Rightarrow> ('t, 'c) driver" where
  "fs_put k ctx d =
     d\<lparr>d_card := snap_state (storage ctx),
       d_fs := (d_fs d)(k := \<lparr>env = env ctx, metadata = metadata ctx, storage = ()\<rparr>)\<rparr>"

definition on_fs :: "('t, 'c, 'o, 'p) world \<Rightarrow> nat \<Rightarrow> (('t, 'c) card_ctx, 'a) act \<Rightarrow> (('t, 'c) driver, 'a) act" where
  "on_fs W k m d = map_option (\<lambda>(r, ctx). (r, fs_put k ctx d)) (m (fs_view W k d))"

definition on_card :: "('c, 'a) act \<Rightarrow> (('t, 'c) driver, 'a) act" where
  "on_card m d = map_option (\<lambda>(r, c). (r, d\<lparr>d_card := c\<rparr>)) (m (d_card d))"

text \<open>Other exceptions than client errors, and access to an agent.\<close>

definition plainly :: "('d, 'a) act \<Rightarrow> (driver_error, 'd, 'a) fallible" where
  "plainly m = on_exception m (\<lambda>e. throw (RuntimeError e))"

definition from_sum :: "string + 'a \<Rightarrow> (driver_error, 'd, 'a) fallible" where
  "from_sum r = (case r of Inl e \<Rightarrow> throw (RuntimeError e) | Inr x \<Rightarrow> ret x)"

definition read_agent :: "nat \<Rightarrow> (OperatorAgent \<Rightarrow> ('e, ('t, 'c) driver, 'a) fallible) \<Rightarrow> ('e, ('t, 'c) driver, 'a) fallible" where
  "read_agent i f d = f (d_agents d ! i) d"

definition write_agent :: "nat \<Rightarrow> (OperatorAgent \<Rightarrow> OperatorAgent) \<Rightarrow> ('e, ('t, 'c) driver, unit) fallible" where
  "write_agent i f d = ret () (d\<lparr>d_agents := update_agent f i (d_agents d)\<rparr>)"

section \<open>Options\<close>

fun add_options :: "('o, 'p) cxxopts_lib \<Rightarrow> option_decl list \<Rightarrow> 'o \<Rightarrow> string + 'o" where
  "add_options C [] options = Inr options"
| "add_options C (decl # decls) options = try_then (cx_add_option C decl options) (add_options C decls)"

definition help_option :: option_decl where
  "help_option = \<lparr>o_short = ''h'', o_long = ''help'', o_description = ''Print help'', o_kind = BoolOption, o_default = Some ''false''\<rparr>"

definition profile_option :: option_decl where
  "profile_option = \<lparr>o_short = ''p'', o_long = ''profile'', o_description = ''Enable profiling'', o_kind = BoolOption, o_default = Some ''false''\<rparr>"

definition length_option :: option_decl where
  "length_option = \<lparr>o_short = ''l'', o_long = ''length'', o_description = ''The amount of data to generate, in bytes'',
     o_kind = Uint64Option, o_default = Some ''4096''\<rparr>"

definition input_option :: option_decl where
  "input_option = \<lparr>o_short = '''', o_long = ''input'', o_description = ''Input'', o_kind = StringOption, o_default = Some ''''\<rparr>"

fun operator_option :: "OperatorOptionDefinition \<Rightarrow> option_decl" where
  "operator_option d =
     \<lparr>o_short = od_short d, o_long = od_key d, o_description = od_description d,
      o_kind = (case od_type d of Bool \<Rightarrow> BoolOption | Uint \<Rightarrow> Uint32Option | Buffer \<Rightarrow> StringOption),
      o_default = (if od_type d = Bool then Some ''false'' else None)\<rparr>"

definition buildOperatorOptions :: "('o, 'p) cxxopts_lib \<Rightarrow> OperatorSpecification \<Rightarrow> string + 'o" where
  "buildOperatorOptions C op =
     try_then (add_options C ([help_option, profile_option, input_option] @
                 map (\<lambda>(_, d). operator_option d) (optionDefinitions op))
               (cx_Options C (spec_id op) (spec_description op))) (\<lambda>options.
       Inr (cx_parse_positional C [''input''] options))"

fun build_all_options ::
  "('o, 'p) cxxopts_lib \<Rightarrow> (string \<times> OperatorSpecification) list \<Rightarrow> string + (string \<times> 'o) list" where
  "build_all_options C [] = Inr []"
| "build_all_options C ((key, op) # ops) =
     try_then (buildOperatorOptions C op) (\<lambda>options.
     try_then (build_all_options C ops) (\<lambda>rest. Inr ((key, options) # rest)))"

definition parseOptions :: "('t, 'c, 'o, 'p) world \<Rightarrow> 'o \<Rightarrow> nat \<Rightarrow> ('t, 'c, 'p) driver_act" where
  "parseOptions W options i =
     read_agent i (\<lambda>agent.
     and_then (from_sum (cx_parse (w_cxxopts W) options (args agent))) (\<lambda>parseResult.
     and_then (from_sum (cx_bool (w_cxxopts W) parseResult ''help'')) (\<lambda>help.
       if help then throw (ClientError i (cx_help (w_cxxopts W) options)) else ret parseResult)))"

section \<open>Pseudo operators\<close>

definition isDatagenAgent :: "OperatorAgent \<Rightarrow> bool" where
  "isDatagenAgent agent \<longleftrightarrow> operatorType agent = ''datagen''"

definition isMetalCatAgent :: "OperatorAgent \<Rightarrow> bool" where
  "isMetalCatAgent agent \<longleftrightarrow> operatorType agent = ''metal-cat''"

definition isNullOutput :: "OperatorAgent \<Rightarrow> bool" where
  "isNullOutput agent \<longleftrightarrow> internalOutputFilename agent = cstr ''$NULL''"

definition datagen_parseOptions :: "('t, 'c, 'o, 'p) world \<Rightarrow> nat \<Rightarrow> ('t, 'c, 'p) driver_act" where
  "datagen_parseOptions W i =
     and_then (from_sum (add_options (w_cxxopts W) [help_option, profile_option, length_option, input_option]
       (cx_Options (w_cxxopts W) ''datagen'' ''Generate data on the FPGA for benchmarking operators.''))) (\<lambda>options.
     parseOptions W (cx_parse_positional (w_cxxopts W) [''input''] options) i)"

definition metal_cat_parseOptions :: "('t, 'c, 'o, 'p) world \<Rightarrow> nat \<Rightarrow> ('t, 'c, 'p) driver_act" where
  "metal_cat_parseOptions W i =
     and_then (from_sum (add_options (w_cxxopts W) [help_option, profile_option, input_option]
       (cx_Options (w_cxxopts W) ''metal-cat'' ''Loop data through the FPGA.''))) (\<lambda>options.
     parseOptions W (cx_parse_positional (w_cxxopts W) [''input''] options) i)"

definition datagen_isProfilingEnabled :: "('t, 'c, 'o, 'p) world \<Rightarrow> nat \<Rightarrow> ('t, 'c, bool) driver_act" where
  "datagen_isProfilingEnabled W i =
     and_then (datagen_parseOptions W i) (\<lambda>p. from_sum (cx_bool (w_cxxopts W) p ''profile''))"

definition datagenLength :: "('t, 'c, 'o, 'p) world \<Rightarrow> nat \<Rightarrow> ('t, 'c, u64) driver_act" where
  "datagenLength W i =
     and_then (datagen_parseOptions W i) (\<lambda>p. from_sum (cx_u64 (w_cxxopts W) p ''length''))"

definition metal_cat_isProfilingEnabled :: "('t, 'c, 'o, 'p) world \<Rightarrow> nat \<Rightarrow> ('t, 'c, bool) driver_act" where
  "metal_cat_isProfilingEnabled W i =
     and_then (metal_cat_parseOptions W i) (\<lambda>p. from_sum (cx_bool (w_cxxopts W) p ''profile''))"

text \<open>The operations of an agent on the state of the driver.\<close>

definition agent_setInputFile :: "('t, 'c, 'o, 'p) world \<Rightarrow> nat \<Rightarrow> bytes \<Rightarrow> ('t, 'c, unit) driver_act" where
  "agent_setInputFile W i filename d =
     (case setInputFile (w_db W) (w_mounts W) (d_fs d) (\<lambda>p. os_realpath (w_os W) p (d_card d)) i filename (d_agents d ! i) of
        None \<Rightarrow> None
      | Some (Inl e) \<Rightarrow> throw e d
      | Some (Inr agent) \<Rightarrow> write_agent i (\<lambda>_. agent) d)"

definition agent_setInternalInputFile :: "('t, 'c, 'o, 'p) world \<Rightarrow> nat \<Rightarrow> bytes \<Rightarrow> ('t, 'c, unit) driver_act" where
  "agent_setInternalInputFile W i filename d =
     (case setInternalInputFile (w_db W) (w_mounts W) (d_fs d) filename (d_agents d ! i) of
        None \<Rightarrow> None
      | Some (Inl e) \<Rightarrow> throw (RuntimeError e) d
      | Some (Inr agent) \<Rightarrow> write_agent i (\<lambda>_. agent) d)"

definition agent_setInternalOutputFile :: "('t, 'c, 'o, 'p) world \<Rightarrow> nat \<Rightarrow> bytes \<Rightarrow> ('t, 'c, unit) driver_act" where
  "agent_setInternalOutputFile W i filename d =
     (case setInternalOutputFile (w_db W) (w_mounts W) (d_fs d) filename (d_agents d ! i) of
        None \<Rightarrow> None
      | Some (Inl e) \<Rightarrow> throw (RuntimeError e) d
      | Some (Inr agent) \<Rightarrow> write_agent i (\<lambda>_. agent) d)"

definition createInputBuffer :: "('t, 'c, 'o, 'p) world \<Rightarrow> nat \<Rightarrow> ('t, 'c, unit) driver_act" where
  "createInputBuffer W i =
     and_then (plainly (on_card (createTempFileForSharedBuffer (w_os W) False))) (\<lambda>b.
       write_agent i (\<lambda>a. a\<lparr>inputBuffer := Some b\<rparr>))"

definition createOutputBuffer :: "('t, 'c, 'o, 'p) world \<Rightarrow> nat \<Rightarrow> ('t, 'c, unit) driver_act" where
  "createOutputBuffer W i =
     and_then (plainly (on_card (createTempFileForSharedBuffer (w_os W) True))) (\<lambda>b.
       write_agent i (\<lambda>a. a\<lparr>outputBuffer := Some b\<rparr>))"

definition set_input_from :: "('t, 'c, 'o, 'p) world \<Rightarrow> nat \<Rightarrow> 'p \<Rightarrow> ('t, 'c, unit) driver_act" where
  "set_input_from W i p =
     and_then (from_sum (cx_string (w_cxxopts W) p ''input'')) (\<lambda>input.
       if input \<noteq> [] then agent_setInputFile W i (cstr input) else ret ())"

definition datagen_setInputFile :: "('t, 'c, 'o, 'p) world \<Rightarrow> nat \<Rightarrow> ('t, 'c, unit) driver_act" where
  "datagen_setInputFile W i = and_then (datagen_parseOptions W i) (set_input_from W i)"

definition metal_cat_setInputFile :: "('t, 'c, 'o, 'p) world \<Rightarrow> nat \<Rightarrow> ('t, 'c, unit) driver_act" where
  "metal_cat_setInputFile W i = and_then (metal_cat_parseOptions W i) (set_input_from W i)"

section \<open>Resolving and instantiating operators\<close>

text \<open>
  The specifications of the registry are shared objects, one per name: a set of pointers to them is
  the list \<open>operatorsWithAgents\<close> of their names.
\<close>

fun resolve_loop ::
  "(string \<times> OperatorSpecification) list \<Rightarrow> OperatorAgent list \<Rightarrow> nat list \<Rightarrow> string list \<Rightarrow>
     (OperatorSpecification option \<times> nat) list \<Rightarrow> string + (OperatorSpecification option \<times> nat) list" where
  "resolve_loop specs A [] operatorsWithAgents result = Inr result"
| "resolve_loop specs A (agent # rest) operatorsWithAgents result =
     (if isDatagenAgent (A ! agent) \<or> isMetalCatAgent (A ! agent) then
        (if length result > 0 then Inl ''Operator can only be used as the start of an FPGA pipeline''
         else resolve_loop specs A rest operatorsWithAgents (result @ [(None, agent)]))
      else case map_of specs (operatorType (A ! agent)) of
        None \<Rightarrow> Inl ''Unknown operator was requested''
      | Some op \<Rightarrow>
          if operatorType (A ! agent) \<in> set operatorsWithAgents then Inl ''Operator was used more than once''
          else resolve_loop specs A rest (operatorType (A ! agent) # operatorsWithAgents) (result @ [(Some op, agent)]))"

definition resolveOperatorSpecifications ::
  "OperatorFactory \<Rightarrow> OperatorAgent list \<Rightarrow> nat list \<Rightarrow> string + (OperatorSpecification option \<times> nat) list" where
  "resolveOperatorSpecifications registry A cs = resolve_loop (operatorSpecifications registry) A cs [] []"

text \<open>
  The value of one option.  For a buffer the file is read into a vector of zeros of the given size; a
  file that cannot be opened or gives no byte is an error.
\<close>

definition option_value ::
  "('t, 'c, 'o, 'p) world \<Rightarrow> nat \<Rightarrow> 'p \<Rightarrow> string \<Rightarrow> OperatorOptionDefinition \<Rightarrow> ('t, 'c, OperatorArgumentValue) driver_act" where
  "option_value W i parseResult key d =
     (case od_type d of
        Uint \<Rightarrow> and_then (from_sum (cx_u32 (w_cxxopts W) parseResult key)) (\<lambda>v. ret (UintValue v))
      | Bool \<Rightarrow> and_then (from_sum (cx_bool (w_cxxopts W) parseResult key)) (\<lambda>v. ret (BoolValue v))
      | Buffer \<Rightarrow>
          (case od_bufferSize d of
             None \<Rightarrow> throw (RuntimeError ''File option metadata not found'')
           | Some sz \<Rightarrow>
               and_then (from_sum (cx_string (w_cxxopts W) parseResult key)) (\<lambda>path.
               read_agent i (\<lambda>agent dr.
                 case os_read_file (w_os W) (resolvePath (cstr path) agent) (unat sz) (d_card dr) of
                   None \<Rightarrow> throw (RuntimeError ''Could not open file'') dr
                 | Some bs \<Rightarrow>
                     if bs = [] then throw (RuntimeError ''Could not read from file'') dr
                     else ret (BufferValue (take (unat sz) (bs @ replicate (unat sz) 0))) dr))))"

fun set_options ::
  "('t, 'c, 'o, 'p) world \<Rightarrow> nat \<Rightarrow> 'p \<Rightarrow> (string \<times> OperatorOptionDefinition) list \<Rightarrow> Operator \<Rightarrow> ('t, 'c, Operator) driver_act" where
  "set_options W i parseResult [] user_op = ret user_op"
| "set_options W i parseResult ((key, d) # defs) user_op =
     and_then (option_value W i parseResult key d) (\<lambda>v.
     and_then (from_sum (setOption user_op key v)) (set_options W i parseResult defs))"

definition instantiateOperator ::
  "('t, 'c, 'o, 'p) world \<Rightarrow> (string \<times> 'o) list \<Rightarrow> OperatorSpecification \<Rightarrow> nat \<Rightarrow> ('t, 'c, OperatorContext) driver_act" where
  "instantiateOperator W operatorOptions op i =
     (case map_of operatorOptions (spec_id op) of
        None \<Rightarrow> throw (RuntimeError ''std::out_of_range'')
      | Some options \<Rightarrow>
          and_then (parseOptions W options i) (\<lambda>parseResult.
          and_then (set_options W i parseResult (optionDefinitions op) (new_Operator op)) (\<lambda>user_op.
          and_then (set_input_from W i parseResult) (\<lambda>_.
          and_then (from_sum (cx_bool (w_cxxopts W) parseResult ''profile'')) (\<lambda>profile.
            ret ((new_OperatorContext user_op)\<lparr>profilingEnabled := profile\<rparr>))))))"

fun instantiate_all ::
  "('t, 'c, 'o, 'p) world \<Rightarrow> (string \<times> 'o) list \<Rightarrow> (OperatorSpecification option \<times> nat) list \<Rightarrow> ('t, 'c, OperatorContext list) driver_act" where
  "instantiate_all W operatorOptions [] = ret []"
| "instantiate_all W operatorOptions ((None, i) # specs) = instantiate_all W operatorOptions specs"
| "instantiate_all W operatorOptions ((Some op, i) # specs) =
     and_then (instantiateOperator W operatorOptions op i) (\<lambda>oc.
     and_then (instantiate_all W operatorOptions specs) (\<lambda>ocs. ret (oc # ocs)))"

section \<open>Configuring a pipeline\<close>

record ConfiguredPipeline =
  cp_pipeline :: Pipeline
  dataSourceAgent :: nat
  dataSinkAgent :: nat
  operatorAgents :: "nat list"

definition validate_source :: "('t, 'c, 'o, 'p) world \<Rightarrow> nat \<Rightarrow> ('t, 'c, unit) driver_act" where
  "validate_source W i = read_agent i (\<lambda>agent.
     if isDatagenAgent agent then
       and_then (datagen_parseOptions W i) (\<lambda>_. datagen_setInputFile W i)
     else if isMetalCatAgent agent then
       and_then (metal_cat_parseOptions W i) (\<lambda>_. metal_cat_setInputFile W i)
     else ret ())"

definition establish_source :: "('t, 'c, 'o, 'p) world \<Rightarrow> nat \<Rightarrow> ('t, 'c, unit) driver_act" where
  "establish_source W i = read_agent i (\<lambda>agent.
     if snd (internalInputFile agent) = None then
       (if internalInputFilename agent \<noteq> [] then agent_setInternalInputFile W i (internalInputFilename agent)
        else if \<not> isDatagenAgent agent then createInputBuffer W i
        else ret ())
     else ret ())"

definition establish_sink :: "('t, 'c, 'o, 'p) world \<Rightarrow> nat \<Rightarrow> ('t, 'c, unit) driver_act" where
  "establish_sink W i = read_agent i (\<lambda>agent.
     if internalOutputFilename agent \<noteq> [] \<and> \<not> isNullOutput agent
     then agent_setInternalOutputFile W i (internalOutputFilename agent)
     else createOutputBuffer W i)"

definition accepted :: "OperatorAgent \<Rightarrow> RegistrationResponse" where
  "accepted agent =
     \<lparr>rs_error_msg = None, rs_valid = True,
      rs_input_buffer_filename = map_option b_filename (inputBuffer agent),
      rs_output_buffer_filename = map_option b_filename (outputBuffer agent),
      rs_agent_read_filename = (if agentLoadFile agent \<noteq> [] then Some (agentLoadFile agent) else None)\<rparr>"

definition accept_agents :: "nat list \<Rightarrow> ('t, 'c, unit) driver_act" where
  "accept_agents is d =
     ret () (d\<lparr>d_agents := fold (update_agent (\<lambda>a. sendRegistrationResponse (accepted a) a)) is (d_agents d)\<rparr>)"

definition PipelineBuilder_configure ::
  "('t, 'c, 'o, 'p) world \<Rightarrow> OperatorFactory \<Rightarrow> nat list \<Rightarrow> ('t, 'c, ConfiguredPipeline) driver_act" where
  "PipelineBuilder_configure W registry cs d =
     and_then (from_sum (build_all_options (w_cxxopts W) (operatorSpecifications registry))) (\<lambda>operatorOptions.
     and_then (from_sum (resolveOperatorSpecifications registry (d_agents d) cs)) (\<lambda>specs.
     and_then (instantiate_all W operatorOptions specs) (\<lambda>operatorContexts.
     if specs = [] then undefined_behaviour
     else
       let source = snd (hd specs); sink = snd (last specs) in
       and_then (validate_source W source) (\<lambda>_.
       and_then (establish_source W source) (\<lambda>_.
       and_then (establish_sink W sink) (\<lambda>_.
       and_then (accept_agents (map snd specs)) (\<lambda>_.
         ret \<lparr>cp_pipeline = \<lparr>operators = operatorContexts, cachedSwitchConfiguration = False\<rparr>,
              dataSourceAgent = source, dataSinkAgent = sink, operatorAgents = cs\<rparr>))))))) d"

end
