(* ===== verification/Loop.thy ===== *)
theory Loop
  imports Builder
begin

text \<open>
  Running a configured pipeline (\<open>agent_data_source_context.cpp\<close>, \<open>agent_data_sink_context.cpp\<close>,
  \<open>pipeline_loop.cpp\<close> and the try block of \<open>server.cpp\<close>).  The contexts of agents extend those of
  files: the object of the base class is a field.
\<close>

section \<open>Agents as data sources\<close>

definition card_lib :: "('t, 'c, 'o, 'p) world \<Rightarrow> ('t, 'c) driver snap_lib" where
  "card_lib W = snap_within d_card (\<lambda>c d. d\<lparr>d_card := c\<rparr>) (w_snap W)"

text \<open>The file system of a context; a null pointer is never followed where the inode is 0.\<close>

definition fs_index :: "nat option \<Rightarrow> nat" where
  "fs_index fs = (case fs of None \<Rightarrow> 0 | Some k \<Rightarrow> k)"

definition fs_of :: "('t, 'c, 'o, 'p) world \<Rightarrow> nat option \<Rightarrow> PipelineStorage option" where
  "fs_of W fs = map_option (\<lambda>k. fst (w_filesystem W k)) fs"

record AgentDataSourceContext =
  as_base :: FileDataSourceContext
  as_fs :: "nat option"
  as_agent :: nat
  as_skipSending :: bool
  as_remainingTotalSize :: u64
  as_size :: u64
  as_eof :: bool

text \<open>\<open>junk\<close> are the values of the fields that the constructor leaves unwritten.\<close>

definition new_AgentDataSourceContext ::
  "('t, 'c, 'o, 'p) world \<Rightarrow> u64 \<times> u64 \<times> u64 \<times> bool \<Rightarrow> nat \<Rightarrow> bool \<Rightarrow> ('t, 'c, AgentDataSourceContext) driver_act" where
  "new_AgentDataSourceContext W junk i skip = read_agent i (\<lambda>agent.
     case (internalInputFile agent, junk) of ((inode_id, fs), (junk_length, junk_rest, junk_size, junk_eof)) \<Rightarrow>
       and_then (plainly (on_fs W (fs_index fs)
         (new_FileDataSourceContext (w_db W) junk_length (fs_of W fs) inode_id 0 BufferSize))) (\<lambda>base.
       let x = \<lparr>as_base = base, as_fs = fs, as_agent = i, as_skipSending = skip,
                as_remainingTotalSize = junk_rest, as_size = junk_size, as_eof = junk_eof\<rparr>
       in if inputBuffer agent \<noteq> None then ret x
          else if isDatagenAgent agent
          then and_then (datagenLength W i) (\<lambda>l. ret (x\<lparr>as_remainingTotalSize := l\<rparr>))
          else if inode_id \<noteq> 0 then ret x
          else throw (RuntimeError ''Unknown data source'')))"

definition on_source ::
  "('t, 'c, 'o, 'p) world \<Rightarrow> (FileDataSourceContext \<Rightarrow> (('t, 'c) card_ctx, FileDataSourceContext) act) \<Rightarrow>
     AgentDataSourceContext \<Rightarrow> (('t, 'c) driver, AgentDataSourceContext) act" where
  "on_source W f x =
     and_then (on_fs W (fs_index (as_fs x)) (f (as_base x))) (\<lambda>base. ret (x\<lparr>as_base := base\<rparr>))"

definition as_endOfInput :: "AgentDataSourceContext \<Rightarrow> bool" where
  "as_endOfInput x = (if f_inode_id (as_base x) \<noteq> 0 then source_endOfInput (as_base x) else as_eof x)"

definition as_dataSource :: "AgentDataSourceContext \<Rightarrow> (('t, 'c) driver, DataSource) act" where
  "as_dataSource x = read_agent (as_agent x) (\<lambda>agent.
     case inputBuffer agent of
       Some b \<Rightarrow> ret \<lparr>ds_address = buffer_current b, ds_size = as_size x, ds_addressType = Host, ds_mapType = MapNone\<rparr>
     | None \<Rightarrow>
         if isDatagenAgent agent
         then ret \<lparr>ds_address = 0, ds_size = as_size x, ds_addressType = Random, ds_mapType = MapNone\<rparr>
         else if f_inode_id (as_base x) \<noteq> 0 then ret (s_dataSource (as_base x))
         else throw ''Unknown data source'')"

definition receive_request :: "nat \<Rightarrow> (('t, 'c) driver, u64 \<times> bool) act" where
  "receive_request i d =
     (case receiveProcessingRequest (d_agents d ! i) of
        None \<Rightarrow> None
      | Some (request, agent) \<Rightarrow> ret request (d\<lparr>d_agents := update_agent (\<lambda>_. agent) i (d_agents d)\<rparr>))"

definition as_configure ::
  "('t, 'c, 'o, 'p) world \<Rightarrow> bool \<Rightarrow> AgentDataSourceContext \<Rightarrow> (('t, 'c) driver, AgentDataSourceContext) act" where
  "as_configure W initial x = read_agent (as_agent x) (\<lambda>agent.
     and_then (if initial \<or> inputBuffer agent \<noteq> None then receive_request (as_agent x) else ret (0, False)) (\<lambda>(sz, eof).
       if inputBuffer agent \<noteq> None then ret (x\<lparr>as_size := sz, as_eof := eof\<rparr>)
       else if isDatagenAgent agent then
         let sz = min (as_remainingTotalSize x) BufferSize
         in ret (x\<lparr>as_size := sz, as_eof := (as_remainingTotalSize x = sz)\<rparr>)
       else if f_inode_id (as_base x) \<noteq> 0 then on_source W (source_configure (w_db W) (w_snap W)) x
       else ret x))"

text \<open>The text of the profiling results of an operator; an unwritten message is \<^term>\<open>None\<close>.\<close>

definition as_message :: "Pipeline \<Rightarrow> OperatorAgent \<Rightarrow> AgentDataSourceContext \<Rightarrow> string option" where
  "as_message p agent x =
     (if isDatagenAgent agent \<or> isMetalCatAgent agent then Some (s_profilingResults (as_base x))
      else case operators p of [] \<Rightarrow> None | oc # _ \<Rightarrow> Some (profilingResults oc))"

definition as_finalize ::
  "('t, 'c, 'o, 'p) world \<Rightarrow> Pipeline \<Rightarrow> AgentDataSourceContext \<Rightarrow> (('t, 'c) driver, AgentDataSourceContext) act" where
  "as_finalize W p x = read_agent (as_agent x) (\<lambda>agent.
     let eof = as_endOfInput x in
     and_then
       (if inputBuffer agent \<noteq> None
        then and_then (write_agent (as_agent x) (\<lambda>a. a\<lparr>inputBuffer := map_option buffer_swap (inputBuffer a)\<rparr>)) (\<lambda>_. ret x)
        else if isDatagenAgent agent then ret (x\<lparr>as_remainingTotalSize := as_remainingTotalSize x - as_size x\<rparr>)
        else if f_inode_id (as_base x) \<noteq> 0 then on_source W (\<lambda>b. ret (source_finalize b)) x
        else ret x) (\<lambda>x.
     and_then
       (if (eof \<or> inputBuffer agent \<noteq> None) \<and> \<not> as_skipSending x
        then write_agent (as_agent x) (sendProcessingResponse
               \<lparr>pr_size = None, pr_eof = eof, pr_message = as_message p agent x\<rparr>)
        else ret ()) (\<lambda>_. ret x)))"

text \<open>As for files, \<open>reportTotalSize\<close> does not override the function of the base class.\<close>

definition agent_source ::
  "('t, 'c, 'o, 'p) world \<Rightarrow> (('t, 'c) driver, AgentDataSourceContext) DataSourceContext" where
  "agent_source W =
     \<lparr>src_configure = as_configure W, src_finalize = as_finalize W, src_dataSource = as_dataSource,
      src_reportTotalSize = (\<lambda>_. 0), src_endOfInput = as_endOfInput,
      src_profilingEnabled = (\<lambda>x. s_profilingEnabled (as_base x)),
      src_setProfilingResults = (\<lambda>t x. x\<lparr>as_base := (as_base x)\<lparr>s_profilingResults := t\<rparr>\<rparr>)\<rparr>"

section \<open>Agents as data sinks\<close>

record AgentDataSinkContext =
  ak_base :: FileDataSinkContext
  ak_fs :: "nat option"
  ak_agent :: nat
  ak_skipReceiving :: bool

definition new_AgentDataSinkContext ::
  "('t, 'c, 'o, 'p) world \<Rightarrow> nat \<Rightarrow> bool \<Rightarrow> ('t, 'c, AgentDataSinkContext) driver_act" where
  "new_AgentDataSinkContext W i skip = read_agent i (\<lambda>agent.
     case internalOutputFile agent of (inode_id, fs) \<Rightarrow>
       and_then (plainly (on_fs W (fs_index fs)
         (new_FileDataSinkContext (w_db W) (fs_of W fs) inode_id 0 BufferSize True))) (\<lambda>base.
       ret \<lparr>ak_base = base, ak_fs = fs, ak_agent = i, ak_skipReceiving = skip\<rparr>))"

definition on_sink ::
  "('t, 'c, 'o, 'p) world \<Rightarrow> (FileDataSinkContext \<Rightarrow> (('t, 'c) card_ctx, FileDataSinkContext) act) \<Rightarrow>
     AgentDataSinkContext \<Rightarrow> (('t, 'c) driver, AgentDataSinkContext) act" where
  "on_sink W f y =
     (if k_inode_id (ak_base y) \<noteq> 0
      then and_then (on_fs W (fs_index (ak_fs y)) (f (ak_base y))) (\<lambda>base. ret (y\<lparr>ak_base := base\<rparr>))
      else ret y)"

definition ak_dataSink :: "AgentDataSinkContext \<Rightarrow> (('t, 'c) driver, DataSink) act" where
  "ak_dataSink y = read_agent (ak_agent y) (\<lambda>agent.
     case outputBuffer agent of
       Some b \<Rightarrow> ret \<lparr>ds_address = buffer_current b, ds_size = BufferSize, ds_addressType = Host, ds_mapType = MapNone\<rparr>
     | None \<Rightarrow>
         if isNullOutput agent
         then ret \<lparr>ds_address = 0, ds_size = 0, ds_addressType = Null, ds_mapType = MapNone\<rparr>
         else if k_inode_id (ak_base y) \<noteq> 0 then ret (k_dataSink (ak_base y))
         else throw ''Unknown data sink'')"

definition ak_configure ::
  "('t, 'c, 'o, 'p) world \<Rightarrow> u64 \<Rightarrow> bool \<Rightarrow> AgentDataSinkContext \<Rightarrow> (('t, 'c) driver, AgentDataSinkContext) act" where
  "ak_configure W inputSize initial y = read_agent (ak_agent y) (\<lambda>agent.
     and_then (if (initial \<or> outputBuffer agent \<noteq> None) \<and> \<not> ak_skipReceiving y
               then receive_request (ak_agent y) else ret (0, False)) (\<lambda>_.
       on_sink W (sink_configure (w_db W) (w_snap W) inputSize) y))"

definition ak_message :: "Pipeline \<Rightarrow> AgentDataSinkContext \<Rightarrow> string" where
  "ak_message p y =
     (if operators p \<noteq> [] then profilingResults (last (operators p)) else k_profilingResults (ak_base y))"

definition ak_finalize ::
  "('t, 'c, 'o, 'p) world \<Rightarrow> Pipeline \<Rightarrow> u64 \<Rightarrow> bool \<Rightarrow> AgentDataSinkContext \<Rightarrow> (('t, 'c) driver, AgentDataSinkContext) act" where
  "ak_finalize W p outputSize endOfInput y = read_agent (ak_agent y) (\<lambda>agent.
     let msg = \<lparr>pr_size = (if outputBuffer agent \<noteq> None then Some outputSize else None), pr_eof = endOfInput,
                pr_message = Some (ak_message p y)\<rparr> in
     and_then
       (if outputBuffer agent \<noteq> None
        then and_then (write_agent (ak_agent y) (\<lambda>a. a\<lparr>outputBuffer := map_option buffer_swap (outputBuffer a)\<rparr>)) (\<lambda>_. ret y)
        else if isNullOutput agent then ret y
        else on_sink W (sink_finalize (w_db W) outputSize endOfInput) y) (\<lambda>y.
     and_then
       (if endOfInput \<or> outputBuffer agent \<noteq> None \<or> inputBuffer agent \<noteq> None
        then write_agent (ak_agent y) (\<lambda>a.
               let a = sendProcessingResponse msg a in if endOfInput then a\<lparr>terminated := True\<rparr> else a)
        else ret ()) (\<lambda>_. ret y)))"

definition agent_sink ::
  "('t, 'c, 'o, 'p) world \<Rightarrow> (('t, 'c) driver, AgentDataSinkContext) DataSinkContext" where
  "agent_sink W =
     \<lparr>snk_configure = ak_configure W, snk_finalize = ak_finalize W,
      snk_prepareForTotalSize = (\<lambda>sz. on_sink W (prepareForTotalSize (w_db W) sz)),
      snk_dataSink = ak_dataSink, snk_profilingEnabled = (\<lambda>y. k_profilingEnabled (ak_base y)),
      snk_setProfilingResults = (\<lambda>t y. y\<lparr>ak_base := (ak_base y)\<lparr>k_profilingResults := t\<rparr>\<rparr>)\<rparr>"

section \<open>The loop\<close>

definition set_profiling ::
  "bool \<Rightarrow> Pipeline \<Rightarrow> AgentDataSourceContext \<Rightarrow> AgentDataSinkContext \<Rightarrow> AgentDataSourceContext \<times> AgentDataSinkContext" where
  "set_profiling enabled p x y =
     (if operators p = [] then (x, y\<lparr>ak_base := (ak_base y)\<lparr>k_profilingEnabled := enabled\<rparr>\<rparr>)
      else (x\<lparr>as_base := (as_base x)\<lparr>s_profilingEnabled := enabled\<rparr>\<rparr>, y))"

definition loop_profiling ::
  "('t, 'c, 'o, 'p) world \<Rightarrow> nat \<Rightarrow> Pipeline \<Rightarrow> AgentDataSourceContext \<Rightarrow> AgentDataSinkContext \<Rightarrow>
     ('t, 'c, AgentDataSourceContext \<times> AgentDataSinkContext) driver_act" where
  "loop_profiling W i p x y = read_agent i (\<lambda>agent.
     if isDatagenAgent agent then
       and_then (datagen_isProfilingEnabled W i) (\<lambda>enabled. ret (set_profiling enabled p x y))
     else if isMetalCatAgent agent then
       and_then (metal_cat_isProfilingEnabled W i) (\<lambda>enabled. ret (set_profiling enabled p x y))
     else ret (x, y))"

fun wait_ready :: "nat list \<Rightarrow> (('t, 'c) driver, unit) act" where
  "wait_ready [] = ret ()"
| "wait_ready (i # is) = and_then (receive_request i) (\<lambda>_. wait_ready is)"

partial_function (option) run_loop ::
  "('t, 'c, 'o, 'p) world \<Rightarrow> (ProfilingResults \<Rightarrow> bool \<Rightarrow> bool \<Rightarrow> string) \<Rightarrow> AgentDataSourceContext \<Rightarrow>
     AgentDataSinkContext \<Rightarrow> Runner \<Rightarrow> ('t, 'c) driver \<Rightarrow> ((string + Runner) \<times> ('t, 'c) driver) option" where
  "run_loop W format x y r d =
     (case Runner_run (card_lib W) format (agent_source W) (agent_sink W) x y r d of
        None \<Rightarrow> None
      | Some (res, d) \<Rightarrow>
          (case res of
             Inl e \<Rightarrow> Some (Inl e, d)
           | Inr ((outputSize, endOfInput), x, y, r) \<Rightarrow>
               if endOfInput then Some (Inr r, d) else run_loop W format x y r d))"

text \<open>
  The last messages: the operators are counted from the first one, also where the agent of the data
  source, which gets none of these messages, is the agent of the first operator.  Past the last
  operator nothing is defined.
\<close>

fun send_results :: "nat list \<Rightarrow> OperatorContext list \<Rightarrow> (('t, 'c) driver, unit) act" where
  "send_results [] ocs = ret ()"
| "send_results (i # is) [] = undefined_behaviour"
| "send_results (i # is) (oc # ocs) =
     and_then (write_agent i (sendProcessingResponse
       \<lparr>pr_size = None, pr_eof = True, pr_message = Some (profilingResults oc)\<rparr>)) (\<lambda>_. send_results is ocs)"

definition idle_agents :: "ConfiguredPipeline \<Rightarrow> nat list" where
  "idle_agents cp = filter (\<lambda>i. i \<noteq> dataSourceAgent cp \<and> i \<noteq> dataSinkAgent cp) (operatorAgents cp)"

definition PipelineLoop_run ::
  "('t, 'c, 'o, 'p) world \<Rightarrow> (ProfilingResults \<Rightarrow> bool \<Rightarrow> bool \<Rightarrow> string) \<Rightarrow> u64 \<times> u64 \<times> u64 \<times> bool \<Rightarrow> int \<Rightarrow>
     ConfiguredPipeline \<Rightarrow> ('t, 'c, unit) driver_act" where
  "PipelineLoop_run W format junk card_no cp =
     (let singleStagePipeline = (dataSourceAgent cp = dataSinkAgent cp) in
      and_then (new_AgentDataSourceContext W junk (dataSourceAgent cp) singleStagePipeline) (\<lambda>x.
      and_then (new_AgentDataSinkContext W (dataSinkAgent cp) singleStagePipeline) (\<lambda>y.
      and_then (loop_profiling W (dataSourceAgent cp) (cp_pipeline cp) x y) (\<lambda>(x, y).
      and_then (plainly (wait_ready (idle_agents cp))) (\<lambda>_.
      and_then (plainly (run_loop W format x y (new_Runner True card_no (cp_pipeline cp)))) (\<lambda>r.
        plainly (send_results (idle_agents cp) (operators (pipeline r)))))))))"

text \<open>The try block of the server: a client error is for its agent, any other exception is only logged.\<close>

definition run_pipeline ::
  "('t, 'c, 'o, 'p) world \<Rightarrow> (ProfilingResults \<Rightarrow> bool \<Rightarrow> bool \<Rightarrow> string) \<Rightarrow> u64 \<times> u64 \<times> u64 \<times> bool \<Rightarrow> int \<Rightarrow>
     OperatorFactory \<Rightarrow> nat list \<Rightarrow> OperatorAgent list \<Rightarrow> 'c \<times> (nat \<Rightarrow> ('t, unit) mtl_context) \<Rightarrow>
     ((nat \<times> string) option \<times> OperatorAgent list \<times> 'c \<times> (nat \<Rightarrow> ('t, unit) mtl_context)) option" where
  "run_pipeline W format junk card_no registry cs A = (\<lambda>(c, fss).
     map_option (\<lambda>(r, d).
         (case r of Inl (ClientError i e) \<Rightarrow> Some (i, e) | _ \<Rightarrow> None, d_agents d, d_card d, d_fs d))
       (and_then (PipelineBuilder_configure W registry cs) (PipelineLoop_run W format junk card_no)
         \<lparr>d_card = c, d_agents = A, d_fs = fss\<rparr>))"

end
