(* ===== verification/Protocol.thy ===== *)
theory Protocol
  imports Placeholder Loop
begin

text \<open>
  A process and the driver's loop together: a pipeline of one operator whose process (agent \<open>0\<close>) feeds
  the data source and takes the output.  The process and the thread of the driver run concurrently;
  they share the two halves of the input and of the output buffer and exchange messages.  The steps
  are those of the code: on the driver's side \<open>configure\<close> of both contexts, the run of the pipeline
  with \<open>finalize\<close> of both contexts; on the process's side the parts of its loop.

  What the operators make of the data is a function \<open>f\<close> of the number of the run and its input.
\<close>

section \<open>Steps\<close>

datatype pc = Sending | Writing | Reading | Waiting | Exited

record ('t, 'c) system =
  sy_client :: client
  sy_pc :: pc
  sy_resp :: ProcessingResponse
  sy_in :: halves
  sy_out :: halves
  sy_driver :: "('t, 'c) driver"
  sy_source :: AgentDataSourceContext
  sy_sink :: AgentDataSinkContext
  sy_busy :: bool \<comment> \<open>between \<open>configure\<close> and \<open>finalize\<close>\<close>
  sy_ended :: bool
  sy_log :: "bytes list" \<comment> \<open>the inputs of the runs\<close>

definition the_agent :: "('t, 'c) system \<Rightarrow> OperatorAgent" where
  "the_agent s = d_agents (sy_driver s) ! 0"

text \<open>The half of a buffer at an address that \<open>buffer_current\<close> has given.\<close>

definition half_at :: "buffer \<Rightarrow> u64 \<Rightarrow> bool" where
  "half_at b a = (a = b_base b + BufferSize)"

definition client_sends :: "('t, 'c) system \<Rightarrow> ('t, 'c) system" where
  "client_sends s = s\<lparr>sy_pc := Writing,
     sy_driver := (sy_driver s)\<lparr>d_agents := update_agent
       (\<lambda>a. a\<lparr>inbox := inbox a @ client_request (sy_client s) (sy_resp s)\<rparr>) 0 (d_agents (sy_driver s))\<rparr>\<rparr>"

definition client_writes :: "('t, 'c) system \<Rightarrow> ('t, 'c) system" where
  "client_writes s = s\<lparr>sy_pc := (if pr_eof (sy_resp s) then Exited else Reading),
     sy_client := client_write (sy_client s) (sy_resp s) (sy_out s)\<rparr>"

definition client_reads :: "('t, 'c) system \<Rightarrow> ('t, 'c) system" where
  "client_reads s =
     (case client_next (sy_client s) (sy_in s) of
        (c, m) \<Rightarrow> s\<lparr>sy_pc := Waiting, sy_client := c, sy_in := m\<rparr>)"

definition client_receives :: "('t, 'c) system \<Rightarrow> ('t, 'c) system" where
  "client_receives s = s\<lparr>sy_pc := Sending, sy_resp := hd (processing_responses (the_agent s)),
     sy_driver := (sy_driver s)\<lparr>d_agents := update_agent
       (\<lambda>a. a\<lparr>processing_responses := tl (processing_responses a)\<rparr>) 0 (d_agents (sy_driver s))\<rparr>\<rparr>"

text \<open>
  The driver's side: the calls of \<open>configure\<close>, then the pipeline from the address of the data source to
  that of the data sink (unless there is no data), then the calls of \<open>finalize\<close>.
\<close>

definition configure_both ::
  "('t, 'c, 'o, 'p) world \<Rightarrow> bool \<Rightarrow> AgentDataSourceContext \<Rightarrow> AgentDataSinkContext \<Rightarrow>
     (('t, 'c) driver, AgentDataSourceContext \<times> AgentDataSinkContext) act" where
  "configure_both W initial x y =
     and_then (as_configure W initial x) (\<lambda>x.
     and_then (as_dataSource x) (\<lambda>d.
     and_then (ak_configure W (ucast (a_size (address d))) initial y) (\<lambda>y. ret (x, y))))"

definition finalize_both ::
  "('t, 'c, 'o, 'p) world \<Rightarrow> Pipeline \<Rightarrow> u64 \<Rightarrow> AgentDataSourceContext \<Rightarrow> AgentDataSinkContext \<Rightarrow>
     (('t, 'c) driver, AgentDataSourceContext \<times> AgentDataSinkContext) act" where
  "finalize_both W p outputSize x y =
     (let endOfInput = as_endOfInput x in
      and_then (as_finalize W p x) (\<lambda>x.
      and_then (ak_finalize W p outputSize endOfInput y) (\<lambda>y. ret (x, y))))"

inductive step ::
  "('t, 'c, 'o, 'p) world \<Rightarrow> Pipeline \<Rightarrow> (nat \<Rightarrow> bytes \<Rightarrow> bytes) \<Rightarrow> ('t, 'c) system \<Rightarrow> ('t, 'c) system \<Rightarrow> bool"
  for W p f where
  c_send: "sy_pc s = Sending \<Longrightarrow> step W p f s (client_sends s)"
| c_write: "sy_pc s = Writing \<Longrightarrow> step W p f s (client_writes s)"
| c_read: "sy_pc s = Reading \<Longrightarrow> step W p f s (client_reads s)"
| c_receive: "sy_pc s = Waiting \<Longrightarrow> processing_responses (the_agent s) \<noteq> [] \<Longrightarrow> step W p f s (client_receives s)"
| s_begin:
    "\<not> sy_busy s \<Longrightarrow> \<not> sy_ended s \<Longrightarrow>
     configure_both W (sy_log s = []) (sy_source s) (sy_sink s) (sy_driver s) = Some (Inr (x, y), d) \<Longrightarrow>
     step W p f s (s\<lparr>sy_source := x, sy_sink := y, sy_driver := d, sy_busy := True\<rparr>)"
| s_end:
    "sy_busy s \<Longrightarrow> inputBuffer (the_agent s) = Some bi \<Longrightarrow> outputBuffer (the_agent s) = Some bo \<Longrightarrow>
     as_dataSource (sy_source s) (sy_driver s) = Some (Inr ds, sy_driver s) \<Longrightarrow>
     ak_dataSink (sy_sink s) (sy_driver s) = Some (Inr dk, sy_driver s) \<Longrightarrow>
     data = take (unat (ds_size ds)) (sy_in s (half_at bi (ds_address ds))) \<Longrightarrow>
     out = (if ds_size ds = 0 then [] else f (length (sy_log s)) data) \<Longrightarrow>
     finalize_both W p (word_of_nat (length out)) (sy_source s) (sy_sink s) (sy_driver s) = Some (Inr (x, y), d) \<Longrightarrow>
     step W p f s (s\<lparr>sy_source := x, sy_sink := y, sy_driver := d, sy_busy := False,
       sy_ended := as_endOfInput (sy_source s), sy_log := sy_log s @ [data],
       sy_out := put_half (half_at bo (ds_address dk)) out (sy_out s)\<rparr>)"

inductive_cases stepE: "step W p f s s'"

text \<open>The system when the process has read its first input and the driver enters its loop.\<close>

definition start_ok :: "bytes \<Rightarrow> ('t, 'c) system \<Rightarrow> bool" where
  "start_ok input s \<longleftrightarrow>
     d_agents (sy_driver s) \<noteq> [] \<and> sy_pc s = Sending \<and> sy_resp s = no_response \<and> \<not> sy_busy s \<and> \<not> sy_ended s \<and> sy_log s = [] \<and>
     (\<exists>m. (sy_client s, sy_in s) = client_read \<lparr>c_input = input, c_in = Some False, c_out = Some False,
        c_bytesRead = 0, c_eof = False, c_stdout = [], c_stderr = []\<rparr> m) \<and>
     (\<exists>bi bo. inputBuffer (the_agent s) = Some bi \<and> outputBuffer (the_agent s) = Some bo \<and>
        \<not> b_current bi \<and> \<not> b_current bo) \<and>
     inbox (the_agent s) = [] \<and> processing_responses (the_agent s) = [] \<and>
     as_agent (sy_source s) = 0 \<and> as_skipSending (sy_source s) \<and> f_inode_id (as_base (sy_source s)) = 0 \<and>
     ak_agent (sy_sink s) = 0 \<and> ak_skipReceiving (sy_sink s) \<and> k_inode_id (ak_base (sy_sink s)) = 0"

text \<open>What is reached after \<open>n\<close> steps.\<close>

inductive reachable ::
  "('t, 'c, 'o, 'p) world \<Rightarrow> Pipeline \<Rightarrow> (nat \<Rightarrow> bytes \<Rightarrow> bytes) \<Rightarrow> ('t, 'c) system \<Rightarrow> nat \<Rightarrow> ('t, 'c) system \<Rightarrow> bool"
  for W p f s0 where
  start: "reachable W p f s0 0 s0"
| more: "reachable W p f s0 n s \<Longrightarrow> step W p f s s' \<Longrightarrow> reachable W p f s0 (Suc n) s'"

section \<open>The driver's side of a run\<close>

lemma half_at_current [simp]: "half_at b (buffer_current b) = b_current b"
  by (simp add: half_at_def buffer_current_def)

lemma configure_both_eq:
  assumes "d_agents d \<noteq> []" "as_agent x = 0" "ak_agent y = 0" "ak_skipReceiving y" "k_inode_id (ak_base y) = 0"
    and "inputBuffer (d_agents d ! 0) \<noteq> None"
  shows "configure_both W initial x y d =
    (case inbox (d_agents d ! 0) of
       [] \<Rightarrow> None
     | (sz, eof) # ms \<Rightarrow> Some (Inr (x\<lparr>as_size := sz, as_eof := eof\<rparr>, y),
         d\<lparr>d_agents := update_agent (\<lambda>a. a\<lparr>inbox := ms\<rparr>) 0 (d_agents d)\<rparr>))"
  using assms
  by (auto simp: configure_both_def as_configure_def as_dataSource_def ak_configure_def read_agent_def and_then_def
      receive_request_def receiveProcessingRequest_def on_sink_def update_agent_def ret_def split: list.splits option.splits)

lemma finalize_both_eq:
  assumes "d_agents d \<noteq> []" "as_agent x = 0" "as_skipSending x" "ak_agent y = 0"
    and "inputBuffer (d_agents d ! 0) = Some bi" "outputBuffer (d_agents d ! 0) = Some bo"
  shows "finalize_both W p sz x y d =
    Some (Inr (x, y), d\<lparr>d_agents := update_agent (\<lambda>a. a\<lparr>inputBuffer := Some (buffer_swap bi),
      outputBuffer := Some (buffer_swap bo),
      processing_responses := processing_responses a @
        [\<lparr>pr_size = Some sz, pr_eof = as_endOfInput x, pr_message = Some (ak_message p y)\<rparr>],
      terminated := terminated a \<or> as_endOfInput x\<rparr>) 0 (d_agents d)\<rparr>)"
  using assms
  by (cases "d_agents d")
    (auto simp: finalize_both_def as_finalize_def ak_finalize_def read_agent_def and_then_def write_agent_def
      sendProcessingResponse_def update_agent_def ret_def Let_def)

end
