(* ===== verification/Agents_Props.thy ===== *)
theory Agents_Props
  imports Agents
begin

text \<open>
  The agent pool finds the pipeline of the connected operators: in whatever order the processes of a
  shell pipeline register, the chain is complete with the last of them and is found in its order.
\<close>

section \<open>Connecting agents\<close>

text \<open>What connecting agents does not change.\<close>

abbreviation static :: "OperatorAgent \<Rightarrow> OperatorAgent" where
  "static a \<equiv> a\<lparr>outputAgent := None\<rparr>"

lemma static_eq:
  assumes "static a = static b"
  shows "pid a = pid b" "outputAgentPid a = outputAgentPid b" "isOutputAgent a = isOutputAgent b"
    "isInputAgent a = isInputAgent b"
proof -
  have "pid (static a) = pid (static b)" "outputAgentPid (static a) = outputAgentPid (static b)"
    "inputAgentPid (static a) = inputAgentPid (static b)" using assms by simp_all
  then show "pid a = pid b" "outputAgentPid a = outputAgentPid b" "isOutputAgent a = isOutputAgent b"
    "isInputAgent a = isInputAgent b" by (simp_all add: isOutputAgent_def isInputAgent_def)
qed

lemma connect_one:
  assumes "n < length A" "b < length A" "b \<noteq> n"
  shows "length (connect_agents n b A) = length A"
    "i < length A \<Longrightarrow> static (connect_agents n b A ! i) = static (A ! i)"
    "i < length A \<Longrightarrow> i \<noteq> n \<Longrightarrow> outputAgent (connect_agents n b A ! i) =
      (if i = b \<and> outputAgentPid (A ! i) = pid (A ! n) then Some n else outputAgent (A ! i))"
    "outputAgentPid (A ! b) \<noteq> pid (A ! n) \<Longrightarrow> outputAgent (connect_agents n b A ! n) =
      (if outputAgentPid (A ! n) = pid (A ! b) then Some b else outputAgent (A ! n))"
    "outputAgentPid (A ! n) \<noteq> pid (A ! b) \<Longrightarrow> outputAgent (connect_agents n b A ! n) = outputAgent (A ! n)"
  using assms by (auto simp: connect_agents_def isOutputConnectedTo_def nth_list_update)

lemma connect_all:
  assumes "length A = Suc n" "set bs \<subseteq> {..<n}" "distinct bs"
    and "\<And>b c. b \<in> set bs \<Longrightarrow> c \<in> set bs \<Longrightarrow> pid (A ! b) = pid (A ! c) \<Longrightarrow> b = c"
    and "\<And>b. b \<in> set bs \<Longrightarrow> outputAgentPid (A ! b) = pid (A ! n) \<Longrightarrow> outputAgentPid (A ! n) \<noteq> pid (A ! b)"
  defines "B \<equiv> fold (connect_agents n) bs A"
  shows "length B = Suc n \<and> (\<forall>i \<le> n. static (B ! i) = static (A ! i)) \<and>
    (\<forall>i < n. outputAgent (B ! i) =
       (if i \<in> set bs \<and> outputAgentPid (A ! i) = pid (A ! n) then Some n else outputAgent (A ! i))) \<and>
    (\<forall>b \<in> set bs. outputAgentPid (A ! n) = pid (A ! b) \<longrightarrow> outputAgent (B ! n) = Some b) \<and>
    ((\<forall>b \<in> set bs. outputAgentPid (A ! n) \<noteq> pid (A ! b)) \<longrightarrow> outputAgent (B ! n) = outputAgent (A ! n))"
  using assms(1-5) unfolding B_def
proof (induction bs arbitrary: A)
  case (Cons b bs)
  let ?C = "connect_agents n b A"
  have bn: "n < length A" "b < length A" "b \<noteq> n" "b < n" using Cons.prems(1,2) by auto
  note c = connect_one [OF bn(1-3)]
  have st: "pid (?C ! i) = pid (A ! i)" "outputAgentPid (?C ! i) = outputAgentPid (A ! i)" if "i \<le> n" for i
    using static_eq [OF c(2) [of i]] that Cons.prems(1) by auto
  have stb: "pid (?C ! i) = pid (A ! i)" "outputAgentPid (?C ! i) = outputAgentPid (A ! i)" if "i \<in> set bs" for i
    using that Cons.prems(2) st [of i] by auto
  have ih: "length (fold (connect_agents n) bs ?C) = Suc n \<and>
    (\<forall>i \<le> n. static (fold (connect_agents n) bs ?C ! i) = static (?C ! i)) \<and>
    (\<forall>i < n. outputAgent (fold (connect_agents n) bs ?C ! i) =
       (if i \<in> set bs \<and> outputAgentPid (?C ! i) = pid (?C ! n) then Some n else outputAgent (?C ! i))) \<and>
    (\<forall>b \<in> set bs. outputAgentPid (?C ! n) = pid (?C ! b) \<longrightarrow> outputAgent (fold (connect_agents n) bs ?C ! n) = Some b) \<and>
    ((\<forall>b \<in> set bs. outputAgentPid (?C ! n) \<noteq> pid (?C ! b)) \<longrightarrow>
       outputAgent (fold (connect_agents n) bs ?C ! n) = outputAgent (?C ! n))"
  proof (rule Cons.IH)
    show "length ?C = Suc n" using c(1) Cons.prems(1) by simp
    show "set bs \<subseteq> {..<n}" "distinct bs" using Cons.prems(2,3) by auto
    show "\<And>x y. x \<in> set bs \<Longrightarrow> y \<in> set bs \<Longrightarrow> pid (?C ! x) = pid (?C ! y) \<Longrightarrow> x = y"
      using Cons.prems(4) stb(1) by auto
    show "\<And>x. x \<in> set bs \<Longrightarrow> outputAgentPid (?C ! x) = pid (?C ! n) \<Longrightarrow> outputAgentPid (?C ! n) \<noteq> pid (?C ! x)"
      using Cons.prems(5) stb st [of n] by auto
  qed
  have other: "outputAgent (?C ! i) = (if i = b \<and> outputAgentPid (A ! i) = pid (A ! n) then Some n else outputAgent (A ! i))"
    if "i < n" for i using c(3) [of i] that Cons.prems(1) by auto
  have new: "outputAgent (?C ! n) = (if outputAgentPid (A ! n) = pid (A ! b) then Some b else outputAgent (A ! n))"
    using c(4,5) Cons.prems(5) [of b] by (cases "outputAgentPid (A ! b) = pid (A ! n)") auto
  have uniq: "outputAgentPid (A ! n) \<noteq> pid (A ! x)" if "outputAgentPid (A ! n) = pid (A ! b)" "x \<in> set bs" for x
    using Cons.prems(3) Cons.prems(4) [of b x] that by auto
  show ?case
    unfolding fold.simps comp_def
  proof (intro conjI)
    show "length (fold (connect_agents n) bs ?C) = Suc n" using ih by blast
    show "\<forall>i \<le> n. static (fold (connect_agents n) bs ?C ! i) = static (A ! i)"
      using ih c(2) Cons.prems(1) by simp
    show "\<forall>i < n. outputAgent (fold (connect_agents n) bs ?C ! i) =
       (if i \<in> set (b # bs) \<and> outputAgentPid (A ! i) = pid (A ! n) then Some n else outputAgent (A ! i))"
      using ih st other by auto
    show "\<forall>x \<in> set (b # bs). outputAgentPid (A ! n) = pid (A ! x) \<longrightarrow> outputAgent (fold (connect_agents n) bs ?C ! n) = Some x"
      using ih stb st [of n] new uniq by auto
    show "(\<forall>x \<in> set (b # bs). outputAgentPid (A ! n) \<noteq> pid (A ! x)) \<longrightarrow>
        outputAgent (fold (connect_agents n) bs ?C ! n) = outputAgent (A ! n)"
      using ih stb st [of n] new by auto
  qed
qed simp

section \<open>A pool of registered agents\<close>

definition empty_pool :: AgentPool where
  "empty_pool = \<lparr>agents = [], registered_agents = [], pipeline_agents = [], contains_valid_pipeline_cached = False\<rparr>"

text \<open>The pool after the requests have arrived, each with the messages its process will send.\<close>

definition register_all :: "(RegistrationRequest \<times> (u64 \<times> bool) list) list \<Rightarrow> AgentPool" where
  "register_all reqs = fold (\<lambda>(request, later). registerAgent request later) reqs empty_pool"

abbreviation req_pid :: "(RegistrationRequest \<times> (u64 \<times> bool) list) list \<Rightarrow> nat \<Rightarrow> u32" where
  "req_pid reqs i \<equiv> ucast (rq_pid (fst (reqs ! i)))"

abbreviation req_out :: "(RegistrationRequest \<times> (u64 \<times> bool) list) list \<Rightarrow> nat \<Rightarrow> u32" where
  "req_out reqs i \<equiv> ucast (rq_output_pid (fst (reqs ! i)))"

abbreviation req_in :: "(RegistrationRequest \<times> (u64 \<times> bool) list) list \<Rightarrow> nat \<Rightarrow> u32" where
  "req_in reqs i \<equiv> ucast (rq_input_pid (fst (reqs ! i)))"

text \<open>All agents are registered, and each one points to the agent it feeds, if that one is there.\<close>

definition pool_ok :: "(RegistrationRequest \<times> (u64 \<times> bool) list) list \<Rightarrow> AgentPool \<Rightarrow> bool" where
  "pool_ok reqs pool \<longleftrightarrow>
     length (agents pool) = length reqs \<and> registered_agents pool = [0..<length reqs] \<and>
     \<not> contains_valid_pipeline_cached pool \<and>
     (\<forall>i < length reqs. static (agents pool ! i) = new_OperatorAgent (fst (reqs ! i)) (snd (reqs ! i)) \<and>
        (\<forall>j. outputAgent (agents pool ! i) = Some j \<longleftrightarrow> j < length reqs \<and> j \<noteq> i \<and> req_out reqs i = req_pid reqs j))"

text \<open>Different processes have different numbers, and no two of them feed each other.\<close>

definition reqs_ok :: "(RegistrationRequest \<times> (u64 \<times> bool) list) list \<Rightarrow> bool" where
  "reqs_ok reqs \<longleftrightarrow>
     (\<forall>i < length reqs. \<forall>j < length reqs. i \<noteq> j \<longrightarrow>
        req_pid reqs i \<noteq> req_pid reqs j \<and> \<not> (req_out reqs i = req_pid reqs j \<and> req_out reqs j = req_pid reqs i))"

lemma static_fields:
  assumes "static a = new_OperatorAgent r later"
  shows "pid a = ucast (rq_pid r)" "outputAgentPid a = ucast (rq_output_pid r)"
    "isOutputAgent a \<longleftrightarrow> (ucast (rq_output_pid r) :: u32) = 0" "isInputAgent a \<longleftrightarrow> (ucast (rq_input_pid r) :: u32) = 0"
proof -
  have "pid (static a) = ucast (rq_pid r)" "outputAgentPid (static a) = ucast (rq_output_pid r)"
    "inputAgentPid (static a) = ucast (rq_input_pid r)"
    unfolding assms by (simp_all add: new_OperatorAgent_def)
  then show "pid a = ucast (rq_pid r)" "outputAgentPid a = ucast (rq_output_pid r)"
    "isOutputAgent a \<longleftrightarrow> (ucast (rq_output_pid r) :: u32) = 0" "isInputAgent a \<longleftrightarrow> (ucast (rq_input_pid r) :: u32) = 0"
    by (simp_all add: isOutputAgent_def isInputAgent_def)
qed

lemma register_one:
  assumes "pool_ok reqs pool" "reqs_ok (reqs @ [(r, later)])"
  shows "pool_ok (reqs @ [(r, later)]) (registerAgent r later pool)"
proof -
  let ?n = "length reqs" and ?a = "new_OperatorAgent r later" and ?rs = "reqs @ [(r, later)]"
  let ?A = "agents pool @ [?a]" and ?B = "fold (connect_agents (length reqs)) [0..<length reqs] (agents pool @ [new_OperatorAgent r later])"
  have p: "length (agents pool) = ?n" "registered_agents pool = [0..<?n]"
    using assms(1) by (simp_all add: pool_ok_def)
  then have An: "?A ! ?n = ?a" by (metis nth_append_length)
  have old: "static (agents pool ! i) = new_OperatorAgent (fst (reqs ! i)) (snd (reqs ! i))"
      "\<And>j. outputAgent (agents pool ! i) = Some j \<longleftrightarrow> j < ?n \<and> j \<noteq> i \<and> req_out reqs i = req_pid reqs j" if "i < ?n" for i
    using assms(1) that by (auto simp: pool_ok_def)
  have A: "pid (?A ! i) = req_pid ?rs i" "outputAgentPid (?A ! i) = req_out ?rs i" if "i \<le> ?n" for i
    using static_fields [OF old(1) [of i]] that p(1)
    by (cases "i = ?n"; simp add: nth_append new_OperatorAgent_def)+
  have no: "req_pid ?rs i \<noteq> req_pid ?rs j" "\<not> (req_out ?rs i = req_pid ?rs j \<and> req_out ?rs j = req_pid ?rs i)"
    if "i \<le> ?n" "j \<le> ?n" "i \<noteq> j" for i j
    using assms(2) that unfolding reqs_ok_def by (auto simp only: length_append_singleton less_Suc_eq_le)
  have all: "length ?B = Suc ?n \<and> (\<forall>i \<le> ?n. static (?B ! i) = static (?A ! i)) \<and>
    (\<forall>i < ?n. outputAgent (?B ! i) =
       (if i \<in> set [0..<?n] \<and> outputAgentPid (?A ! i) = pid (?A ! ?n) then Some ?n else outputAgent (?A ! i))) \<and>
    (\<forall>b \<in> set [0..<?n]. outputAgentPid (?A ! ?n) = pid (?A ! b) \<longrightarrow> outputAgent (?B ! ?n) = Some b) \<and>
    ((\<forall>b \<in> set [0..<?n]. outputAgentPid (?A ! ?n) \<noteq> pid (?A ! b)) \<longrightarrow> outputAgent (?B ! ?n) = outputAgent (?A ! ?n))"
  proof (rule connect_all)
    show "\<And>b c. b \<in> set [0..<?n] \<Longrightarrow> c \<in> set [0..<?n] \<Longrightarrow> pid (?A ! b) = pid (?A ! c) \<Longrightarrow> b = c"
    proof -
      fix b c assume "b \<in> set [0..<?n]" "c \<in> set [0..<?n]" "pid (?A ! b) = pid (?A ! c)"
      then show "b = c" using no(1) [of b c] A(1) [of b] A(1) [of c] by force
    qed
    show "\<And>b. b \<in> set [0..<?n] \<Longrightarrow> outputAgentPid (?A ! b) = pid (?A ! ?n) \<Longrightarrow> outputAgentPid (?A ! ?n) \<noteq> pid (?A ! b)"
    proof -
      fix b assume "b \<in> set [0..<?n]" "outputAgentPid (?A ! b) = pid (?A ! ?n)"
      then show "outputAgentPid (?A ! ?n) \<noteq> pid (?A ! b)"
        using no(2) [of b ?n] A [of b] A [of ?n] by force
    qed
  qed (use p in auto)
  have st: "static (?B ! i) = new_OperatorAgent (fst (?rs ! i)) (snd (?rs ! i))" if "i \<le> ?n" for i
  proof (cases "i = ?n")
    case True
    have "static (?B ! ?n) = static ?a" using all An by auto
    then show ?thesis using True by (simp add: new_OperatorAgent_def)
  next
    case False
    then show ?thesis using all old(1) [of i] that p(1) by (simp add: nth_append)
  qed
  have out: "outputAgent (?B ! i) = Some j \<longleftrightarrow> j \<le> ?n \<and> j \<noteq> i \<and> req_out ?rs i = req_pid ?rs j" if i: "i \<le> ?n" for i j
  proof (cases "i = ?n")
    case True
    have links: "\<forall>b < ?n. req_out ?rs ?n = req_pid ?rs b \<longrightarrow> outputAgent (?B ! ?n) = Some b"
      "(\<forall>b < ?n. req_out ?rs ?n \<noteq> req_pid ?rs b) \<longrightarrow> outputAgent (?B ! ?n) = None"
      using all A [of ?n] A(1) An by (auto simp: new_OperatorAgent_def)
    show ?thesis
    proof (cases "\<exists>b < ?n. req_out ?rs ?n = req_pid ?rs b")
      case ex: True
      then obtain b where b: "b < ?n" "req_out ?rs ?n = req_pid ?rs b" by blast
      then have "outputAgent (?B ! ?n) = Some b" using links(1) by blast
      moreover have "j = b" if "j \<le> ?n" "j \<noteq> ?n" "req_out ?rs ?n = req_pid ?rs j" for j
        using no(1) [of j b] b that by fastforce
      ultimately show ?thesis using True b by (auto simp del: nth_append_length)
    next
      case no_ex: False
      then have "outputAgent (?B ! ?n) = None" using links(2) by blast
      then show ?thesis using True no_ex by (metis le_neq_implies_less option.distinct(1))
    qed
  next
    case False
    then have i: "i < ?n" using i by simp
    have rs: "req_out ?rs i = req_out reqs i" "\<And>k. k < ?n \<Longrightarrow> req_pid ?rs k = req_pid reqs k"
      using i by (simp_all add: nth_append)
    have o: "outputAgent (?B ! i) = (if req_out ?rs i = req_pid ?rs ?n then Some ?n else outputAgent (agents pool ! i))"
      using all A [of i] A [of ?n] i p(1) by (auto simp: nth_append)
    show ?thesis
    proof (cases "req_out ?rs i = req_pid ?rs ?n")
      case True
      have "req_pid ?rs j \<noteq> req_pid ?rs ?n" if "j < ?n" for j using no(1) [of j ?n] that by simp
      then show ?thesis using o True i by (metis le_neq_implies_less le_refl less_irrefl option.inject)
    next
      case ne: False
      then have "outputAgent (?B ! i) = outputAgent (agents pool ! i)" using o by presburger
      then show ?thesis
        using old(2) [OF i, of j] ne rs by (metis le_neq_implies_less less_imp_le_nat)
    qed
  qed
  show ?thesis
    unfolding pool_ok_def registerAgent_def Let_def p
    using all st out by (simp add: less_Suc_eq_le del: nth_append_length)
qed

lemma pool_ok_take:
  assumes "reqs_ok reqs" "m \<le> length reqs"
  shows "pool_ok (take m reqs) (register_all (take m reqs))"
  using assms(2)
proof (induction m)
  case 0
  then show ?case by (simp add: register_all_def pool_ok_def empty_pool_def)
next
  case (Suc m)
  obtain r later where r: "reqs ! m = (r, later)" by fastforce
  then have t: "take (Suc m) reqs = take m reqs @ [(r, later)]"
    using Suc.prems by (simp add: take_Suc_conv_app_nth)
  have "reqs_ok (take (Suc m) reqs)" using assms(1) by (simp add: reqs_ok_def)
  then show ?case using register_one Suc t by (simp add: register_all_def)
qed

section \<open>Finding the pipeline\<close>

text \<open>
  The requests of a shell pipeline: \<open>cs\<close> are the processes in the order of the pipeline, the first
  one has no input process, the last one no output process.
\<close>

definition shell_pipeline :: "(RegistrationRequest \<times> (u64 \<times> bool) list) list \<Rightarrow> nat list \<Rightarrow> bool" where
  "shell_pipeline reqs cs \<longleftrightarrow>
     cs \<noteq> [] \<and> distinct cs \<and> set cs = {..<length reqs} \<and>
     (\<forall>i < length reqs. req_pid reqs i \<noteq> 0 \<and> (\<forall>j < length reqs. req_pid reqs i = req_pid reqs j \<longrightarrow> i = j)) \<and>
     (\<forall>k < length cs. req_in reqs (cs ! k) = (if k = 0 then 0 else req_pid reqs (cs ! (k - 1)))) \<and>
     (\<forall>k < length cs. req_out reqs (cs ! k) = (if Suc k = length cs then 0 else req_pid reqs (cs ! Suc k)))"

lemma shell_pipelineD:
  assumes "shell_pipeline reqs cs"
  shows "cs \<noteq> []" "distinct cs" "length cs = length reqs" "k < length cs \<Longrightarrow> cs ! k < length reqs"
    "i < length reqs \<Longrightarrow> \<exists>k < length cs. cs ! k = i" "i < length reqs \<Longrightarrow> req_pid reqs i \<noteq> 0"
    "i < length reqs \<Longrightarrow> j < length reqs \<Longrightarrow> req_pid reqs i = req_pid reqs j \<Longrightarrow> i = j"
    "k < length cs \<Longrightarrow> req_in reqs (cs ! k) = 0 \<longleftrightarrow> k = 0"
    "k < length cs \<Longrightarrow> req_out reqs (cs ! k) = 0 \<longleftrightarrow> Suc k = length cs"
    "Suc k < length cs \<Longrightarrow> j < length reqs \<Longrightarrow> req_out reqs (cs ! k) = req_pid reqs j \<longleftrightarrow> j = cs ! Suc k"
proof -
  note sp = assms [unfolded shell_pipeline_def]
  show "cs \<noteq> []" "distinct cs" using sp by blast+
  then show "length cs = length reqs" using sp by (metis card_lessThan distinct_card)
  have mem: "cs ! k < length reqs" if "k < length cs" for k using sp nth_mem [OF that] by blast
  have pid0: "req_pid reqs i \<noteq> 0" if "i < length reqs" for i using sp that by blast
  have uniq: "i = j" if "i < length reqs" "j < length reqs" "req_pid reqs i = req_pid reqs j" for i j
    using sp that by blast
  have inp: "req_in reqs (cs ! k) = (if k = 0 then 0 else req_pid reqs (cs ! (k - 1)))" if "k < length cs" for k
    using sp that by blast
  have out: "req_out reqs (cs ! k) = (if Suc k = length cs then 0 else req_pid reqs (cs ! Suc k))" if "k < length cs" for k
    using sp that by blast
  show "k < length cs \<Longrightarrow> cs ! k < length reqs" by (rule mem)
  show "i < length reqs \<Longrightarrow> \<exists>k < length cs. cs ! k = i" using sp by (metis in_set_conv_nth lessThan_iff)
  show "i < length reqs \<Longrightarrow> req_pid reqs i \<noteq> 0" by (rule pid0)
  show "i < length reqs \<Longrightarrow> j < length reqs \<Longrightarrow> req_pid reqs i = req_pid reqs j \<Longrightarrow> i = j" by (rule uniq)
  show "k < length cs \<Longrightarrow> req_in reqs (cs ! k) = 0 \<longleftrightarrow> k = 0"
    using inp [of k] pid0 [OF mem [of "k - 1"]] by auto
  show "k < length cs \<Longrightarrow> req_out reqs (cs ! k) = 0 \<longleftrightarrow> Suc k = length cs"
    using out [of k] pid0 [OF mem [of "Suc k"]] by auto
  show "Suc k < length cs \<Longrightarrow> j < length reqs \<Longrightarrow> req_out reqs (cs ! k) = req_pid reqs j \<longleftrightarrow> j = cs ! Suc k"
    using out [of k] uniq [OF mem [of "Suc k"], of j] by auto
qed

lemma shell_pipeline_reqs_ok:
  assumes "shell_pipeline reqs cs"
  shows "reqs_ok reqs"
  unfolding reqs_ok_def
proof (intro allI impI)
  fix i j assume i: "i < length reqs" and j: "j < length reqs" and "i \<noteq> j"
  note sp = shell_pipelineD [OF assms]
  obtain a b where a: "a < length cs" "cs ! a = i" and b: "b < length cs" "cs ! b = j"
    using sp(5) i j by metis
  have "req_pid reqs i \<noteq> req_pid reqs j" using sp(7) i j \<open>i \<noteq> j\<close> by blast
  moreover have False if o: "req_out reqs i = req_pid reqs j" "req_out reqs j = req_pid reqs i"
  proof -
    have "Suc a < length cs" "Suc b < length cs"
      using sp(6,9) a b i j o by (metis Suc_lessI)+
    then have "j = cs ! Suc a" "i = cs ! Suc b" using sp(10) a b i j o by metis+
    then have "b = Suc a" "a = Suc b"
      using sp(2) a b \<open>Suc a < length cs\<close> \<open>Suc b < length cs\<close> by (metis nth_eq_iff_index_eq)+
    then show False by simp
  qed
  ultimately show "req_pid reqs i \<noteq> req_pid reqs j \<and> \<not> (req_out reqs i = req_pid reqs j \<and> req_out reqs j = req_pid reqs i)"
    by blast
qed

text \<open>The agents after the first \<open>m\<close> requests of a shell pipeline.\<close>

lemma pool_take:
  assumes "shell_pipeline reqs cs" "m \<le> length reqs"
  defines "pool \<equiv> register_all (take m reqs)"
  shows "registered_agents pool = [0..<m]" "\<not> contains_valid_pipeline_cached pool"
    "k < length cs \<Longrightarrow> cs ! k < m \<Longrightarrow> isInputAgent (agents pool ! (cs ! k)) \<longleftrightarrow> k = 0"
    "k < length cs \<Longrightarrow> cs ! k < m \<Longrightarrow> isOutputAgent (agents pool ! (cs ! k)) \<longleftrightarrow> Suc k = length cs"
    "Suc k < length cs \<Longrightarrow> cs ! k < m \<Longrightarrow>
       outputAgent (agents pool ! (cs ! k)) = (if cs ! Suc k < m then Some (cs ! Suc k) else None)"
proof -
  note sp = shell_pipelineD [OF assms(1)]
  have ok: "pool_ok (take m reqs) pool"
    unfolding pool_def by (rule pool_ok_take [OF shell_pipeline_reqs_ok [OF assms(1)] assms(2)])
  have len: "length (take m reqs) = m" using assms(2) by simp
  show "registered_agents pool = [0..<m]" "\<not> contains_valid_pipeline_cached pool"
    using ok len by (simp_all add: pool_ok_def)
  have st: "static (agents pool ! i) = new_OperatorAgent (fst (reqs ! i)) (snd (reqs ! i))"
      "\<And>j. outputAgent (agents pool ! i) = Some j \<longleftrightarrow> j < m \<and> j \<noteq> i \<and> req_out reqs i = req_pid reqs j" if "i < m" for i
    using ok that len by (auto simp: pool_ok_def)
  show "k < length cs \<Longrightarrow> cs ! k < m \<Longrightarrow> isInputAgent (agents pool ! (cs ! k)) \<longleftrightarrow> k = 0"
    using static_fields(4) [OF st(1) [of "cs ! k"]] sp(8) [of k] by blast
  show "k < length cs \<Longrightarrow> cs ! k < m \<Longrightarrow> isOutputAgent (agents pool ! (cs ! k)) \<longleftrightarrow> Suc k = length cs"
    using static_fields(3) [OF st(1) [of "cs ! k"]] sp(9) [of k] by blast
  assume k: "Suc k < length cs" "cs ! k < m"
  have ne: "cs ! Suc k \<noteq> cs ! k" using sp(2) k(1) by (simp add: nth_eq_iff_index_eq)
  have "outputAgent (agents pool ! (cs ! k)) = Some j \<longleftrightarrow> j < m \<and> j = cs ! Suc k" for j
    using st(2) [OF k(2), of j] sp(10) [OF k(1), of j] assms(2) ne by auto
  then show "outputAgent (agents pool ! (cs ! k)) = (if cs ! Suc k < m then Some (cs ! Suc k) else None)"
    by (metis not_None_eq)
qed

lemma walk_take:
  assumes "shell_pipeline reqs cs" "m \<le> length reqs" "k < length cs" "cs ! k < m"
  shows "walk_pipeline (agents (register_all (take m reqs))) (Some (cs ! k)) = Some (takeWhile (\<lambda>i. i < m) (drop k cs))"
  using assms(3,4)
proof (induction "length cs - k" arbitrary: k rule: less_induct)
  case less
  let ?A = "agents (register_all (take m reqs))"
  note pool = pool_take [OF assms(1,2)]
  have d: "drop k cs = cs ! k # drop (Suc k) cs" using less.prems(1) by (simp add: Cons_nth_drop_Suc)
  show ?case
  proof (cases "Suc k = length cs")
    case True
    then show ?thesis using pool(4) [OF less.prems] less.prems d by (simp add: walk_pipeline.simps)
  next
    case False
    then have k: "Suc k < length cs" using less.prems(1) by simp
    show ?thesis
    proof (cases "cs ! Suc k < m")
      case True
      have "walk_pipeline ?A (Some (cs ! Suc k)) = Some (takeWhile (\<lambda>i. i < m) (drop (Suc k) cs))"
        using less.hyps [of "Suc k"] k True by simp
      then show ?thesis
        using pool(4,5) less.prems False k True d by (subst walk_pipeline.simps) simp
    next
      case no: False
      have "takeWhile (\<lambda>i. i < m) (drop (Suc k) cs) = []"
        using no k by (simp add: Cons_nth_drop_Suc [symmetric])
      then show ?thesis
        using pool(4,5) less.prems False k no d
        by (subst walk_pipeline.simps) (simp add: walk_pipeline.simps [of _ None])
    qed
  qed
qed

text \<open>The walk of an incomplete pipeline ends before an agent that has no output agent.\<close>

lemma incomplete_walk:
  assumes "shell_pipeline reqs cs" "m < length reqs" "cs ! 0 < m"
  defines "w \<equiv> takeWhile (\<lambda>i. i < m) cs"
  shows "\<not> isOutputAgent (agents (register_all (take m reqs)) ! last w)"
proof -
  note sp = shell_pipelineD [OF assms(1)]
  define t where "t = length w"
  have w: "w = take t cs" unfolding w_def t_def by (metis takeWhile_eq_take)
  obtain j where j: "j < length cs" "cs ! j = m" using sp(5) assms(2) by blast
  have "t \<noteq> length cs" 
  proof
    assume "t = length cs"
    then have "w = cs" using w by simp
    then have "\<forall>x \<in> set cs. x < m" unfolding w_def by (simp add: takeWhile_eq_all_conv)
    then show False using nth_mem [OF j(1)] j(2) by blast
  qed
  then have t: "t < length cs" using length_takeWhile_le [of "\<lambda>i. i < m" cs] unfolding w_def t_def by simp
  obtain c cs' where "cs = c # cs'" using sp(1) by (cases cs) auto
  then have "w \<noteq> []" using assms(3) unfolding w_def by simp
  then have t0: "0 < t" unfolding t_def by simp
  have l: "last w = cs ! (t - 1)" using w t t0 \<open>w \<noteq> []\<close> by (simp add: last_conv_nth)
  have "last w < m" using last_in_set [OF \<open>w \<noteq> []\<close>] unfolding w_def by (auto dest: set_takeWhileD)
  then show ?thesis using pool_take(4) [OF assms(1), of m "t - 1"] assms(2) l t t0 by simp
qed

lemma find_unique:
  assumes "x \<in> set xs" "P x" "\<And>y. y \<in> set xs \<Longrightarrow> P y \<Longrightarrow> y = x"
  shows "find P xs = Some x"
  using assms
proof (induction xs)
  case (Cons a xs)
  show ?case
  proof (cases "P a")
    case True
    then have "a = x" using Cons.prems(3) by simp
    then show ?thesis using True by simp
  next
    case False
    then have "x \<in> set xs" using Cons.prems(1,2) by auto
    then have "find P xs = Some x" 
      using Cons.IH [OF _ Cons.prems(2)] Cons.prems(3) by (meson list.set_intros(2))
    then show ?thesis using False by simp
  qed
qed simp

lemma find_input_agent:
  assumes "shell_pipeline reqs cs" "m \<le> length reqs"
  defines "pool \<equiv> register_all (take m reqs)"
  shows "find (\<lambda>a. isInputAgent (agents pool ! a)) (registered_agents pool) = (if cs ! 0 < m then Some (cs ! 0) else None)"
proof -
  note sp = shell_pipelineD [OF assms(1)] and pool = pool_take [OF assms(1,2), folded pool_def]
  have inp: "isInputAgent (agents pool ! a) \<longleftrightarrow> a = cs ! 0" if a: "a < m" for a
  proof -
    obtain k where "k < length cs" "cs ! k = a" using sp(5) a assms(2) by (meson less_le_trans)
    moreover from this have "0 < length cs" by linarith
    ultimately show ?thesis using pool(3) [of k] a sp(2) by (metis nth_eq_iff_index_eq)
  qed
  show ?thesis
  proof (cases "cs ! 0 < m")
    case True
    have "find (\<lambda>a. isInputAgent (agents pool ! a)) [0..<m] = Some (cs ! 0)"
      by (rule find_unique) (use True inp in auto)
    then show ?thesis unfolding pool(1) using True by simp
  next
    case False
    then show ?thesis unfolding pool(1) by (auto simp: find_None_iff inp)
  qed
qed

lemma incomplete_pool:
  assumes "shell_pipeline reqs cs" "m < length reqs"
  defines "pool \<equiv> register_all (take m reqs)"
  shows "containsValidPipeline pool = Some (False, pool)"
proof -
  have m: "m \<le> length reqs" using assms(2) by simp
  note f = find_input_agent [OF assms(1) m, folded pool_def] and c = pool_take(2) [OF assms(1) m, folded pool_def]
  have "0 < length cs" using shell_pipelineD(1) [OF assms(1)] by simp
  then show ?thesis
    using walk_take [OF assms(1) m, of 0, folded pool_def] incomplete_walk [OF assms(1,2), folded pool_def] f c
    by (auto simp: containsValidPipeline_def)
qed

lemma complete_pool:
  assumes "shell_pipeline reqs cs"
  defines "pool \<equiv> register_all reqs"
  shows "containsValidPipeline pool = Some (True, pool\<lparr>contains_valid_pipeline_cached := True,
    pipeline_agents := cs, registered_agents := []\<rparr>)"
proof -
  note sp = shell_pipelineD [OF assms(1)]
  note f = find_input_agent [OF assms(1) order_refl, unfolded take_all [OF order_refl], folded pool_def]
    and p = pool_take [OF assms(1) order_refl, unfolded take_all [OF order_refl], folded pool_def]
  have mem: "\<forall>x \<in> set cs. x < length reqs" using assms(1) by (auto simp: shell_pipeline_def)
  have "0 < length cs" using sp(1) by simp
  then have "cs ! 0 < length reqs" using sp(4) by blast
  then have w: "walk_pipeline (agents pool) (Some (cs ! 0)) = Some cs"
    using walk_take [OF assms(1) order_refl \<open>0 < length cs\<close>] mem takeWhile_eq_all_conv [of "\<lambda>i. i < length reqs" cs]
    by (simp add: pool_def)
  have "isOutputAgent (agents pool ! last cs)"
    using p(4) [of "length cs - 1"] sp(1,4) \<open>0 < length cs\<close> by (simp add: last_conv_nth)
  moreover have "filter (\<lambda>a. a \<notin> set cs) [0..<length reqs] = []"
    using assms(1) by (auto simp: shell_pipeline_def filter_empty_conv)
  ultimately show ?thesis using w f p(1,2) \<open>cs ! 0 < length reqs\<close> by (simp add: containsValidPipeline_def)
qed

section \<open>Serving the processes of a pipeline\<close>

text \<open>The requests of the processes, handled one after the other.\<close>

primrec serve ::
  "(nat list \<Rightarrow> OperatorAgent list \<Rightarrow> 's \<Rightarrow> ((nat \<times> string) option \<times> OperatorAgent list \<times> 's) option) \<Rightarrow>
     (RegistrationRequest \<times> (u64 \<times> bool) list) list \<Rightarrow> AgentPool \<times> 's \<Rightarrow> (AgentPool \<times> 's) option" where
  "serve run [] p = Some p"
| "serve run (r # reqs) p = Option.bind (processRequest run (Some (fst r)) (snd r) p) (serve run reqs)"

lemma serve_append: "serve run (xs @ ys) p = Option.bind (serve run xs p) (serve run ys)"
proof (induction xs arbitrary: p)
  case (Cons r xs)
  then have "serve run (xs @ ys) = (\<lambda>p. Option.bind (serve run xs p) (serve run ys))" by blast
  then show ?case by (simp add: Option.bind_assoc)
qed simp

lemma serve_one: "serve run [r] p = processRequest run (Some (fst r)) (snd r) p"
  by (cases "processRequest run (Some (fst r)) (snd r) p") simp_all

lemma register_take_Suc:
  assumes "m < length reqs"
  shows "registerAgent (fst (reqs ! m)) (snd (reqs ! m)) (register_all (take m reqs)) = register_all (take (Suc m) reqs)"
  using assms by (simp add: register_all_def take_Suc_conv_app_nth case_prod_unfold)

lemma serve_incomplete:
  assumes "shell_pipeline reqs cs" "m < length reqs"
  shows "serve run (take m reqs) (empty_pool, s) = Some (register_all (take m reqs), s)"
  using assms(2)
proof (induction m)
  case 0
  then show ?case by (simp add: register_all_def)
next
  case (Suc m)
  then have "serve run (take (Suc m) reqs) (empty_pool, s) =
      processRequest run (Some (fst (reqs ! m))) (snd (reqs ! m)) (register_all (take m reqs), s)"
    by (simp add: take_Suc_conv_app_nth serve_append serve_one del: serve.simps(2))
  also have "\<dots> = Some (register_all (take (Suc m) reqs), s)"
    using incomplete_pool [OF assms(1) Suc.prems] Suc.prems by (simp add: processRequest_def register_take_Suc)
  finally show ?case .
qed

lemma pool_updates:
  "(pool :: AgentPool)\<lparr>contains_valid_pipeline_cached := v, pipeline_agents := cs, registered_agents := rs, agents := A\<rparr> =
    \<lparr>agents = A, registered_agents = rs, pipeline_agents = cs, contains_valid_pipeline_cached = v\<rparr>"
  by (cases pool) simp

text \<open>
  C7: In whatever order the processes of a shell pipeline register, the server only keeps the agents
  while processes are missing; with the last one it runs the agents in the order of the pipeline,
  once, tells the agent that caused a client error, and ends with no agent registered.
\<close>

theorem server_runs_shell_pipeline:
  assumes "shell_pipeline reqs cs"
  shows "(\<forall>m < length reqs. serve run (take m reqs) (empty_pool, s) = Some (register_all (take m reqs), s)) \<and>
    serve run reqs (empty_pool, s) =
      map_option (\<lambda>(client_error, A, s). (pool_reset
          \<lparr>agents = (case client_error of None \<Rightarrow> A | Some (a, e) \<Rightarrow> update_agent (\<lambda>x. x\<lparr>agent_error := e\<rparr>) a A),
           registered_agents = [], pipeline_agents = cs, contains_valid_pipeline_cached = True\<rparr>, s))
        (run cs (agents (register_all reqs)) s) \<and>
    (\<forall>pool s'. serve run reqs (empty_pool, s) = Some (pool, s') \<longrightarrow> registered_agents pool = [] \<and> pipeline_agents pool = [])"
proof -
  define m where "m = length reqs - 1"
  have len: "0 < length reqs" "Suc m = length reqs" "m < length reqs"
    using shell_pipelineD(1,3) [OF assms] unfolding m_def by (cases reqs; auto)+
  have "reqs = take m reqs @ [reqs ! m]" using len by (metis order_refl take_Suc_conv_app_nth take_all)
  then have "serve run reqs (empty_pool, s) = processRequest run (Some (fst (reqs ! m))) (snd (reqs ! m)) (register_all (take m reqs), s)"
    using serve_append [of run "take m reqs" "[reqs ! m]"] serve_incomplete [OF assms len(3)] serve_one
    by (metis bind.bind_lunit)
  then have all: "serve run reqs (empty_pool, s) =
      map_option (\<lambda>(client_error, A, s). (pool_reset
          \<lparr>agents = (case client_error of None \<Rightarrow> A | Some (a, e) \<Rightarrow> update_agent (\<lambda>x. x\<lparr>agent_error := e\<rparr>) a A),
           registered_agents = [], pipeline_agents = cs, contains_valid_pipeline_cached = True\<rparr>, s))
        (run cs (agents (register_all reqs)) s)"
    using complete_pool [OF assms] register_take_Suc [OF len(3)] len(2)
    by (cases "run cs (agents (register_all reqs)) s")
      (auto simp: processRequest_def releaseUnusedAgents_def pool_updates split: option.splits)
  then show ?thesis
    using serve_incomplete [OF assms] by (auto simp: pool_reset_def releaseUnusedAgents_def)
qed

text \<open>Three processes that register in the order third, first, second.\<close>

definition ex_request :: "u64 \<Rightarrow> u64 \<Rightarrow> u64 \<Rightarrow> RegistrationRequest" where
  "ex_request p i out =
     \<lparr>rq_pid = p, rq_cwd = [], rq_mountpoint = [], rq_operator_type = ''metal-cat'', rq_input_pid = i,
      rq_output_pid = out, rq_args = [], rq_input_filename = None, rq_output_filename = None\<rparr>"

definition ex_requests :: "(RegistrationRequest \<times> (u64 \<times> bool) list) list" where
  "ex_requests = [(ex_request 12 11 0, []), (ex_request 10 0 11, []), (ex_request 11 10 12, [])]"

lemma server_runs_shell_pipeline_witness:
  "shell_pipeline ex_requests [1, 2, 0] \<and>
   map_option (\<lambda>(pool, runs). (registered_agents pool, runs))
     (serve (\<lambda>cs A runs. Some (None, A, cs # runs)) ex_requests (empty_pool, [])) = Some ([], [[1, 2, 0]])"
proof -
  have "shell_pipeline ex_requests [1, 2, 0]"
    by (auto simp: shell_pipeline_def ex_requests_def ex_request_def All_less_Suc)
  then show ?thesis
    using server_runs_shell_pipeline [of ex_requests "[1, 2, 0]" "\<lambda>cs A runs. Some (None, A, cs # runs)" "[]"]
    by auto
qed

end
