(* ===== verification/File_Props.thy ===== *)
theory File_Props
  imports File_Contexts
begin

text \<open>
  Properties of files as data sources: configuring a source makes the FPGA translate the blocks of
  this file, and the runs over a file cover it in chunks.
\<close>

section \<open>A configured source\<close>

lemma fs_lib_card:
  assumes "snap_card S fp nvme indeterminate"
  shows "snap_card (fs_lib S :: ('t, 'c) card_ctx snap_lib) (\<lambda>ctx. fp (snap_state (storage ctx))) nvme indeterminate"
  unfolding fs_lib_def using assms by (rule snap_within_card) simp

lemma mapExtents_maps:
  assumes "snap_card S fp nvme indeterminate" "mapExtents S slot fes c = Some (Inr r, c')" "maps_sized (fp c)"
  shows "maps_sized (fp c') \<and> extmap_ok (slot_map slot (fp c')) fes \<and>
    (\<forall>t. t \<noteq> slot \<longrightarrow> slot_map t (fp c') = slot_map t (fp c))"
proof -
  obtain a bs c1 x where "allocateMemory S 8256 c = Some (Inr (a, bs), c1)"
      "simpleJob S Map (a, map_job slot fes bs) c1 = Some (Inr x, c')"
    using assms(2) by (auto simp: mapExtents_def and_then_Inr)
  then show ?thesis using snap_card.map_job_maps [OF assms(1)] assms(3) by blast
qed

text \<open>The maps that a map type asks for.\<close>

fun mapped :: "ExtmapSlot \<Rightarrow> ExtmapSlot \<Rightarrow> MapType \<Rightarrow> mtl_file_extent list \<Rightarrow> mtl_file_extent list \<Rightarrow> fpga \<Rightarrow> bool" where
  "mapped dramSlot nvmeSlot MapNone fes pfes s = True"
| "mapped dramSlot nvmeSlot MapDRAM fes pfes s = extmap_ok (slot_map dramSlot s) fes"
| "mapped dramSlot nvmeSlot MapNVMe fes pfes s = extmap_ok (slot_map nvmeSlot s) fes"
| "mapped dramSlot nvmeSlot MapDRAMAndNVMe fes pfes s =
     (extmap_ok (slot_map dramSlot s) pfes \<and> extmap_ok (slot_map nvmeSlot s) fes)"

lemma map_file_maps:
  fixes ctx :: "('t, 'c) card_ctx"
  assumes "snap_card S fp nvme indeterminate" "map_file L S ds ns path m fes ctx = Some (Inr r, ctx')"
    and "maps_sized (fp (snap_state (storage ctx)))" "ds \<noteq> ns"
    and "m = MapDRAMAndNVMe \<Longrightarrow> pagefile_extents L path (dramPipelineStorage (storage ctx)) = Some (Inr pfes)"
  shows "maps_sized (fp (snap_state (storage ctx'))) \<and> mapped ds ns m fes pfes (fp (snap_state (storage ctx')))"
proof -
  note me = mapExtents_maps [OF fs_lib_card [OF assms(1), where 't = 't]]
  show ?thesis
  proof (cases m)
    case MapDRAMAndNVMe
    then obtain u ctx1 where c: "mapExtents (fs_lib S) ds pfes ctx = Some (Inr u, ctx1)"
        "mapExtents (fs_lib S) ns fes ctx1 = Some (Inr r, ctx')"
      using assms(2,5) by (auto simp: map_file_def and_then_Inr)
    note m1 = me [OF c(1) assms(3)]
    note m2 = me [OF c(2) m1 [THEN conjunct1]]
    show ?thesis using m1 m2 assms(4) MapDRAMAndNVMe by auto
  qed (use me [of _ _ ctx r ctx'] assms(2,3) in \<open>auto simp: map_file_def\<close>)
qed

text \<open>
  C8: a file as data source, from its metadata to the translation on the FPGA.  The constructor loads
  the extents of the file; if \<open>configure\<close> returns, then the FPGA holds for the map type of the file
  system the extents of this file (and of the page file for a file system on NVMe), so that seeking a
  logical block of the file finds the block that the extents of the file give.
\<close>

theorem file_source_maps:
  assumes "snap_card S fp nvme indeterminate" "lmdb L"
    and "is_file (inodes_of L (env_store (env ctx))) f fes len" "ext_fit fes" "f \<noteq> 0"
    and "maps_sized (fp (snap_state (storage ctx)))"
    and "new_FileDataSourceContext L junk (Some ps) f off sz ctx = Some (Inr x, ctx0)"
    and "source_configure L S x ctx0 = Some (Inr x', ctx')"
    and "ps_map ps = MapDRAMAndNVMe \<Longrightarrow>
      pagefile_extents L PagefileReadPath (dramPipelineStorage (storage ctx)) = Some (Inr pfes)"
  defines "s \<equiv> fp (snap_state (storage ctx'))"
    and "slot \<equiv> (if ps_map ps = MapDRAM then CardDRAMRead else NVMeRead)"
  shows "x' = x \<and> mapped CardDRAMRead NVMeRead (ps_map ps) fes pfes s \<and>
    (ps_map ps \<noteq> MapNone \<longrightarrow> (\<forall>lb. unat lb < length (blocks_of fes) \<longrightarrow>
       (case mtl_extmap_seek (slot_map slot s) lb of
          (found, M) \<Rightarrow> found \<and> unat (mtl_extmap_pblock M) = blocks_of fes ! unat lb)))"
proof -
  have "length fes \<le> 512" using assms(4) by (simp add: ext_fit_def)
  then have "mtl_load_extent_list L ctx f = (MTL_SUCCESS, Some (fes, len))"
    using load_extents_of_file [OF assms(2,3)] by blast
  then have x: "f_extents x = fes" "ds_mapType (s_dataSource x) = ps_map ps" "ctx0 = ctx"
    using assms(5,7) by (auto simp: new_FileDataSourceContext_def withSize_def Let_def)
  obtain u where c: "map_file L S CardDRAMRead NVMeRead PagefileReadPath (ps_map ps) fes ctx = Some (Inr u, ctx')"
      and x': "x' = x"
    using assms(8) x by (auto simp: source_configure_def and_then_Inr address_def split: if_splits)
  have m: "mapped CardDRAMRead NVMeRead (ps_map ps) fes pfes s"
    using map_file_maps [OF assms(1) c assms(6) _ assms(9)] by (simp add: s_def)
  then have "ps_map ps \<noteq> MapNone \<Longrightarrow> extmap_ok (slot_map slot s) fes"
    unfolding slot_def by (cases "ps_map ps") simp_all
  then show ?thesis using m x' seek_finds [OF _ assms(4)] by (auto simp: case_prod_unfold)
qed

text \<open>A file system in the DRAM of an idle card.\<close>

definition dram_ps :: PipelineStorage where
  "dram_ps = \<lparr>ps_card = 0, ps_type = CardDRAM, ps_map = MapDRAM\<rparr>"

definition dram_ctx :: "(ref_db, fpga) card_ctx" where
  "dram_ctx = \<lparr>env = \<lparr>env_store = ex_db, env_writer = False\<rparr>,
     metadata = \<lparr>mtl_storage_metadata.num_blocks = 10, block_size = StorageBlockSize\<rparr>,
     storage = \<lparr>snap_state = idle_fpga, dramPipelineStorage = None\<rparr>\<rparr>"

lemma length_map_job: "length bs = 8256 \<Longrightarrow> length (map_job slot fes bs) = 8256"
  using length_concat_const [of "map (extent_bytes fes) [0..<512]" 16]
  by (simp add: map_job_def extent_bytes_words(3))

lemma map_job_succeeds:
  assumes "length bs = 8256" "nvme \<or> slot = CardDRAMRead \<or> slot = CardDRAMWrite"
  shows "\<exists>s'. action_map nvme a (s\<lparr>f_mem := host_mem a (map_job slot fes bs)\<rparr>) = (SNAP_RETC_SUCCESS, s')"
proof -
  have "holds (host_mem a (map_job slot fes bs)) a (map_job slot fes bs)"
    by (rule holds_host_mem) (simp add: length_map_job [OF assms(1)])
  then have "mtl_get64be (host_mem a (map_job slot fes bs) (MFB_ADDRESS a + word_of_nat 0)) 0 = slot_code slot"
    by (rule holds_get64) (simp_all add: length_map_job [OF assms(1)], simp add: map_job_def)
  then have sl: "slot_of_code (mtl_get64be (host_mem a (map_job slot fes bs) (MFB_ADDRESS a)) 0) = Some slot"
    by simp
  show ?thesis using sl assms(2) unfolding action_map_def Let_def by (cases slot) auto
qed

lemma mapExtents_succeeds:
  assumes "nvme \<or> slot = CardDRAMRead \<or> slot = CardDRAMWrite"
  shows "\<exists>ctx'. mapExtents (fs_lib (fpga_lib nvme ind)) slot fes ctx = Some (Inr (), ctx')"
proof -
  let ?a = "4096 :: u64" and ?bs = "replicate 8256 0 :: bytes"
  have m: "allocateMemory (fs_lib (fpga_lib nvme ind)) 8256 ctx = Some (Inr (?a, ?bs), ctx)"
    by (simp add: allocateMemory_def fs_lib_def snap_within_def fpga_lib_def)
  obtain s' where s': "action_map nvme ?a ((snap_state (storage ctx))\<lparr>f_mem := host_mem ?a (map_job slot fes ?bs)\<rparr>) =
      (SNAP_RETC_SUCCESS, s')"
    using map_job_succeeds [OF length_replicate assms] by blast
  have "\<exists>x ctx'. simpleJob (fs_lib (fpga_lib nvme ind)) Map (?a, map_job slot fes ?bs) ctx = Some (Inr x, ctx')"
    unfolding executeJob_def fs_lib_def snap_within_def fpga_lib_def
    by (simp add: hls_action_def process_action_def s' Let_def)
  then show ?thesis
    unfolding mapExtents_def by (auto simp: m and_then_def rethrow_def on_exception_def)
qed

theorem file_source_maps_witness:
  "\<exists>x ctx'. new_FileDataSourceContext ref_ops 0 (Some dram_ps) 5 0 8 dram_ctx = Some (Inr x, dram_ctx) \<and>
     source_configure ref_ops (fpga_lib False 0) x dram_ctx = Some (Inr x, ctx') \<and>
     unat (mtl_extmap_pblock (snd (mtl_extmap_seek (r_dram_map (f_read (snap_state (storage ctx')))) 0))) = 1"
proof -
  have f: "is_file (inodes_of ref_ops (env_store (env dram_ctx))) 5 ex_f 10"
    using ex_db_view(3) by (simp add: dram_ctx_def)
  have fit: "ext_fit ex_f" by (simp add: ext_fit_def ex_f_def)
  have "mtl_load_extent_list ref_ops dram_ctx 5 = (MTL_SUCCESS, Some (ex_f, 10))"
    using load_extents_of_file [OF ref.lmdb_axioms f] by (simp add: ex_f_def)
  then obtain x where x: "new_FileDataSourceContext ref_ops 0 (Some dram_ps) 5 0 8 dram_ctx = Some (Inr x, dram_ctx)"
      "f_extents x = ex_f" "ds_mapType (s_dataSource x) = MapDRAM"
    by (simp add: new_FileDataSourceContext_def withSize_def dram_ps_def)
  obtain ctx' where m: "mapExtents (fs_lib (fpga_lib False 0)) CardDRAMRead ex_f dram_ctx = Some (Inr (), ctx')"
    using mapExtents_succeeds [of False CardDRAMRead 0 ex_f dram_ctx] by auto
  have "map_file ref_ops (fpga_lib False 0) CardDRAMRead NVMeRead PagefileReadPath MapDRAM ex_f dram_ctx =
      Some (Inr (), ctx')"
    using m by (simp add: map_file_def)
  then have c: "source_configure ref_ops (fpga_lib False 0) x dram_ctx = Some (Inr x, ctx')"
    unfolding source_configure_def x(2)
    by (simp add: ex_f_def and_then_def address_def x(3))
  have s: "maps_sized (snap_state (storage dram_ctx))" by (simp add: dram_ctx_def)
  note t = file_source_maps [OF fcard.snap_card_axioms ref.lmdb_axioms f fit _ s x(1) c]
  have "case mtl_extmap_seek (r_dram_map (f_read (snap_state (storage ctx')))) 0 of
      (found, M) \<Rightarrow> found \<and> unat (mtl_extmap_pblock M) = blocks_of ex_f ! 0"
    using t [THEN conjunct2, THEN conjunct2] by (simp add: dram_ps_def ex_blocks)
  then show ?thesis using x(1) c by (auto simp: ex_blocks case_prod_unfold)
qed

section \<open>Reading a file in runs\<close>

lemma ucast_32_64: "unat (s :: u64) < 2 ^ 32 \<Longrightarrow> ucast (ucast s :: u32) = s"
proof -
  assume "unat s < 2 ^ 32"
  then have "unat (word_of_nat (unat s) :: u32) = unat s" unfolding unat_of_nat by simp
  then have "unat (ucast s :: u32) = unat s" unfolding ucast_of_unat [symmetric] .
  then show ?thesis by (simp add: word_eq_unat)
qed

lemma finalize_once:
  assumes "unat (ds_size (s_dataSource x)) < 2 ^ 32"
  shows "s_dataSource (source_finalize x) =
      (s_dataSource x)\<lparr>ds_address := ds_address (s_dataSource x) + ds_size (s_dataSource x)\<rparr>"
    "f_fileLength (source_finalize x) = f_fileLength x"
  using ucast_32_64 [OF assms] by (simp_all add: source_finalize_def address_def Let_def)

lemma finalize_iter:
  assumes "unat (ds_size (s_dataSource x)) < 2 ^ 32"
  shows "s_dataSource ((source_finalize ^^ k) x) =
      (s_dataSource x)\<lparr>ds_address := ds_address (s_dataSource x) + word_of_nat k * ds_size (s_dataSource x)\<rparr> \<and>
    f_fileLength ((source_finalize ^^ k) x) = f_fileLength x"
proof (induction k)
  case (Suc k)
  then show ?case
    using finalize_once [of "(source_finalize ^^ k) x"] assms by (simp add: algebra_simps)
qed simp

text \<open>
  C35: the runs over a file.  The loop of the driver runs the pipeline and calls \<open>finalize\<close> until a
  run was at the end of the input.  The runs start at multiples of the size of the first one, which
  the constructor has cut to the length of the file, there are exactly as many as are needed to cover
  the file, and only the last one reports the end.  All of them have the full size: the last one
  goes past the end of a file whose length is not a multiple of it.
\<close>

theorem source_runs_cover_file:
  assumes "lmdb L" "is_file (inodes_of L (env_store (env ctx))) f fes len" "length fes \<le> 512" "f \<noteq> 0"
    and "0 < sz" "unat sz < 2 ^ 32" "0 < len" "unat len + unat sz < 2 ^ 64"
    and "new_FileDataSourceContext L junk (Some ps) f 0 sz ctx = Some (Inr x, ctx')"
  defines "chunk \<equiv> min (unat sz) (unat len)"
  defines "n \<equiv> (unat len + chunk - 1) div chunk"
  shows "(\<forall>k < n. unat (ds_address (s_dataSource ((source_finalize ^^ k) x))) = k * chunk \<and>
      unat (ds_size (s_dataSource ((source_finalize ^^ k) x))) = chunk \<and>
      (source_endOfInput ((source_finalize ^^ k) x) \<longleftrightarrow> Suc k = n)) \<and>
    (n - 1) * chunk < unat len \<and> unat len \<le> n * chunk"
proof -
  have x: "s_dataSource x = \<lparr>ds_address = 0, ds_size = min sz len, ds_addressType = ps_type ps, ds_mapType = ps_map ps\<rparr>"
    "f_fileLength x = len"
    using assms(9) load_extents_of_file [OF assms(1-3)] assms(4)
    by (auto simp: new_FileDataSourceContext_def withSize_def Let_def)
  have c: "unat (min sz len) = chunk" by (simp add: chunk_def min_def word_le_nat_alt)
  have pos: "0 < chunk" using assms(5,7) by (simp add: chunk_def word_less_nat_alt)
  have small: "unat (ds_size (s_dataSource x)) < 2 ^ 32" using assms(6) by (simp add: x c chunk_def)
  have bounds: "(n - 1) * chunk < unat len" "unat len \<le> n * chunk" "0 < n"
  proof -
    have "unat len > 0" using assms(7) by (simp add: word_less_nat_alt)
    moreover obtain r where "unat len + chunk - 1 = n * chunk + r" "r < chunk"
      using div_mult_mod_eq [of "unat len + chunk - 1" chunk] mod_less_divisor [OF pos] unfolding n_def by metis
    ultimately show len: "unat len \<le> n * chunk" and "(n - 1) * chunk < unat len" "0 < n"
      by (auto simp: diff_mult_distrib intro!: gr0I)
  qed
  have "unat (ds_address (s_dataSource ((source_finalize ^^ k) x))) = k * chunk \<and>
      unat (ds_size (s_dataSource ((source_finalize ^^ k) x))) = chunk \<and>
      (source_endOfInput ((source_finalize ^^ k) x) \<longleftrightarrow> Suc k = n)" if k: "k < n" for k
  proof -
    have le: "k * chunk \<le> (n - 1) * chunk" using k by (intro mult_right_mono) auto
    then have b: "k * chunk < unat len" using bounds(1) by linarith
    have b2: "k * chunk + chunk < 2 ^ 64" using b assms(8) by (auto simp: chunk_def)
    have "k * 1 \<le> k * chunk" using pos by (intro mult_left_mono) auto
    then have "k < 2 ^ 64" using b2 by linarith
    then have uk: "unat (word_of_nat k :: u64) = k" by (simp add: unat_of_nat)
    have "unat (word_of_nat k * min sz len) = k * chunk"
      using b2 uk c by (simp add: unat_word_ariths)
    moreover from this have "unat (word_of_nat k * min sz len + min sz len) = k * chunk + chunk"
      using b2 c by (simp add: unat_add_exact)
    moreover have "unat len \<le> k * chunk + chunk \<longleftrightarrow> Suc k = n"
    proof
      assume "unat len \<le> k * chunk + chunk"
      then have "(n - 1) * chunk < Suc k * chunk" using bounds(1) by simp
      then have "n - 1 < Suc k" by (simp only: mult_less_cancel2)
      then show "Suc k = n" using k by simp
    qed (use bounds(2) in auto)
    ultimately show ?thesis
      using finalize_iter [OF small, of k] ucast_32_64 [of "min sz len"] small
      by (simp add: x c source_endOfInput_def address_def word_le_nat_alt)
  qed
  then show ?thesis using bounds(1,2) by blast
qed

theorem source_runs_cover_file_witness:
  "\<exists>x. new_FileDataSourceContext ref_ops 0 (Some dram_ps) 5 0 8 dram_ctx = Some (Inr x, dram_ctx) \<and>
     unat (ds_address (s_dataSource (source_finalize x))) = 8 \<and>
     unat (ds_size (s_dataSource (source_finalize x))) = 8 \<and> f_fileLength (source_finalize x) = 10"
proof -
  have f: "is_file (inodes_of ref_ops (env_store (env dram_ctx))) 5 ex_f 10"
    using ex_db_view(3) by (simp add: dram_ctx_def)
  have l: "length ex_f \<le> 512" by (simp add: ex_f_def)
  obtain x where x: "new_FileDataSourceContext ref_ops 0 (Some dram_ps) 5 0 8 dram_ctx = Some (Inr x, dram_ctx)"
      "f_fileLength x = 10"
    using load_extents_of_file [OF ref.lmdb_axioms f l] by (simp add: new_FileDataSourceContext_def)
  have "(8 :: u64) > 0" "unat (8 :: u64) < 2 ^ 32" "(10 :: u64) > 0" "unat (10 :: u64) + unat (8 :: u64) < 2 ^ 64"
    by simp_all
  note t = source_runs_cover_file [OF ref.lmdb_axioms f l _ this x(1)]
  have "unat (ds_address (s_dataSource ((source_finalize ^^ 1) x))) = 1 * 8 \<and>
      unat (ds_size (s_dataSource ((source_finalize ^^ 1) x))) = 8"
    using t [THEN conjunct1, THEN spec, of 1] by simp
  then show ?thesis using x by (simp add: source_finalize_def Let_def)
qed

end
