(* ===== verification/Protocol_Props.thy ===== *)
theory Protocol_Props
  imports Protocol Agents_Props File_Props
begin

text \<open>
  Process and driver agree on the halves of the input buffer in every interleaving: every run gets its
  chunk of the input, and the system ends.  They do not agree on the output buffer once a run has no
  output.
\<close>

section \<open>Chunks\<close>

declare BufferSize_def [simp del]

abbreviation B :: nat where "B \<equiv> unat BufferSize"

definition chunk :: "bytes \<Rightarrow> nat \<Rightarrow> bytes" where
  "chunk input i = take B (drop (i * B) input)"

definition rounds :: "bytes \<Rightarrow> nat" where
  "rounds input = length input div B + 1"

definition outs :: "(nat \<Rightarrow> bytes \<Rightarrow> bytes) \<Rightarrow> bytes \<Rightarrow> nat \<Rightarrow> bytes" where
  "outs f input i = (if chunk input i = [] then [] else f i (chunk input i))"

lemma B_pos: "0 < B"
  by (simp add: BufferSize_def)

lemma length_chunk: "length (chunk input i) = min B (length input - i * B)"
  by (simp add: chunk_def)

lemma last_chunk: "length input - i * B < B \<longleftrightarrow> rounds input \<le> Suc i"
proof -
  obtain q r where q: "length input = q * B + r" "r < B" "length input div B = q"
    using div_mult_mod_eq [of "length input" B] mod_less_divisor [OF B_pos, of "length input"] by metis
  show ?thesis
  proof (cases "i < q")
    case True
    then have "Suc i * B \<le> q * B" by (intro mult_right_mono) auto
    then show ?thesis using q True by (simp add: rounds_def)
  next
    case False
    then have "q * B \<le> i * B" by (intro mult_right_mono) auto
    then have "length input - i * B < B" using q(1,2) by linarith
    then show ?thesis using q(3) False by (simp add: rounds_def)
  qed
qed

lemma concat_chunks: "concat (map (chunk input) [0..<n]) = take (n * B) input"
proof (induction n)
  case (Suc n)
  then show ?case by (simp add: chunk_def take_add [symmetric] add.commute)
qed simp

lemma all_chunks: "concat (map (chunk input) [0..<rounds input]) = input"
proof -
  have "length input - rounds input * B = 0"
    using last_chunk [of input "rounds input - 1"] by (simp add: rounds_def)
  then show ?thesis by (simp add: concat_chunks)
qed

section \<open>The invariant\<close>

text \<open>
  \<open>p\<close> responses have been received and \<open>k\<close> runs have ended; how many chunks have been read and how many
  requests have been sent follows from \<open>p\<close> and the place in the loop of the process.
\<close>

definition reads_done :: "bytes \<Rightarrow> pc \<Rightarrow> nat \<Rightarrow> nat" where
  "reads_done input pc p = min (rounds input) (if pc = Waiting then p + 2 else p + 1)"

definition sent :: "bytes \<Rightarrow> pc \<Rightarrow> nat \<Rightarrow> nat" where
  "sent input pc p = (if pc = Sending \<or> p = rounds input then p else p + 1)"

definition written :: "pc \<Rightarrow> nat \<Rightarrow> nat" where
  "written pc p = (if pc = Sending \<or> pc = Writing then p - 1 else p)"

definition the_request :: "bytes \<Rightarrow> nat \<Rightarrow> u64 \<times> bool" where
  "the_request input i = (word_of_nat (length (chunk input i)), Suc i = rounds input)"

definition the_response :: "(nat \<Rightarrow> bytes \<Rightarrow> bytes) \<Rightarrow> bytes \<Rightarrow> nat \<Rightarrow> u64 \<times> bool" where
  "the_response f input i = (word_of_nat (length (outs f input i)), Suc i = rounds input)"

definition client_inv :: "bytes \<Rightarrow> pc \<Rightarrow> nat \<Rightarrow> client \<Rightarrow> halves \<Rightarrow> bool" where
  "client_inv input pc p c m \<longleftrightarrow>
     (let r = reads_done input pc p in
      c_input c = drop (r * B) input \<and> c_in c = Some (odd r) \<and> c_out c \<noteq> None \<and>
      (c_bytesRead c, c_eof c) = the_request input (r - 1) \<and>
      (\<forall>i < r. r \<le> i + 2 \<longrightarrow> take (length (chunk input i)) (m (odd i)) = chunk input i))"

definition resp_inv :: "(nat \<Rightarrow> bytes \<Rightarrow> bytes) \<Rightarrow> bytes \<Rightarrow> pc \<Rightarrow> nat \<Rightarrow> ProcessingResponse \<Rightarrow> bool" where
  "resp_inv f input pc p resp \<longleftrightarrow>
     p \<le> rounds input \<and> (pc = Reading \<or> pc = Waiting \<longrightarrow> p < rounds input) \<and> (pc = Exited \<longrightarrow> p = rounds input) \<and>
     (response_size resp, pr_eof resp) = (if p = 0 then (0, False) else the_response f input (p - 1))"

definition agent_inv :: "(nat \<Rightarrow> bytes \<Rightarrow> bytes) \<Rightarrow> bytes \<Rightarrow> nat \<Rightarrow> nat \<Rightarrow> nat \<Rightarrow> bool \<Rightarrow> OperatorAgent \<Rightarrow> bool" where
  "agent_inv f input q p k busy a \<longleftrightarrow>
     p \<le> k \<and> (if busy then k + 1 else k) \<le> q \<and>
     inbox a = map (the_request input) [(if busy then k + 1 else k)..<q] \<and>
     map (\<lambda>r. (response_size r, pr_eof r)) (processing_responses a) = map (the_response f input) [p..<k] \<and>
     (\<exists>bi bo. inputBuffer a = Some bi \<and> outputBuffer a = Some bo \<and> b_current bi = odd k \<and> b_current bo = odd k)"

definition server_inv :: "bytes \<Rightarrow> nat \<Rightarrow> bool \<Rightarrow> AgentDataSourceContext \<Rightarrow> AgentDataSinkContext \<Rightarrow> bool" where
  "server_inv input k busy x y \<longleftrightarrow>
     as_agent x = 0 \<and> as_skipSending x \<and> f_inode_id (as_base x) = 0 \<and>
     ak_agent y = 0 \<and> ak_skipReceiving y \<and> k_inode_id (ak_base y) = 0 \<and>
     (busy \<longrightarrow> (as_size x, as_eof x) = the_request input k)"

definition out_inv :: "(nat \<Rightarrow> bytes \<Rightarrow> bytes) \<Rightarrow> bytes \<Rightarrow> nat \<Rightarrow> halves \<Rightarrow> bool" where
  "out_inv f input k m \<longleftrightarrow>
     (\<forall>i < k. k \<le> i + 2 \<longrightarrow> take (length (outs f input i)) (m (odd i)) = outs f input i)"

definition sys_inv :: "(nat \<Rightarrow> bytes \<Rightarrow> bytes) \<Rightarrow> bytes \<Rightarrow> nat \<Rightarrow> nat \<Rightarrow> ('t, 'c) system \<Rightarrow> bool" where
  "sys_inv f input p k s \<longleftrightarrow>
     d_agents (sy_driver s) \<noteq> [] \<and> (sy_busy s \<longrightarrow> \<not> sy_ended s) \<and> (sy_ended s \<longleftrightarrow> k = rounds input) \<and> k \<le> rounds input \<and>
     sy_log s = map (chunk input) [0..<k] \<and>
     client_inv input (sy_pc s) p (sy_client s) (sy_in s) \<and> resp_inv f input (sy_pc s) p (sy_resp s) \<and>
     agent_inv f input (sent input (sy_pc s) p) p k (sy_busy s) (the_agent s) \<and>
     server_inv input k (sy_busy s) (sy_source s) (sy_sink s) \<and> out_inv f input k (sy_out s)"

lemma rounds_pos [simp]: "0 < rounds input" "rounds input \<noteq> 0"
  by (simp_all add: rounds_def)

lemma update_agent_0 [simp]:
  "d_agents d \<noteq> [] \<Longrightarrow> update_agent g 0 (d_agents d) ! 0 = g (d_agents d ! 0)"
  "update_agent g 0 A = [] \<longleftrightarrow> A = []"
  by (simp_all add: update_agent_def)

lemma resp_eof: "resp_inv f input pc p resp \<Longrightarrow> pr_eof resp \<longleftrightarrow> p = rounds input"
  by (cases p) (auto simp: resp_inv_def the_response_def)

lemma resp_le: "resp_inv f input pc p resp \<Longrightarrow> p \<le> rounds input"
  by (simp add: resp_inv_def)

lemma invD:
  assumes "sys_inv f input p k s"
  shows "d_agents (sy_driver s) \<noteq> []" "sy_busy s \<Longrightarrow> \<not> sy_ended s" "sy_ended s \<longleftrightarrow> k = rounds input" "k \<le> rounds input"
    "sy_log s = map (chunk input) [0..<k]" "client_inv input (sy_pc s) p (sy_client s) (sy_in s)"
    "resp_inv f input (sy_pc s) p (sy_resp s)"
    "agent_inv f input (sent input (sy_pc s) p) p k (sy_busy s) (the_agent s)"
    "server_inv input k (sy_busy s) (sy_source s) (sy_sink s)" "out_inv f input k (sy_out s)"
    "pr_eof (sy_resp s) \<longleftrightarrow> p = rounds input" "p \<le> rounds input"
  using assms resp_eof [of f input "sy_pc s" p "sy_resp s"] resp_le [of f input "sy_pc s" p "sy_resp s"]
  unfolding sys_inv_def by blast+

lemma inv_send:
  assumes "sys_inv f input p k s" "sy_pc s = Sending"
  shows "sys_inv f input p k (client_sends s)"
proof -
  note i = invD [OF assms(1), unfolded assms(2)]
  have "client_inv input Writing p (sy_client s) (sy_in s)"
    using i(6) by (simp add: client_inv_def reads_done_def)
  moreover have "agent_inv f input (sent input Writing p) p k (sy_busy s) (the_agent (client_sends s))"
  proof (cases "p = rounds input")
    case True
    then show ?thesis using i(1,8,11) by (simp add: agent_inv_def sent_def the_agent_def client_sends_def client_request_def)
  next
    case False
    then have "reads_done input Sending p = Suc p" using i(12) by (simp add: reads_done_def)
    then have "(c_bytesRead (sy_client s), c_eof (sy_client s)) = the_request input p"
      using i(6) by (simp add: client_inv_def)
    then show ?thesis
      using i(1,8,11) False
      by (simp add: agent_inv_def sent_def the_agent_def client_sends_def client_request_def)
  qed
  moreover have "resp_inv f input Writing p (sy_resp s)" using i(7) by (simp add: resp_inv_def)
  ultimately show ?thesis using i unfolding sys_inv_def by (simp add: client_sends_def)
qed

lemma inv_write:
  assumes "sys_inv f input p k s" "sy_pc s = Writing"
  shows "sys_inv f input p k (client_writes s)"
proof -
  note i = invD [OF assms(1), unfolded assms(2)]
  let ?c = "client_write (sy_client s) (sy_resp s) (sy_out s)" and ?pc = "if p = rounds input then Exited else Reading"
  have c: "c_input ?c = c_input (sy_client s)" "c_in ?c = c_in (sy_client s)" "c_bytesRead ?c = c_bytesRead (sy_client s)"
      "c_eof ?c = c_eof (sy_client s)" "c_out ?c = None \<longleftrightarrow> c_out (sy_client s) = None"
    by (auto simp: client_write_def Let_def split: option.splits)
  then have "client_inv input ?pc p ?c (sy_in s)"
    using i(6) by (simp add: client_inv_def reads_done_def)
  moreover have "resp_inv f input ?pc p (sy_resp s)" using i(7) by (simp add: resp_inv_def)
  moreover have "sent input ?pc p = sent input Writing p" by (simp add: sent_def)
  ultimately show ?thesis
    using i unfolding sys_inv_def by (simp add: client_writes_def the_agent_def)
qed

lemma client_read_chunk:
  assumes "client_inv input Reading p c m" "Suc p < rounds input"
  shows "client_inv input Waiting p (fst (client_read c m)) (snd (client_read c m))"
proof -
  have r: "reads_done input Reading p = Suc p" "reads_done input Waiting p = Suc (Suc p)"
    using assms(2) by (simp_all add: reads_done_def)
  note c = assms(1) [unfolded client_inv_def r Let_def]
  have bs: "take B (c_input c) = chunk input (Suc p)" "drop B (c_input c) = drop (Suc (Suc p) * B) input"
    "length (c_input c) < B \<longleftrightarrow> Suc (Suc p) = rounds input"
    using c last_chunk [of input "Suc p"] assms(2) by (auto simp: chunk_def add.commute)
  have old: "take (length (chunk input p)) (m (odd p)) = chunk input p" using c by auto
  have "take (length (chunk input i)) (put_half (odd (Suc p)) (chunk input (Suc p)) m (odd i)) = chunk input i"
    if "i < Suc (Suc p)" "Suc (Suc p) \<le> i + 2" for i
    using that old by (cases "i = p") (auto simp: put_half_def less_Suc_eq)
  then show ?thesis
    using c bs by (simp add: client_inv_def client_read_def r Let_def the_request_def)
qed

lemma inv_read:
  assumes "sys_inv f input p k s" "sy_pc s = Reading"
  shows "sys_inv f input p k (client_reads s)"
proof -
  note i = invD [OF assms(1), unfolded assms(2)]
  let ?n = "client_next (sy_client s) (sy_in s)"
  have p: "p < rounds input" using i(7) by (simp add: resp_inv_def)
  then have "reads_done input Reading p = Suc p" by (simp add: reads_done_def)
  then have eof: "c_eof (sy_client s) \<longleftrightarrow> Suc p = rounds input"
    using i(6) by (simp add: client_inv_def the_request_def)
  have "client_inv input Waiting p (fst ?n) (snd ?n)"
  proof (cases "Suc p = rounds input")
    case True
    then have "reads_done input Waiting p = reads_done input Reading p" by (simp add: reads_done_def)
    then show ?thesis using i(6) eof True by (simp add: client_next_def client_inv_def)
  next
    case False
    then show ?thesis using client_read_chunk [OF i(6)] p eof by (simp add: client_next_def)
  qed
  moreover have "resp_inv f input Waiting p (sy_resp s)" using i(7) by (simp add: resp_inv_def)
  moreover have "sent input Waiting p = sent input Reading p" by (simp add: sent_def)
  ultimately show ?thesis
    using i unfolding sys_inv_def by (simp add: client_reads_def the_agent_def case_prod_unfold)
qed

lemma inv_receive:
  assumes "sys_inv f input p k s" "sy_pc s = Waiting" "processing_responses (the_agent s) \<noteq> []"
  shows "sys_inv f input (Suc p) k (client_receives s)"
proof -
  note i = invD [OF assms(1), unfolded assms(2)]
  have p: "p < rounds input" using i(7) by (simp add: resp_inv_def)
  obtain r rs where r: "processing_responses (the_agent s) = r # rs" using assms(3) by (cases "processing_responses (the_agent s)") auto
  then have l: "(response_size r, pr_eof r) # map (\<lambda>r. (response_size r, pr_eof r)) rs = map (the_response f input) [p..<k]"
    using i(8) by (simp add: agent_inv_def)
  then have "p < k" by (cases "p < k") auto
  then have l': "(response_size r, pr_eof r) = the_response f input p"
      "map (\<lambda>r. (response_size r, pr_eof r)) rs = map (the_response f input) [Suc p..<k]"
    using l by (simp_all add: upt_conv_Cons)
  have "client_inv input Sending (Suc p) (sy_client s) (sy_in s)"
    using i(6) by (simp add: client_inv_def reads_done_def)
  moreover have "resp_inv f input Sending (Suc p) r" using p l'(1) by (simp add: resp_inv_def)
  moreover have "agent_inv f input (sent input Sending (Suc p)) (Suc p) k (sy_busy s)
      ((the_agent s)\<lparr>processing_responses := rs\<rparr>)"
    using i(8) l'(2) \<open>p < k\<close> p by (simp add: agent_inv_def sent_def)
  ultimately show ?thesis
    using i r unfolding sys_inv_def by (simp add: client_receives_def the_agent_def)
qed

lemma inv_begin:
  assumes "sys_inv f input p k s" "\<not> sy_busy s" "\<not> sy_ended s"
    and "configure_both W (sy_log s = []) (sy_source s) (sy_sink s) (sy_driver s) = Some (Inr (x, y), d)"
  shows "sys_inv f input p k (s\<lparr>sy_source := x, sy_sink := y, sy_driver := d, sy_busy := True\<rparr>)"
proof -
  note i = invD [OF assms(1)]
  have x: "as_agent (sy_source s) = 0" "ak_agent (sy_sink s) = 0" "ak_skipReceiving (sy_sink s)" "k_inode_id (ak_base (sy_sink s)) = 0"
    using i(9) by (simp_all add: server_inv_def)
  have "inputBuffer (d_agents (sy_driver s) ! 0) \<noteq> None" using i(8) by (auto simp: agent_inv_def the_agent_def)
  note c = assms(4) [unfolded configure_both_eq [OF i(1) x this]]
  have ib: "inbox (the_agent s) = map (the_request input) [k..<sent input (sy_pc s) p]"
    using i(8) assms(2) by (simp add: agent_inv_def)
  have "k < sent input (sy_pc s) p"
    using c ib by (cases "k < sent input (sy_pc s) p") (auto simp: the_agent_def)
  then have "inbox (the_agent s) = the_request input k # map (the_request input) [Suc k..<sent input (sy_pc s) p]"
    using ib by (simp add: upt_conv_Cons)
  then have xy: "x = (sy_source s)\<lparr>as_size := fst (the_request input k), as_eof := snd (the_request input k)\<rparr>" "y = sy_sink s"
      "d = (sy_driver s)\<lparr>d_agents := update_agent (\<lambda>a. a\<lparr>inbox := map (the_request input) [Suc k..<sent input (sy_pc s) p]\<rparr>) 0
         (d_agents (sy_driver s))\<rparr>"
    using c by (auto simp: the_agent_def case_prod_unfold)
  have "server_inv input k True x y" using i(9) xy(1,2) by (simp add: server_inv_def)
  moreover have "agent_inv f input (sent input (sy_pc s) p) p k True
      ((the_agent s)\<lparr>inbox := map (the_request input) [Suc k..<sent input (sy_pc s) p]\<rparr>)"
    using i(8) assms(2) \<open>k < sent input (sy_pc s) p\<close> by (simp add: agent_inv_def)
  ultimately show ?thesis using i assms(3) xy unfolding sys_inv_def by (simp add: the_agent_def)
qed

lemma unat_chunk: "unat (word_of_nat (length (chunk input i)) :: u64) = length (chunk input i)"
proof -
  have "B < 2 ^ 64" by (simp add: BufferSize_def)
  moreover have "length (chunk input i) \<le> B" unfolding length_chunk by (rule min.cobounded1)
  ultimately have "length (chunk input i) < 2 ^ 64" by (rule le_less_trans [rotated])
  then show ?thesis unfolding unat_of_nat by simp
qed

lemma chunk_size_0: "(word_of_nat (length (chunk input i)) :: u64) = 0 \<longleftrightarrow> chunk input i = []"
proof
  assume "(word_of_nat (length (chunk input i)) :: u64) = 0"
  then have "length (chunk input i) = unat (0 :: u64)" using unat_chunk [of input i] by (simp only:)
  then show "chunk input i = []" by simp
qed simp

lemma inv_end:
  assumes "sys_inv f input p k s" "sy_busy s" "inputBuffer (the_agent s) = Some bi" "outputBuffer (the_agent s) = Some bo"
    and "as_dataSource (sy_source s) (sy_driver s) = Some (Inr ds, sy_driver s)"
    and "ak_dataSink (sy_sink s) (sy_driver s) = Some (Inr dk, sy_driver s)"
    and "data = take (unat (ds_size ds)) (sy_in s (half_at bi (ds_address ds)))"
    and "out = (if ds_size ds = 0 then [] else f (length (sy_log s)) data)"
    and "finalize_both W pl (word_of_nat (length out)) (sy_source s) (sy_sink s) (sy_driver s) = Some (Inr (x, y), d)"
  shows "data = chunk input k \<and> out = outs f input k \<and> half_at bo (ds_address dk) = odd k \<and>
    sys_inv f input p (Suc k) (s\<lparr>sy_source := x, sy_sink := y, sy_driver := d, sy_busy := False,
       sy_ended := as_endOfInput (sy_source s), sy_log := sy_log s @ [data],
       sy_out := put_half (half_at bo (ds_address dk)) out (sy_out s)\<rparr>)"
proof -
  note i = invD [OF assms(1)]
  let ?q = "sent input (sy_pc s) p"
  have x: "as_agent (sy_source s) = 0" "as_skipSending (sy_source s)" "ak_agent (sy_sink s) = 0" "f_inode_id (as_base (sy_source s)) = 0"
      "(as_size (sy_source s), as_eof (sy_source s)) = the_request input k"
    using i(9) assms(2) by (simp_all add: server_inv_def)
  have ds: "ds_address ds = buffer_current bi" "ds_size ds = as_size (sy_source s)"
    using assms(3,5) x by (auto simp: as_dataSource_def read_agent_def the_agent_def ret_def)
  have dk: "ds_address dk = buffer_current bo"
    using assms(4,6) x by (auto simp: ak_dataSink_def read_agent_def the_agent_def ret_def)
  have cur: "b_current bi = odd k" "b_current bo = odd k" using i(8) assms(3,4) by (auto simp: agent_inv_def)
  have kq: "Suc k \<le> ?q" "p \<le> k" using i(8) assms(2) by (simp_all add: agent_inv_def)
  then have k: "k = p" "p < rounds input" using i(12) by (auto simp: sent_def split: if_splits)
  then have r: "k < reads_done input (sy_pc s) p" "reads_done input (sy_pc s) p \<le> k + 2" by (auto simp: reads_done_def)
  then have "take (length (chunk input k)) (sy_in s (odd k)) = chunk input k"
    using i(6) by (auto simp: client_inv_def Let_def)
  then have data: "data = chunk input k"
    using assms(7) ds cur x(5) by (simp add: the_request_def unat_chunk)
  have out: "out = outs f input k"
    using assms(8) data ds(2) x(5) i(5) by (simp add: outs_def the_request_def chunk_size_0)
  have eof: "as_endOfInput (sy_source s) \<longleftrightarrow> Suc k = rounds input" using x(4,5) by (simp add: as_endOfInput_def the_request_def)
  have xy: "x = sy_source s" "y = sy_sink s" "d = (sy_driver s)\<lparr>d_agents := update_agent (\<lambda>a. a\<lparr>inputBuffer := Some (buffer_swap bi),
      outputBuffer := Some (buffer_swap bo),
      processing_responses := processing_responses a @
        [\<lparr>pr_size = Some (word_of_nat (length out)), pr_eof = as_endOfInput (sy_source s), pr_message = Some (ak_message pl (sy_sink s))\<rparr>],
      terminated := terminated a \<or> as_endOfInput (sy_source s)\<rparr>) 0 (d_agents (sy_driver s))\<rparr>"
    using assms(9) finalize_both_eq [OF i(1) x(1-3), of bi bo W pl "word_of_nat (length out)"] assms(3,4)
    by (auto simp: the_agent_def)
  have "agent_inv f input ?q p (Suc k) False (d_agents d ! 0)"
    using i(1,8) assms(2) kq cur eof xy(3) out
    by (simp add: agent_inv_def the_agent_def buffer_swap_def the_response_def response_size_def)
  moreover have "server_inv input (Suc k) False x y" using i(9) xy by (simp add: server_inv_def)
  moreover have "out_inv f input (Suc k) (put_half (odd k) out (sy_out s))"
  proof -
    have "take (length (outs f input j)) (put_half (odd k) out (sy_out s) (odd j)) = outs f input j"
      if "j < Suc k" "Suc k \<le> j + 2" for j
    proof (cases "j = k")
      case False
      then have "j < k" "k \<le> j + 2" "k = Suc j" using that by auto
      then show ?thesis using i(10) by (simp add: out_inv_def put_half_def)
    qed (simp add: put_half_def out)
    then show ?thesis by (simp add: out_inv_def)
  qed
  ultimately show ?thesis
    using i data out cur dk k eof xy unfolding sys_inv_def by (simp add: the_agent_def)
qed

text \<open>How far the system has come: every step of the process and of the driver counts one.\<close>

fun place :: "pc \<Rightarrow> nat" where
  "place Sending = 0" | "place Writing = 1" | "place Reading = 2" | "place Waiting = 3" | "place Exited = 2"

definition progress :: "nat \<Rightarrow> nat \<Rightarrow> ('t, 'c) system \<Rightarrow> nat" where
  "progress p k s = 4 * p + place (sy_pc s) + 2 * k + (if sy_busy s then 1 else 0)"

text \<open>What a step does to the output: either the process writes, or it keeps what it has written.\<close>

definition keeps_output :: "nat \<Rightarrow> ('t, 'c) system \<Rightarrow> nat \<Rightarrow> ('t, 'c) system \<Rightarrow> bool" where
  "keeps_output p s p' s' \<longleftrightarrow>
     c_stdout (sy_client s') = c_stdout (sy_client s) \<and> c_out (sy_client s') = c_out (sy_client s) \<and>
     written (sy_pc s') p' = written (sy_pc s) p"

lemma inv_step:
  assumes "step W pl f s s'" "sys_inv f input p k s"
  obtains (writes) "sy_pc s = Writing" "s' = client_writes s" "sys_inv f input p k s'"
      "progress p k s' = Suc (progress p k s)"
  | (keeps) p' where "sys_inv f input p' k s'" "progress p' k s' = Suc (progress p k s)" "keeps_output p s p' s'"
      "sy_out s' = sy_out s"
  | (runs) "sys_inv f input p (Suc k) s'" "progress p (Suc k) s' = Suc (progress p k s)" "keeps_output p s p s'"
      "sy_out s' = put_half (odd k) (outs f input k) (sy_out s)"
  using assms(1)
proof cases
  case c_send
  then show ?thesis
    using inv_send [OF assms(2)] by (intro keeps [of p]) (simp_all add: progress_def client_sends_def keeps_output_def written_def)
next
  case c_write
  then show ?thesis
    using inv_write [OF assms(2)] by (intro writes) (simp_all add: progress_def client_writes_def)
next
  case c_read
  then show ?thesis
    using inv_read [OF assms(2)]
    by (intro keeps [of p]) (auto simp: progress_def client_reads_def keeps_output_def written_def client_next_def client_read_def
        case_prod_unfold Let_def split: option.splits)
next
  case c_receive
  then show ?thesis
    using inv_receive [OF assms(2)]
    by (intro keeps [of "Suc p"]) (simp_all add: progress_def client_receives_def keeps_output_def written_def)
next
  case (s_begin x y d)
  then show ?thesis
    using inv_begin [OF assms(2)] by (intro keeps [of p]) (simp_all add: progress_def keeps_output_def)
next
  case (s_end bi bo ds dk data out x y d)
  note e = inv_end [OF assms(2) s_end(2-9)]
  show ?thesis
  proof (rule runs)
    show "progress p (Suc k) s' = Suc (progress p k s)" unfolding s_end(1) using s_end(2) by (simp add: progress_def)
    show "sys_inv f input p (Suc k) s'" using e unfolding s_end(1) by blast
    show "keeps_output p s p s'" unfolding s_end(1) by (simp add: keeps_output_def)
    show "sy_out s' = put_half (odd k) (outs f input k) (sy_out s)"
      unfolding s_end(1) using e [THEN conjunct2, THEN conjunct1] e [THEN conjunct2, THEN conjunct2, THEN conjunct1] by simp
  qed
qed

lemma inv_start:
  assumes "start_ok input s"
  shows "sys_inv f input 0 0 s"
proof -
  note st = assms [unfolded start_ok_def]
  obtain m where m: "(sy_client s, sy_in s) = client_read \<lparr>c_input = input, c_in = Some False, c_out = Some False,
        c_bytesRead = 0, c_eof = False, c_stdout = [], c_stderr = []\<rparr> m" using st by blast
  have r: "reads_done input Sending 0 = 1" by (simp add: reads_done_def rounds_def)
  have "client_inv input Sending 0 (sy_client s) (sy_in s)"
    using m last_chunk [of input 0] unfolding client_inv_def r
    by (auto simp: client_read_def put_half_def the_request_def chunk_def Let_def rounds_def)
  then show ?thesis
    using st unfolding sys_inv_def
    by (auto simp: resp_inv_def no_response_def response_size_def agent_inv_def sent_def server_inv_def out_inv_def)
qed

lemma inv_reachable:
  assumes "reachable W pl f s0 n s" "start_ok input s0"
  shows "\<exists>p k. sys_inv f input p k s \<and> progress p k s = n"
  using assms
proof (induction rule: reachable.induct)
  case start
  then show ?case
    using inv_start [of input s0 f] by (intro exI [of _ 0]) (simp add: progress_def start_ok_def)
next
  case (more n s s')
  then obtain p k where pk: "sys_inv f input p k s" "progress p k s = n" by blast
  show ?case by (rule inv_step [OF more.hyps(2) pk(1)]) (use pk(2) in blast)+
qed

lemma progress_bound:
  assumes "sys_inv f input p k s"
  shows "progress p k s \<le> 6 * rounds input + 2"
proof -
  note i = invD [OF assms]
  have "4 * p + place (sy_pc s) \<le> 4 * rounds input + 2"
    using i(7,12) by (cases "sy_pc s") (auto simp: resp_inv_def)
  moreover have "2 * k + (if sy_busy s then 1 else 0) \<le> 2 * rounds input" using i(2-4) by (cases "k = rounds input") auto
  ultimately show ?thesis by (simp add: progress_def)
qed

text \<open>The system never gets stuck.\<close>

lemma can_step:
  assumes "sys_inv f input p k s" "sy_pc s \<noteq> Exited"
  shows "\<exists>s'. step W pl f s s'"
proof (cases "sy_pc s = Waiting")
  case False
  then show ?thesis using assms(2) step.intros(1-3) by (cases "sy_pc s") blast+
next
  case True
  note i = invD [OF assms(1)]
  show ?thesis
  proof (cases "processing_responses (the_agent s) = []")
    case False
    then show ?thesis using True step.c_receive by blast
  next
    case empty: True
    then have k: "k = p" using i(8) by (auto simp: agent_inv_def)
    have p: "p < rounds input" using i(7) True by (simp add: resp_inv_def)
    have x: "as_agent (sy_source s) = 0" "as_skipSending (sy_source s)" "ak_agent (sy_sink s) = 0" "ak_skipReceiving (sy_sink s)"
        "k_inode_id (ak_base (sy_sink s)) = 0"
      using i(9) by (simp_all add: server_inv_def)
    obtain bi bo where b: "inputBuffer (the_agent s) = Some bi" "outputBuffer (the_agent s) = Some bo"
      using i(8) by (auto simp: agent_inv_def)
    show ?thesis
    proof (cases "sy_busy s")
      case busy: True
      have "\<exists>ds. as_dataSource (sy_source s) (sy_driver s) = Some (Inr ds, sy_driver s)"
        using b x by (simp add: as_dataSource_def read_agent_def the_agent_def)
      moreover have "\<exists>dk. ak_dataSink (sy_sink s) (sy_driver s) = Some (Inr dk, sy_driver s)"
        using b x by (simp add: ak_dataSink_def read_agent_def the_agent_def)
      ultimately show ?thesis
        using step.s_end [OF busy b] finalize_both_eq [OF i(1) x(1-3) b [unfolded the_agent_def]] by blast
    next
      case idle: False
      have "inbox (the_agent s) = [the_request input k]"
        using i(8) idle k p True by (simp add: agent_inv_def sent_def)
      then have "\<exists>x y d. configure_both W (sy_log s = []) (sy_source s) (sy_sink s) (sy_driver s) = Some (Inr (x, y), d)"
        using configure_both_eq [OF i(1) x(1,3-5), where W = W and initial = "sy_log s = []"] b by (simp add: the_agent_def the_request_def)
      moreover have "\<not> sy_ended s" using i(3) k p by simp
      ultimately show ?thesis using step.s_begin [OF idle] by blast
    qed
  qed
qed

lemma exit_reachable:
  assumes "start_ok input s0"
  shows "\<exists>n s. reachable W pl f s0 n s \<and> sy_pc s = Exited"
proof (rule ccontr)
  assume no: "\<not> ?thesis"
  have "\<exists>s. reachable W pl f s0 n s" for n
  proof (induction n)
    case 0
    then show ?case using reachable.start by blast
  next
    case (Suc n)
    then obtain s where s: "reachable W pl f s0 n s" by blast
    then obtain p k where "sys_inv f input p k s" using inv_reachable [OF _ assms] by blast
    then show ?case using can_step no s reachable.more by blast
  qed
  then obtain s where "reachable W pl f s0 (6 * rounds input + 3) s" by blast
  then show False using inv_reachable [OF _ assms] progress_bound by fastforce
qed

text \<open>
  C5: the exchange between a process and the driver ends.  From the start of the loops, in every
  interleaving of process and driver, there is a step as long as the process has not exited, no run
  has more than \<open>6 n + 2\<close> steps for \<open>n\<close> chunks of input, and every run of the pipeline has got its chunk
  of the input; at the exit of the process these were all chunks, that is the whole input.
\<close>

theorem exchange_ends:
  assumes "start_ok input s0" "reachable W pl f s0 n s"
  shows "n \<le> 6 * rounds input + 2 \<and> (sy_pc s \<noteq> Exited \<longrightarrow> (\<exists>s'. step W pl f s s')) \<and>
    (\<exists>k \<le> rounds input. sy_log s = map (chunk input) [0..<k]) \<and>
    (sy_pc s = Exited \<longrightarrow> sy_ended s \<and> concat (sy_log s) = input)"
proof -
  obtain p k where i: "sys_inv f input p k s" "progress p k s = n" using inv_reachable [OF assms(2,1)] by blast
  note d = invD [OF i(1)]
  have "k = rounds input" if "sy_pc s = Exited"
    using d(4,7,8) that by (simp add: resp_inv_def agent_inv_def)
  then show ?thesis
    using progress_bound [OF i(1)] can_step [OF i(1)] d(3-5) i(2) all_chunks by auto
qed

section \<open>The output\<close>

lemma unat_out:
  assumes "length (outs f input i) \<le> B"
  shows "unat (word_of_nat (length (outs f input i)) :: u64) = length (outs f input i)"
proof -
  have "B < 2 ^ 64" by (simp add: BufferSize_def)
  with assms have "length (outs f input i) < 2 ^ 64" by (rule le_less_trans)
  then show ?thesis unfolding unat_of_nat by simp
qed

text \<open>What a write of the process does, when the last response is that of the run before.\<close>

lemma write_effect:
  assumes "sys_inv f input p k s" "sy_pc s = Writing" "length (outs f input (p - 1)) \<le> B" "c_out (sy_client s) = Some h"
  shows "written (sy_pc (client_writes s)) p = p" "written (sy_pc s) p = p - 1"
    "p = 0 \<or> outs f input (p - 1) = [] \<Longrightarrow>
       c_stdout (sy_client (client_writes s)) = c_stdout (sy_client s) \<and> c_out (sy_client (client_writes s)) = Some h"
    "p \<noteq> 0 \<Longrightarrow> outs f input (p - 1) \<noteq> [] \<Longrightarrow>
       c_stdout (sy_client (client_writes s)) = c_stdout (sy_client s) @ take (length (outs f input (p - 1))) (sy_out s h) \<and>
       c_out (sy_client (client_writes s)) = Some (\<not> h)"
    "p \<noteq> 0 \<Longrightarrow> take (length (outs f input (p - 1))) (sy_out s (odd (p - 1))) = outs f input (p - 1)"
proof -
  note i = invD [OF assms(1), unfolded assms(2)]
  show "written (sy_pc (client_writes s)) p = p" "written (sy_pc s) p = p - 1"
    using assms(2) by (simp_all add: written_def client_writes_def)
  have rs: "response_size (sy_resp s) = (if p = 0 then 0 else word_of_nat (length (outs f input (p - 1))))"
    using i(7) by (auto simp: resp_inv_def the_response_def split: if_splits)
  then have u: "unat (response_size (sy_resp s)) = (if p = 0 then 0 else length (outs f input (p - 1)))"
    using unat_out [OF assms(3)] by simp
  have z: "response_size (sy_resp s) = 0 \<longleftrightarrow> p = 0 \<or> outs f input (p - 1) = []"
    using u by (metis length_0_conv unat_eq_0)
  show "p = 0 \<or> outs f input (p - 1) = [] \<Longrightarrow>
       c_stdout (sy_client (client_writes s)) = c_stdout (sy_client s) \<and> c_out (sy_client (client_writes s)) = Some h"
    using z assms(4) by (auto simp: client_writes_def client_write_def Let_def split: option.splits)
  show "p \<noteq> 0 \<Longrightarrow> outs f input (p - 1) \<noteq> [] \<Longrightarrow>
       c_stdout (sy_client (client_writes s)) = c_stdout (sy_client s) @ take (length (outs f input (p - 1))) (sy_out s h) \<and>
       c_out (sy_client (client_writes s)) = Some (\<not> h)"
    using z u assms(4) by (auto simp: client_writes_def client_write_def Let_def split: option.splits)
  have "p \<le> k" "k \<le> sent input Writing p" using i(8) by (auto simp: agent_inv_def split: if_splits)
  then have "k \<le> p + 1" by (auto simp: sent_def split: if_splits)
  then show "p \<noteq> 0 \<Longrightarrow> take (length (outs f input (p - 1))) (sy_out s (odd (p - 1))) = outs f input (p - 1)"
    using i(10) [unfolded out_inv_def, THEN spec, of "p - 1"] \<open>p \<le> k\<close> by auto
qed

definition stdout_ok :: "(nat \<Rightarrow> bytes \<Rightarrow> bytes) \<Rightarrow> bytes \<Rightarrow> nat \<Rightarrow> client \<Rightarrow> bool" where
  "stdout_ok f input w c \<longleftrightarrow> c_stdout c = concat (map (outs f input) [0..<w]) \<and> (w < rounds input \<longrightarrow> c_out c = Some (odd w))"

lemma stdout_reachable:
  assumes "reachable W pl f s0 n s" "start_ok input s0"
    and "\<And>i. Suc i < rounds input \<Longrightarrow> outs f input i \<noteq> []" "\<And>i. length (outs f input i) \<le> B"
  shows "\<exists>p k. sys_inv f input p k s \<and> stdout_ok f input (written (sy_pc s) p) (sy_client s)"
  using assms
proof (induction rule: reachable.induct)
  case start
  then show ?case
    using inv_start [of input s0 f]
    by (intro exI [of _ 0]) (auto simp: stdout_ok_def written_def start_ok_def client_read_def Let_def)
next
  case (more n s s')
  then obtain p k where pk: "sys_inv f input p k s" "stdout_ok f input (written (sy_pc s) p) (sy_client s)" by blast
  show ?case
  proof (rule inv_step [OF more.hyps(2) pk(1)])
    assume w: "sy_pc s = Writing" "s' = client_writes s" "sys_inv f input p k s'"
    have p: "p \<le> rounds input" using invD(12) [OF pk(1)] .
    have "c_out (sy_client s) = Some (odd (p - 1))"
      using pk(2) w(1) p by (cases "p = 0") (auto simp: stdout_ok_def written_def)
    note e = write_effect [OF pk(1) w(1) more.prems(3) this]
    have cc: "concat (map (outs f input) [0..<p]) =
        concat (map (outs f input) [0..<p - 1]) @ (if p = 0 then [] else outs f input (p - 1))"
      by (cases p) simp_all
    have "stdout_ok f input p (sy_client s')"
    proof (cases "p = 0 \<or> outs f input (p - 1) = []")
      case True
      then have "p = 0 \<or> p = rounds input" using more.prems(2) [of "p - 1"] p by fastforce
      then show ?thesis
        using e(2,3) True pk(2) w(2) \<open>c_out (sy_client s) = Some (odd (p - 1))\<close> cc
        by (auto simp: stdout_ok_def)
    next
      case False
      then show ?thesis using e(2,4,5) pk(2) w(2) cc by (auto simp: stdout_ok_def)
    qed
    then show ?thesis using w(2,3) e(1) by auto
  qed (use pk(2) in \<open>auto simp: stdout_ok_def keeps_output_def\<close>)
qed

text \<open>
  C11: the output.  If every run but the last one has output, the process writes exactly the outputs of
  all runs, in their order, whatever the interleaving.
\<close>

theorem output_in_order:
  assumes "start_ok input s0" "reachable W pl f s0 n s" "sy_pc s = Exited"
    and "\<And>i. Suc i < rounds input \<Longrightarrow> outs f input i \<noteq> []" "\<And>i. length (outs f input i) \<le> B"
  shows "c_stdout (sy_client s) = concat (map (outs f input) [0..<rounds input])"
proof -
  obtain p k where "sys_inv f input p k s" "stdout_ok f input (written (sy_pc s) p) (sy_client s)"
    using stdout_reachable [OF assms(2,1,4,5)] by blast
  then show ?thesis
    using invD(7) assms(3) by (fastforce simp: stdout_ok_def written_def resp_inv_def)
qed

text \<open>With a first run that has no output, the process stays at the first half.\<close>

definition stale :: "(nat \<Rightarrow> bytes \<Rightarrow> bytes) \<Rightarrow> bytes \<Rightarrow> bytes \<Rightarrow> nat \<Rightarrow> client \<Rightarrow> halves \<Rightarrow> bool" where
  "stale f input old w c m \<longleftrightarrow> m False = old \<and>
     (if w < 2 then c_stdout c = [] \<and> c_out c = Some False else c_stdout c = take (length (outs f input 1)) old)"

lemma stale_reachable:
  assumes "reachable W pl f s0 n s" "start_ok input s0"
    and "rounds input = 2" "outs f input 0 = []" "outs f input 1 \<noteq> []" "length (outs f input 1) \<le> B"
  shows "\<exists>p k. sys_inv f input p k s \<and> stale f input (sy_out s0 False) (written (sy_pc s) p) (sy_client s) (sy_out s)"
  using assms
proof (induction rule: reachable.induct)
  case start
  then show ?case
    using inv_start [of input s0 f]
    by (intro exI [of _ 0]) (auto simp: stale_def written_def start_ok_def client_read_def Let_def)
next
  case (more n s s')
  let ?old = "sy_out s0 False"
  obtain p k where pk: "sys_inv f input p k s" "stale f input ?old (written (sy_pc s) p) (sy_client s) (sy_out s)"
    using more by blast
  have p: "p \<le> 2" using invD(12) [OF pk(1)] more.prems(2) by simp
  show ?case
  proof (rule inv_step [OF more.hyps(2) pk(1)])
    assume w: "sy_pc s = Writing" "s' = client_writes s" "sys_inv f input p k s'"
    have "written (sy_pc s) p < 2" using w(1) p by (simp add: written_def)
    then have c: "c_out (sy_client s) = Some False" "c_stdout (sy_client s) = []" using pk(2) by (simp_all add: stale_def)
    have "length (outs f input (p - 1)) \<le> B" using p more.prems(3,5) by (cases "p = 2") (auto simp: le_Suc_eq numeral_2_eq_2)
    note e = write_effect [OF pk(1) w(1) this c(1)]
    have "stale f input ?old p (sy_client s') (sy_out s')"
    proof (cases "p = 2")
      case True
      then show ?thesis using e(4) c more.prems(4) pk(2) w(2) by (simp add: stale_def client_writes_def)
    next
      case False
      then have "p = 0 \<or> outs f input (p - 1) = []" using p more.prems(3) by (cases "p = 1") auto
      then show ?thesis using e(3) c p False pk(2) w(2) by (simp add: stale_def client_writes_def)
    qed
    then show ?thesis using w(2,3) e(1) by auto
  next
    assume r: "sys_inv f input p (Suc k) s'" "keeps_output p s p s'" "sy_out s' = put_half (odd k) (outs f input k) (sy_out s)"
    have "k < 2" using invD(4) [OF r(1)] more.prems(2) by simp
    then have "sy_out s' False = ?old"
      using r(3) more.prems(3) pk(2) by (cases "k = 0") (auto simp: put_half_def stale_def)
    then show ?thesis using pk(2) r(1,2) by (auto simp: stale_def keeps_output_def)
  qed (use pk(2) in \<open>auto simp: stale_def keeps_output_def\<close>)
qed

text \<open>
  C37: a run without output.  The driver changes the half of the output buffer after every run, the
  process only when it gets a number of bytes that is not 0.  So when the first of two runs has no
  output, the process takes the output of the second one from the wrong half and writes what was in
  the memory at the start.
\<close>

theorem empty_run_loses_output:
  assumes "start_ok input s0" "reachable W pl f s0 n s" "sy_pc s = Exited"
    and "rounds input = 2" "outs f input 0 = []" "outs f input 1 \<noteq> []" "length (outs f input 1) \<le> B"
  shows "c_stdout (sy_client s) = take (length (outs f input 1)) (sy_out s0 False)"
proof -
  obtain p k where i: "sys_inv f input p k s" "stale f input (sy_out s0 False) (written (sy_pc s) p) (sy_client s) (sy_out s)"
    using stale_reachable [OF assms(2,1,4-7)] by blast
  have "p = 2" using invD(7) [OF i(1)] assms(3,4) by (simp add: resp_inv_def)
  then show ?thesis using i(2) assms(3) by (simp add: stale_def written_def)
qed

section \<open>A concrete system\<close>

definition ex_os :: "fpga os_lib" where
  "ex_os = \<lparr>os_mkstemp = (\<lambda>t c. (3, t, c)), os_open = (\<lambda>_ _ c. (3, c)), os_ftruncate = (\<lambda>_ _ c. (0, c)),
     os_mmap = (\<lambda>_ _ _ c. (Some 0x10000000, c)), os_munmap = (\<lambda>_ _ c. c), os_close = (\<lambda>_ c. c),
     os_realpath = (\<lambda>p _. Some p), os_read_file = (\<lambda>_ _ _. None)\<rparr>"

definition ex_cxxopts :: "(option_decl list, unit) cxxopts_lib" where
  "ex_cxxopts = \<lparr>cx_Options = (\<lambda>_ _. []), cx_add_option = (\<lambda>d ds. Inr (ds @ [d])), cx_parse_positional = (\<lambda>_ ds. ds),
     cx_parse = (\<lambda>_ _. Inr ()), cx_help = (\<lambda>_. ''''), cx_bool = (\<lambda>_ _. Inr False), cx_u32 = (\<lambda>_ _. Inr 0),
     cx_u64 = (\<lambda>_ _. Inr 4096), cx_string = (\<lambda>_ _. Inr '''')\<rparr>"

definition ex_world :: "(ref_db, fpga, option_decl list, unit) world" where
  "ex_world = \<lparr>w_db = ref_ops, w_snap = fpga_lib False 0, w_os = ex_os, w_cxxopts = ex_cxxopts, w_mounts = [],
     w_filesystem = (\<lambda>_. (dram_ps, None))\<rparr>"

definition ex_buffer :: "u64 \<Rightarrow> buffer" where
  "ex_buffer a = \<lparr>b_filename = [], b_file = 3, b_base = a, b_current = False\<rparr>"

definition ex_driver :: "(ref_db, fpga) driver" where
  "ex_driver = \<lparr>d_card = idle_fpga,
     d_agents = [(new_OperatorAgent (ex_request 10 0 0) [])\<lparr>inputBuffer := Some (ex_buffer 0x10000000),
       outputBuffer := Some (ex_buffer 0x20000000)\<rparr>],
     d_fs = (\<lambda>_. \<lparr>env = env dram_ctx, metadata = metadata dram_ctx, storage = ()\<rparr>)\<rparr>"

definition host_range :: DataSource where
  "host_range = \<lparr>ds_address = 0, ds_size = BufferSize, ds_addressType = Host, ds_mapType = MapNone\<rparr>"

text \<open>The system at its start, with given contents of the output buffer.\<close>

definition ex_start :: "bytes \<Rightarrow> halves \<Rightarrow> (ref_db, fpga) system" where
  "ex_start input m =
     (case client_read \<lparr>c_input = input, c_in = Some False, c_out = Some False, c_bytesRead = 0, c_eof = False,
        c_stdout = [], c_stderr = []\<rparr> (\<lambda>_. []) of
        (c, im) \<Rightarrow> \<lparr>sy_client = c, sy_pc = Sending, sy_resp = no_response, sy_in = im, sy_out = m, sy_driver = ex_driver,
          sy_source = \<lparr>as_base = \<lparr>s_dataSource = host_range, s_profilingEnabled = False, s_profilingResults = [],
            f_inode_id = 0, f_fileLength = 0, f_extents = []\<rparr>, as_fs = None, as_agent = 0, as_skipSending = True,
            as_remainingTotalSize = 0, as_size = 0, as_eof = False\<rparr>,
          sy_sink = \<lparr>ak_base = \<lparr>k_dataSink = host_range, k_profilingEnabled = False, k_profilingResults = [],
            k_inode_id = 0, k_truncateOnFinalize = True, k_extents = [], k_filesystem = False, k_cachedTotalSize = 0\<rparr>,
            ak_fs = None, ak_agent = 0, ak_skipReceiving = True\<rparr>,
          sy_busy = False, sy_ended = False, sy_log = []\<rparr>)"

lemma ex_start_ok: "start_ok input (ex_start input m)" and ex_start_out: "sy_out (ex_start input m) = m"
  by (auto simp: start_ok_def ex_start_def ex_driver_def ex_buffer_def the_agent_def new_OperatorAgent_def case_prod_unfold)

definition no_operators :: Pipeline where
  "no_operators = \<lparr>operators = [], cachedSwitchConfiguration = False\<rparr>"

lemma B_value: "B = 67108864"
  by (simp add: BufferSize_def)

lemma three_bytes: "rounds [1, 2, 3] = 1" "chunk [1, 2, 3] 0 = [1, 2, 3]"
  unfolding rounds_def chunk_def B_value by simp_all

lemma outs_id: "length (outs (\<lambda>_ x. x) input i) \<le> B" "outs (\<lambda>_ x. x) input i = chunk input i"
  by (simp_all add: outs_def length_chunk)

theorem exchange_ends_witness:
  "\<exists>n s. reachable ex_world no_operators (\<lambda>_ x. x) (ex_start [1, 2, 3] (\<lambda>_. [])) n s \<and> n \<le> 8 \<and> sy_pc s = Exited \<and>
     concat (sy_log s) = [1, 2, 3]"
proof -
  obtain n s where s: "reachable ex_world no_operators (\<lambda>_ x. x) (ex_start [1, 2, 3] (\<lambda>_. [])) n s" "sy_pc s = Exited"
    using exit_reachable [OF ex_start_ok] by blast
  then show ?thesis using exchange_ends [OF ex_start_ok s(1)] three_bytes(1) by auto
qed

theorem output_in_order_witness:
  "\<exists>n s. reachable ex_world no_operators (\<lambda>_ x. x) (ex_start [1, 2, 3] (\<lambda>_. [])) n s \<and> sy_pc s = Exited \<and>
     c_stdout (sy_client s) = [1, 2, 3]"
proof -
  obtain n s where s: "reachable ex_world no_operators (\<lambda>_ x. x) (ex_start [1, 2, 3] (\<lambda>_. [])) n s" "sy_pc s = Exited"
    using exit_reachable [OF ex_start_ok] by blast
  have "c_stdout (sy_client s) = concat (map (outs (\<lambda>_ x. x) [1, 2, 3]) [0..<rounds [1, 2, 3]])"
    by (rule output_in_order [OF ex_start_ok s _ outs_id(1)]) (simp add: three_bytes(1))
  then show ?thesis using s three_bytes outs_id(2) [of "[1, 2, 3]" 0] by auto
qed

theorem empty_run_loses_output_witness:
  "\<exists>n s. reachable ex_world no_operators (\<lambda>i _. if i = 0 then [] else [7])
       (ex_start (replicate (Suc B) 0) (\<lambda>_. [42])) n s \<and> sy_pc s = Exited \<and> c_stdout (sy_client s) = [42]"
proof -
  define input where "input = replicate (Suc B) (0 :: u8)"
  let ?f = "\<lambda>i (_ :: bytes). if i = 0 then [] else [7 :: u8]"
  obtain n s where s: "reachable ex_world no_operators ?f (ex_start input (\<lambda>_. [42])) n s" "sy_pc s = Exited"
    using exit_reachable [OF ex_start_ok] by blast
  have "length input = Suc B" unfolding input_def by (rule length_replicate)
  then have r: "rounds input = 2" unfolding rounds_def B_value by simp
  have "drop B input = replicate 1 0" unfolding input_def drop_replicate by simp
  then have "chunk input 1 = [0]" unfolding chunk_def using B_pos by (cases B) simp_all
  then have o: "outs ?f input 0 = []" "outs ?f input 1 = [7]" by (simp_all add: outs_def)
  have "c_stdout (sy_client s) = take (length (outs ?f input 1)) (sy_out (ex_start input (\<lambda>_. [42])) False)"
    by (rule empty_run_loses_output [OF ex_start_ok s r o(1)]) (use o(2) B_pos in auto)
  then show ?thesis using s o(2) unfolding input_def by (auto simp: ex_start_out)
qed

end
