(* ===== verification/Messages.thy ===== *)
theory Messages
  imports Agents
begin

text \<open>
  Messages on the socket between driver and operator processes (\<open>message_header.cpp\<close>, \<open>socket.hpp\<close>).
  What a protobuf message looks like in bytes is code that the build generates: \<open>serialize\<close> and \<open>parse\<close>
  are arguments.
\<close>

section \<open>Sockets\<close>

text \<open>
  A stream socket delivers the bytes in pieces that need not be those that were sent: the state of the
  receiving side is the list of the pieces that are yet to arrive.  A call of \<open>recv\<close> returns at most
  what has arrived, and nothing when the connection has been closed.
\<close>

type_synonym socket = "bytes list"

fun recv :: "nat \<Rightarrow> socket \<Rightarrow> bytes \<times> socket" where
  "recv n [] = ([], [])"
| "recv n (piece # pieces) = (take n piece, if n < length piece then drop n piece # pieces else pieces)"

definition send_bytes :: "bytes \<Rightarrow> bytes list \<Rightarrow> bytes list" where
  "send_bytes bs sent = (if bs = [] then sent else sent @ [bs])"

section \<open>Headers\<close>

datatype MessageType =
    MsgRegistrationRequest | MsgRegistrationResponse | MsgProcessingRequest | MsgProcessingResponse

fun message_code :: "MessageType \<Rightarrow> u32" where
  "message_code MsgRegistrationRequest = 0"
| "message_code MsgRegistrationResponse = 1"
| "message_code MsgProcessingRequest = 2"
| "message_code MsgProcessingResponse = 3"

record MessageHeader =
  mh_type :: u32
  mh_length :: u32

text \<open>The length is a signed number that is widened.\<close>

definition header_length :: "MessageHeader \<Rightarrow> u64" where
  "header_length h = scast (mh_length h)"

definition ntohl :: "bytes \<Rightarrow> u32" where
  "ntohl bs = dec32 (rev bs)"

definition sendHeader :: "MessageHeader \<Rightarrow> bytes list \<Rightarrow> bytes list" where
  "sendHeader h = send_bytes (htobe32 (mh_type h) @ htobe32 (mh_length h))"

definition receive_header :: "(socket, MessageHeader) act" where
  "receive_header s =
     (let (bs, s) = recv 8 s
      in if length bs \<noteq> 8 then throw ''Could not read message header from socket'' s
         else ret \<lparr>mh_type = ntohl (take 4 bs), mh_length = ntohl (drop 4 bs)\<rparr> s)"

section \<open>Messages\<close>

definition sendMessage :: "('m \<Rightarrow> bytes) \<Rightarrow> MessageType \<Rightarrow> 'm \<Rightarrow> bytes list \<Rightarrow> bytes list" where
  "sendMessage serialize T message sent =
     (let buffer = serialize message
      in send_bytes buffer (sendHeader \<lparr>mh_type = message_code T, mh_length = word_of_nat (length buffer)\<rparr> sent))"

text \<open>
  How many bytes have arrived of the body is not looked at, the rest of the buffer is zero; a negative
  length is a vector that is too long.
\<close>

definition receiveMessage :: "(bytes \<Rightarrow> 'm) \<Rightarrow> MessageType \<Rightarrow> (socket, 'm) act" where
  "receiveMessage parse T =
     and_then receive_header (\<lambda>req.
       if mh_type req \<noteq> message_code T then throw ''Unexpected message''
       else if sint (mh_length req) < 0 then throw ''cannot create std::vector larger than max_size()''
       else (\<lambda>s. let n = unat (header_length req); (bs, s) = recv n s
                 in ret (parse (take n (bs @ replicate n 0))) s))"

section \<open>What is sent is received\<close>

lemma ntohl_htobe32: "ntohl (htobe32 w) = w"
  by (simp add: ntohl_def htobe32_def)

lemma scast_small:
  assumes "n < 2 ^ 31"
  shows "unat (scast (word_of_nat n :: u32) :: u64) = n" "\<not> sint (word_of_nat n :: u32) < 0"
proof -
  have s: "sint (word_of_nat n :: u32) = int n"
    using assms by (simp add: signed_of_nat signed_take_bit_int_eq_self)
  then show "\<not> sint (word_of_nat n :: u32) < 0" by simp
  have "(scast (word_of_nat n :: u32) :: u64) = of_int (sint (word_of_nat n :: u32))" by (rule of_int_sint [symmetric])
  also have "\<dots> = word_of_nat n" by (simp only: s of_int_of_nat_eq)
  finally have "(scast (word_of_nat n :: u32) :: u64) = word_of_nat n" .
  moreover have "unat (word_of_nat n :: u64) = n" using assms by (simp add: unat_of_nat)
  ultimately show "unat (scast (word_of_nat n :: u32) :: u64) = n" by (simp only:)
qed

lemma receive_header_sent:
  "receive_header ((htobe32 t @ htobe32 l @ rest) # pieces) =
     Some (Inr \<lparr>mh_type = t, mh_length = l\<rparr>, if rest = [] then pieces else rest # pieces)"
  by (simp add: receive_header_def ntohl_htobe32)

lemma receive_body:
  fixes T :: MessageType
  assumes "length body < 2 ^ 31"
  defines "h \<equiv> htobe32 (message_code T) @ htobe32 (word_of_nat (length body))"
  shows "receiveMessage parse T ((h @ rest) # pieces) =
    (let (bs, s) = recv (length body) (if rest = [] then pieces else rest # pieces)
     in Some (Inr (parse (take (length body) (bs @ replicate (length body) 0))), s))"
  unfolding receiveMessage_def h_def append_assoc
  by (simp add: and_then_def receive_header_sent header_length_def scast_small [OF assms(1)] case_prod_unfold Let_def)

text \<open>
  C38: messages on the socket.  A message that was sent is received as it is when header and body arrive
  in one piece or in the two pieces in which they were sent, and the pieces behind it are kept; one of
  another type is an exception.  But a body that arrives in two pieces is parsed from the first one,
  filled up with zeros, and its rest is taken for the header of the next message.
\<close>

theorem receive_what_was_sent:
  fixes T T' :: MessageType
  assumes "length (serialize message) < 2 ^ 31" "parse (serialize message) = message" "serialize message \<noteq> []"
  defines "h \<equiv> htobe32 (message_code T) @ htobe32 (word_of_nat (length (serialize message)))"
  shows "sendMessage serialize T message [] = [h, serialize message] \<and>
    receiveMessage parse T (sendMessage serialize T message [] @ pieces) = Some (Inr message, pieces) \<and>
    receiveMessage parse T ((h @ serialize message) # pieces) = Some (Inr message, pieces) \<and>
    (T' \<noteq> T \<longrightarrow> receiveMessage parse T' (sendMessage serialize T message [] @ pieces) =
       Some (Inl ''Unexpected message'', serialize message # pieces)) \<and>
    (serialize message = b1 @ b2 \<and> b1 \<noteq> [] \<and> b2 \<noteq> [] \<longrightarrow>
       receiveMessage parse T (h # b1 # b2 # pieces) =
         Some (Inr (parse (b1 @ replicate (length b2) 0)), b2 # pieces))"
proof -
  have s: "sendMessage serialize T message [] = [h, serialize message]"
    using assms(3) by (simp add: sendMessage_def sendHeader_def send_bytes_def h_def htobe32_def enc32_def le_bytes_def Let_def)
  note r = receive_body [OF assms(1), of parse T, folded h_def]
  have "message_code T' \<noteq> message_code T" if "T' \<noteq> T"
    using that by (cases T; cases T') simp_all
  then have t: "receiveMessage parse T' (h # serialize message # pieces) =
      Some (Inl ''Unexpected message'', serialize message # pieces)" if "T' \<noteq> T"
    using that receive_header_sent [of _ _ "[]"] unfolding receiveMessage_def h_def by (simp add: and_then_def)
  show ?thesis using r [of "[]"] r [of "serialize message"] assms(2,3) s t by auto
qed

text \<open>A message of one byte that is a number.\<close>

lemma receive_what_was_sent_witness:
  "receiveMessage hd MsgProcessingRequest (sendMessage (\<lambda>b. [b]) MsgProcessingRequest (7 :: u8) []) = Some (Inr 7, [])"
  using receive_what_was_sent [of "\<lambda>b. [b]" "7 :: u8" hd MsgProcessingRequest "[]" MsgProcessingRequest "[]" "[]",
    THEN conjunct2, THEN conjunct1] by simp

end
