(* ===== verification/Hls_Stream.thy ===== *)
theory Hls_Stream
  imports Metal_Prelude
begin

text \<open>
  The library that operators on the FPGA are written with, and two operators (\<open>metal/stream.h\<close>,
  \<open>changecase.cpp\<close>, \<open>hls_streamgen.cpp\<close>).  A stream is the list of the elements that will arrive;
  reading from an empty one waits for ever.  Data and keep bits of an element are the lists of its
  bytes, the lowest first: \<open>n\<close> is \<open>STREAM_BYTES\<close>, and all ranges of bits that are used are bytes.
\<close>

section \<open>Elements\<close>

record mtl_stream_element =
  se_data :: bytes
  se_keep :: "bool list"
  se_last :: bool

type_synonym mtl_stream = "mtl_stream_element list"

definition zero_element :: "nat \<Rightarrow> mtl_stream_element" where
  "zero_element n = \<lparr>se_data = replicate n 0, se_keep = replicate n False, se_last = False\<rparr>"

definition keeps_any :: "bool list \<Rightarrow> bool" where
  "keeps_any k \<longleftrightarrow> True \<in> set k"

section \<open>Padding\<close>

fun insert_loop ::
  "nat \<Rightarrow> nat \<Rightarrow> mtl_stream_element \<Rightarrow> mtl_stream_element \<Rightarrow> mtl_stream \<Rightarrow> (mtl_stream \<times> mtl_stream) option" where
  "insert_loop n b current_element next_element [] = None"
| "insert_loop n b current_element next_element (element # ins) =
     (let next_element = next_element\<lparr>
            se_data := drop (n - b) (se_data element) @ drop b (se_data next_element),
            se_keep := drop (n - b) (se_keep element) @ drop b (se_keep next_element)\<rparr>;
          current_element = \<lparr>
            se_data = take b (se_data current_element) @ take (n - b) (se_data element),
            se_keep = take b (se_keep current_element) @ take (n - b) (se_keep element),
            se_last = (se_last element \<and> \<not> keeps_any (se_keep next_element))\<rparr>
      in if se_last element
         then Some (current_element # (if keeps_any (se_keep next_element) then [next_element\<lparr>se_last := True\<rparr>] else []), ins)
         else map_option (\<lambda>(out, rest). (current_element # out, rest)) (insert_loop n b next_element next_element ins))"

definition insert_padding :: "nat \<Rightarrow> nat \<Rightarrow> mtl_stream \<Rightarrow> (mtl_stream \<times> mtl_stream) option" where
  "insert_padding n b = insert_loop n b (zero_element n) (zero_element n)"

fun remove_loop ::
  "nat \<Rightarrow> nat \<Rightarrow> mtl_stream_element \<Rightarrow> bool \<Rightarrow> mtl_stream \<Rightarrow> (mtl_stream \<times> mtl_stream) option" where
  "remove_loop n b previous_element valid [] = None"
| "remove_loop n b previous_element valid (current_element # ins) =
     (let out_element = \<lparr>
            se_data = drop b (se_data previous_element) @ take b (se_data current_element),
            se_keep = drop b (se_keep previous_element) @ take b (se_keep current_element),
            se_last = (se_last current_element \<and> \<not> keeps_any (drop b (se_keep current_element)))\<rparr>;
          out = (if valid \<or> se_last out_element then [out_element] else []) @
            (if se_last current_element \<and> \<not> se_last out_element
             then [current_element\<lparr>se_data := drop b (se_data current_element) @ replicate b 0,
                     se_keep := drop b (se_keep current_element) @ replicate b False\<rparr>] else [])
      in if se_last current_element then Some (out, ins)
         else map_option (\<lambda>(out', rest). (out @ out', rest)) (remove_loop n b current_element True ins))"

text \<open>\<open>junk\<close> is the element that is read before it was written.\<close>

definition remove_padding :: "nat \<Rightarrow> nat \<Rightarrow> mtl_stream_element \<Rightarrow> mtl_stream \<Rightarrow> (mtl_stream \<times> mtl_stream) option" where
  "remove_padding n b junk = remove_loop n b junk False"

section \<open>Operators\<close>

definition case_byte :: "bool \<Rightarrow> u8 \<Rightarrow> u8" where
  "case_byte upper tmp =
     (if upper then (if 97 \<le> tmp \<and> tmp \<le> 122 then tmp - 32 else tmp)
      else (if 65 \<le> tmp \<and> tmp \<le> 90 then tmp + 32 else tmp))"

definition case_element :: "u32 \<Rightarrow> mtl_stream_element \<Rightarrow> mtl_stream_element" where
  "case_element mode element =
     element\<lparr>se_data := map (\<lambda>(tmp, keep). if keep then case_byte (mode = 0) tmp else tmp)
       (zip (se_data element) (se_keep element))\<rparr>"

fun changecase :: "u32 \<Rightarrow> mtl_stream \<Rightarrow> (mtl_stream \<times> mtl_stream) option" where
  "changecase mode [] = None"
| "changecase mode (element # ins) =
     (if se_last element then Some ([case_element mode element], ins)
      else map_option (\<lambda>(out, rest). (case_element mode element # out, rest)) (changecase mode ins))"

partial_function (option) streamgen_loop :: "nat \<Rightarrow> u32 \<Rightarrow> u32 \<Rightarrow> mtl_stream option" where
  "streamgen_loop n len bytes_written =
     (let bytes_written = bytes_written + word_of_nat n
      in if bytes_written \<ge> len
         then let k = min n (unat (bytes_written - len))
              in Some [\<lparr>se_data = replicate n 0, se_keep = replicate (n - k) True @ replicate k False, se_last = True\<rparr>]
         else Option.bind (streamgen_loop n len bytes_written) (\<lambda>out.
                Some (\<lparr>se_data = replicate n 0, se_keep = replicate n True, se_last = False\<rparr> # out)))"

definition hls_streamgen :: "nat \<Rightarrow> u32 \<Rightarrow> mtl_stream option" where
  "hls_streamgen n len = streamgen_loop n len 0"

section \<open>Padding is removed again\<close>

text \<open>Packets: full elements, and a last one whose first \<open>k\<close> bytes, at least one, are kept.\<close>

definition full_element :: "nat \<Rightarrow> mtl_stream_element \<Rightarrow> bool" where
  "full_element n e \<longleftrightarrow> length (se_data e) = n \<and> se_keep e = replicate n True \<and> \<not> se_last e"

definition last_element :: "nat \<Rightarrow> mtl_stream_element \<Rightarrow> bool" where
  "last_element n e \<longleftrightarrow> length (se_data e) = n \<and> se_last e \<and>
     (\<exists>k. 0 < k \<and> k \<le> n \<and> se_keep e = replicate k True @ replicate (n - k) False)"

fun packet :: "nat \<Rightarrow> mtl_stream \<Rightarrow> bool" where
  "packet n [] \<longleftrightarrow> False"
| "packet n [e] \<longleftrightarrow> last_element n e"
| "packet n (e # es) \<longleftrightarrow> full_element n e \<and> packet n es"

text \<open>An element up to the bytes that are not kept.\<close>

definition masked :: "mtl_stream_element \<Rightarrow> mtl_stream_element" where
  "masked e = e\<lparr>se_data := map (\<lambda>(d, k). if k then d else 0) (zip (se_data e) (se_keep e))\<rparr>"

lemma keeps_any_simps [simp]:
  "keeps_any (replicate k True) \<longleftrightarrow> 0 < k" "\<not> keeps_any (replicate k False)"
  "keeps_any (xs @ ys) \<longleftrightarrow> keeps_any xs \<or> keeps_any ys"
  by (auto simp: keeps_any_def)

lemma masked_last:
  assumes "se_keep e = replicate k True @ replicate (n - k) False" "k \<le> n" "length (se_data e) = n"
  shows "masked e = e\<lparr>se_data := take k (se_data e) @ replicate (n - k) 0\<rparr>"
proof -
  have "map (\<lambda>(d, k). if k then d else 0) (zip (se_data e) (se_keep e)) = take k (se_data e) @ replicate (n - k) 0"
    using assms by (intro nth_equalityI) (auto simp: nth_append)
  then show ?thesis by (simp add: masked_def)
qed

lemma element_eqI: "se_data e = se_data f \<Longrightarrow> se_keep e = se_keep f \<Longrightarrow> se_last e = se_last f \<Longrightarrow> (e :: mtl_stream_element) = f"
  by (cases e; cases f) simp

text \<open>
  Inserting into the packet \<open>es\<close> behind the \<open>b\<close> bytes that \<open>cur\<close> carries, and removing from what comes
  out: the carried bytes complete the previous element, and the packet is there again.
\<close>

lemma remove_insert:
  assumes "packet n es" "0 < b" "b < n" "length (se_data cur) = n" "length (se_keep cur) = n"
    and "drop b (se_data nxt) = replicate (n - b) 0" "drop b (se_keep nxt) = replicate (n - b) False"
  shows "\<exists>outs es'. insert_loop n b cur nxt (es @ rest) = Some (outs, rest) \<and> map masked es' = map masked es \<and>
    (\<forall>prev valid rest'. remove_loop n b prev valid (outs @ rest') =
       Some ((if valid then [\<lparr>se_data = drop b (se_data prev) @ take b (se_data cur),
           se_keep = drop b (se_keep prev) @ take b (se_keep cur), se_last = False\<rparr>] else []) @ es', rest'))"
  using assms
proof (induction n es arbitrary: cur nxt rule: packet.induct)
  case (2 n e)
  obtain k where k: "0 < k" "k \<le> n" "se_keep e = replicate k True @ replicate (n - k) False" "se_last e" "length (se_data e) = n"
    using 2 by (auto simp: last_element_def)
  show ?case
  proof (cases "k \<le> n - b")
    case True
    define out where "out = \<lparr>se_data = take b (se_data cur) @ take (n - b) (se_data e),
      se_keep = take b (se_keep cur) @ replicate k True @ replicate (n - b - k) False, se_last = True\<rparr>"
    define bk where "bk = out\<lparr>se_data := take (n - b) (se_data e) @ replicate b 0,
      se_keep := replicate k True @ replicate (n - k) False\<rparr>"
    have e: "take (n - b) (se_keep e) = replicate k True @ replicate (n - b - k) False"
      "drop (n - b) (se_keep e) = replicate b False"
      using k True 2 by (auto simp: min_def)
    have "insert_loop n b cur nxt ([e] @ rest) = Some ([out], rest)"
      using k(4) 2 by (simp add: e out_def)
    moreover have "masked bk = masked e"
      using masked_last [of bk k n] masked_last [of e k n] k True 2
      by (intro element_eqI) (simp_all add: bk_def out_def)
    moreover have "remove_loop n b prev valid ([out] @ rest') =
       Some ((if valid then [\<lparr>se_data = drop b (se_data prev) @ take b (se_data cur),
           se_keep = drop b (se_keep prev) @ take b (se_keep cur), se_last = False\<rparr>] else []) @ [bk], rest')" for prev valid and rest' :: mtl_stream
      using k(1) True 2 by (simp add: out_def bk_def replicate_add [symmetric])
    ultimately show ?thesis by (intro exI [of _ "[out]"] exI [of _ "[bk]"]) simp
  next
    case False
    define out where "out = \<lparr>se_data = take b (se_data cur) @ take (n - b) (se_data e),
      se_keep = take b (se_keep cur) @ replicate (n - b) True, se_last = False\<rparr>"
    define out' where "out' = nxt\<lparr>se_data := drop (n - b) (se_data e) @ replicate (n - b) 0,
      se_keep := drop (n - b) (se_keep e) @ replicate (n - b) False, se_last := True\<rparr>"
    have e: "take (n - b) (se_keep e) = replicate (n - b) True" "keeps_any (drop (n - b) (se_keep e))"
      using k False 2 by (auto simp: min_def)
    have "insert_loop n b cur nxt ([e] @ rest) = Some ([out, out'], rest)"
      using k(4) 2 e by (simp add: out_def out'_def)
    moreover have "remove_loop n b prev valid ([out, out'] @ rest') =
       Some ((if valid then [\<lparr>se_data = drop b (se_data prev) @ take b (se_data cur),
           se_keep = drop b (se_keep prev) @ take b (se_keep cur), se_last = False\<rparr>] else []) @ [e], rest')" for prev valid and rest' :: mtl_stream
    proof -
      have "replicate (n - b) True @ drop (n - b) (se_keep e) = se_keep e"
        using e(1) by (metis append_take_drop_id)
      moreover have "length (se_keep e) = n" using k(2,3) by simp
      ultimately show ?thesis using k(4,5) 2 by (auto simp: out_def out'_def intro!: element_eqI)
    qed
    ultimately show ?thesis by (intro exI [of _ "[out, out']"] exI [of _ "[e]"]) simp
  qed
next
  case (3 n e e' es)
  have e: "length (se_data e) = n" "se_keep e = replicate n True" "\<not> se_last e" using 3 by (simp_all add: full_element_def)
  define out where "out = \<lparr>se_data = take b (se_data cur) @ take (n - b) (se_data e),
      se_keep = take b (se_keep cur) @ replicate (n - b) True, se_last = False\<rparr>"
  define nx where "nx = nxt\<lparr>se_data := drop (n - b) (se_data e) @ replicate (n - b) 0,
      se_keep := replicate b True @ replicate (n - b) False\<rparr>"
  have pre: "packet n (e' # es)" "0 < b" "b < n" "length (se_data nx) = n" "length (se_keep nx) = n"
      "drop b (se_data nx) = replicate (n - b) 0" "drop b (se_keep nx) = replicate (n - b) False"
    using 3 e by (simp_all add: nx_def)
  obtain outs es' where ih: "insert_loop n b nx nx ((e' # es) @ rest) = Some (outs, rest)"
      "map masked es' = map masked (e' # es)"
      "\<And>prev valid rest'. remove_loop n b prev valid (outs @ rest') =
       Some ((if valid then [\<lparr>se_data = drop b (se_data prev) @ take b (se_data nx),
           se_keep = drop b (se_keep prev) @ take b (se_keep nx), se_last = False\<rparr>] else []) @ es', rest')"
    using 3(1) [OF pre] by blast
  have "insert_loop n b cur nxt ((e # e' # es) @ rest) = Some (out # outs, rest)"
    using ih(1) 3 e by (simp add: out_def nx_def)
  moreover have "remove_loop n b prev valid ((out # outs) @ rest') =
       Some ((if valid then [\<lparr>se_data = drop b (se_data prev) @ take b (se_data cur),
           se_keep = drop b (se_keep prev) @ take b (se_keep cur), se_last = False\<rparr>] else []) @ e # es', rest')" for prev valid and rest' :: mtl_stream
    using ih(3) [of out True] 3 e
    by (auto simp: out_def nx_def replicate_add [symmetric] intro!: element_eqI)
  ultimately show ?case using ih(2) by (intro exI [of _ "out # outs"] exI [of _ "e # es'"]) simp
qed simp

text \<open>
  C39: padding.  Inserting \<open>b\<close> bytes before a packet and removing them again gives the packet, element
  by element with the same keep bits, the same last flag and the same bytes where they are kept; both
  functions read exactly the packet.
\<close>

theorem padding_roundtrip:
  assumes "packet n es" "0 < b" "b < n"
  shows "\<exists>padded es'. insert_padding n b (es @ rest) = Some (padded, rest) \<and>
    remove_padding n b junk (padded @ rest') = Some (es', rest') \<and> map masked es' = map masked es"
  using remove_insert [OF assms, of "zero_element n" "zero_element n" rest]
  by (fastforce simp: insert_padding_def remove_padding_def zero_element_def)

lemma padding_roundtrip_witness:
  "\<exists>padded es'. insert_padding 8 2 [\<lparr>se_data = [1, 2, 3, 4, 5, 6, 7, 8], se_keep = replicate 7 True @ [False], se_last = True\<rparr>] =
      Some (padded, []) \<and> length padded = 2 \<and> remove_padding 8 2 (zero_element 8) padded = Some (es', []) \<and>
     se_data (masked (hd es')) = [1, 2, 3, 4, 5, 6, 7, 0]"
proof -
  let ?e = "\<lparr>se_data = [1, 2, 3, 4, 5, 6, 7, 8], se_keep = replicate 7 True @ [False], se_last = True\<rparr>"
  have "packet 8 [?e]" by (auto simp: last_element_def intro!: exI [of _ 7])
  then obtain padded es' where p: "insert_padding 8 2 ([?e] @ []) = Some (padded, [])"
      "remove_padding 8 2 (zero_element 8) (padded @ []) = Some (es', [])" "map masked es' = map masked [?e]"
    using padding_roundtrip [of 8 "[?e]" 2 "[]" "zero_element 8" "[]"] by auto
  moreover have "length padded = 2"
    using p(1) by (auto simp: insert_padding_def zero_element_def numeral_eq_Suc keeps_any_def)
  moreover have "se_data (masked (hd es')) = [1, 2, 3, 4, 5, 6, 7, 0]"
    using p(3) by (cases es') (auto simp: masked_def numeral_eq_Suc)
  ultimately show ?thesis by auto
qed

section \<open>Generated data\<close>

definition kept :: "mtl_stream \<Rightarrow> nat" where
  "kept es = sum_list (map (\<lambda>e. length (filter (\<lambda>k. k) (se_keep e))) es)"

lemma kept_simps [simp]:
  "kept [] = 0" "kept (e # es) = length (filter (\<lambda>k. k) (se_keep e)) + kept es"
  by (simp_all add: kept_def)

text \<open>The loop after \<open>j\<close> elements, as long as the counter does not wrap around.\<close>

lemma streamgen_from:
  assumes "0 < n" "n < 2 ^ 32" "unat len + n \<le> 2 ^ 32" "unat w = j * n" "j * n < unat len \<or> j = 0"
  shows "\<exists>es. streamgen_loop n len w = Some es \<and> kept es = unat len - j * n \<and>
    (\<forall>i < length es. se_last (es ! i) \<longleftrightarrow> Suc i = length es)"
  using assms(4,5)
proof (induction "unat len - j * n" arbitrary: j w rule: less_induct)
  case less
  define w' where "w' = w + word_of_nat n"
  have lt: "j * n + n < 2 ^ 32" using less.prems(2) assms(2,3) by auto
  then have w': "unat w' = Suc j * n"
    using less.prems(1) by (simp add: w'_def unat_word_ariths unat_of_nat)
  show ?case
  proof (cases "len \<le> w'")
    case True
    then have le: "unat len \<le> Suc j * n" using w' by (simp add: word_le_nat_alt)
    then have "unat (w' - len) = Suc j * n - unat len" using True w' by (simp add: unat_sub)
    moreover have "Suc j * n - unat len \<le> n" using less.prems(2) by auto
    ultimately show ?thesis
      using True le less.prems(2) by (subst streamgen_loop.simps) (auto simp: Let_def w'_def [symmetric] min_def)
  next
    case False
    then have "Suc j * n < unat len" using w' by (simp add: word_le_nat_alt)
    then have dec: "unat len - Suc j * n < unat len - j * n" using assms(1) by (intro diff_less_mono2) auto
    obtain es where es: "streamgen_loop n len w' = Some es" "kept es = unat len - Suc j * n"
        "\<And>i. i < length es \<Longrightarrow> se_last (es ! i) \<longleftrightarrow> Suc i = length es"
      using less.hyps [OF dec w'] \<open>Suc j * n < unat len\<close> by blast
    have "es \<noteq> []" using es(2) \<open>Suc j * n < unat len\<close> by (intro notI) simp
    then have "se_last ((e # es) ! i) \<longleftrightarrow> Suc i = length (e # es)" if "i < length (e # es)" "\<not> se_last e" for i e
      using es(3) [of "i - 1"] that by (cases i) auto
    then show ?thesis
      using es(1,2) False \<open>Suc j * n < unat len\<close>
      by (subst streamgen_loop.simps) (auto simp: Let_def w'_def [symmetric])
  qed
qed

text \<open>A counter that is a multiple of \<open>n\<close> stays one when it wraps around, and is never greater than the last one.\<close>

lemma streamgen_step:
  fixes w len :: u32
  assumes "n dvd unat w" "n dvd 2 ^ 32" "2 ^ 32 < unat len + n"
  shows "n dvd unat (w + word_of_nat n)" "\<not> len \<le> w + word_of_nat n"
proof -
  have "unat (w + word_of_nat n) = (unat w + n) mod 2 ^ 32" by (simp add: unat_word_ariths unat_of_nat mod_simps)
  then show dvd: "n dvd unat (w + word_of_nat n)" using assms(1,2) by (simp add: dvd_mod)
  then obtain q where q: "unat (w + word_of_nat n) = n * q" by blast
  obtain p where p: "2 ^ 32 = n * p" using assms(2) by blast
  have "unat (w + word_of_nat n) < 2 ^ 32" using unsigned_less [of "w + word_of_nat n"] by simp
  then have "n * q < n * p" using q p by simp
  then have "q \<le> p - 1" by auto
  then have "n * q \<le> n * (p - 1)" by (rule mult_le_mono2)
  also have "\<dots> = 2 ^ 32 - n" using p by (simp add: right_diff_distrib')
  finally have "n * q \<le> 2 ^ 32 - n" .
  moreover have "n \<le> 2 ^ 32" using assms(2) by (rule dvd_imp_le) simp
  ultimately have "n * q < unat len" using assms(3) by linarith
  then show "\<not> len \<le> w + word_of_nat n" using q by (simp add: word_le_nat_alt)
qed

lemma streamgen_never:
  assumes "n dvd unat w" "n dvd 2 ^ 32" "2 ^ 32 < unat len + n"
  shows "streamgen_loop n len w = None"
proof -
  have "\<not> (n dvd unat w \<and> n dvd 2 ^ 32 \<and> 2 ^ 32 < unat len + n)" if some: "streamgen_loop n len w = Some es" for es
  proof (rule streamgen_loop.raw_induct [where P = "\<lambda>n len w es. \<not> (n dvd unat w \<and> n dvd 2 ^ 32 \<and> 2 ^ 32 < unat len + n)", OF _ some])
    fix f :: "nat \<Rightarrow> u32 \<Rightarrow> u32 \<Rightarrow> mtl_stream option" and n len w es
    assume IH: "\<And>n len w es. f n len w = Some es \<Longrightarrow> \<not> (n dvd unat w \<and> n dvd 2 ^ 32 \<and> 2 ^ 32 < unat len + n)"
      and body: "(let bytes_written = w + word_of_nat n
        in if len \<le> bytes_written
           then let k = min n (unat (bytes_written - len))
                in Some [\<lparr>se_data = replicate n 0, se_keep = replicate (n - k) True @ replicate k False, se_last = True\<rparr>]
           else Option.bind (f n len bytes_written) (\<lambda>out.
                  Some (\<lparr>se_data = replicate n 0, se_keep = replicate n True, se_last = False\<rparr> # out))) = Some es"
    show "\<not> (n dvd unat w \<and> n dvd 2 ^ 32 \<and> 2 ^ 32 < unat len + n)"
    proof
      assume a: "n dvd unat w \<and> n dvd 2 ^ 32 \<and> 2 ^ 32 < unat len + n"
      note st = streamgen_step [of n w len]
      obtain es' where "f n len (w + word_of_nat n) = Some es'"
        using body st a by (auto simp: Let_def bind_eq_Some_conv)
      then show False using IH st a by blast
    qed
  qed
  then show ?thesis using assms by (cases "streamgen_loop n len w") auto
qed

text \<open>
  C40: generated data.  For a length that is at least one element below the range of the counter the
  generator returns, and the stream that it has written keeps exactly that many bytes and ends with
  its only last element.  For a greater length the counter wraps around before it reaches the length,
  and the generator never ends.
\<close>

theorem streamgen_generates:
  assumes "n dvd 2 ^ 32" "0 < n" "n < 2 ^ 32"
  shows "(unat len + n \<le> 2 ^ 32 \<longrightarrow> (\<exists>es. hls_streamgen n len = Some es \<and> kept es = unat len \<and>
      (\<forall>i < length es. se_last (es ! i) \<longleftrightarrow> Suc i = length es))) \<and>
    (2 ^ 32 < unat len + n \<longrightarrow> hls_streamgen n len = None)"
  using streamgen_from [OF assms(2,3), where len = len and w = 0 and j = 0]
    streamgen_never [OF _ assms(1), where len = len and w = 0]
  by (simp add: hls_streamgen_def)

lemma streamgen_generates_witness:
  "(\<exists>es. hls_streamgen 8 4096 = Some es \<and> kept es = 4096) \<and> hls_streamgen 8 0xFFFFFFFF = None"
  using streamgen_generates [of 8 4096] streamgen_generates [of 8 "0xFFFFFFFF"] by auto

section \<open>Changing the case\<close>

definition kept_bytes :: "mtl_stream \<Rightarrow> bytes" where
  "kept_bytes es = concat (map (\<lambda>e. map fst (filter snd (zip (se_data e) (se_keep e)))) es)"

lemma kept_bytes_case: "kept_bytes [case_element mode e] = map (case_byte (mode = 0)) (kept_bytes [e])"
proof -
  have "map fst (filter snd (zip (map (\<lambda>(d, k). if k then case_byte (mode = 0) d else d) (zip ds ks)) ks)) =
      map (case_byte (mode = 0)) (map fst (filter snd (zip ds ks)))" for ds ks
    by (induction ds ks rule: list_induct2') auto
  then show ?thesis by (simp add: kept_bytes_def case_element_def)
qed

lemma kept_bytes_Cons: "kept_bytes (e # es) = kept_bytes [e] @ kept_bytes es"
  by (simp add: kept_bytes_def)

text \<open>The operator passes exactly one packet on, with the case of the kept bytes changed.\<close>

lemma changecase_packet:
  assumes "packet n es"
  shows "\<exists>out. changecase mode (es @ rest) = Some (out, rest) \<and>
    kept_bytes out = map (case_byte (mode = 0)) (kept_bytes es) \<and>
    map se_keep out = map se_keep es \<and> map se_last out = map se_last es"
  using assms
proof (induction n es rule: packet.induct)
  case (2 n e)
  then show ?case by (simp add: last_element_def kept_bytes_case) (simp add: case_element_def)
next
  case (3 n e e' es)
  then obtain out where "changecase mode ((e' # es) @ rest) = Some (out, rest)"
      "kept_bytes out = map (case_byte (mode = 0)) (kept_bytes (e' # es))"
      "map se_keep out = map se_keep (e' # es)" "map se_last out = map se_last (e' # es)"
    by auto
  moreover have "changecase mode ((e # e' # es) @ rest) =
      map_option (\<lambda>(out, rest). (case_element mode e # out, rest)) (changecase mode ((e' # es) @ rest))"
    using 3 by (simp add: full_element_def)
  moreover have "se_keep (case_element mode e) = se_keep e" "se_last (case_element mode e) = se_last e"
    by (simp_all add: case_element_def)
  ultimately show ?case
    by (intro exI [of _ "case_element mode e # out"])
      (simp add: kept_bytes_Cons [of "case_element mode e" out] kept_bytes_Cons [of e "e' # es"] kept_bytes_case)
qed simp

end
