(* ===== verification/Endian.thy ===== *)
theory Endian
  imports Fpga_Base
begin

text \<open>
  The other accessors of memory lines in \<open>mtl_endian.h\<close>: little-endian words, words of 16 and 8
  bits, the overloads whose byte offset is an argument instead of a template parameter (their
  names end in \<open>_at\<close> where both overloads exist), and \<open>swap_membus_endianness\<close>.  The action uses the
  big-endian template overloads of the base theory.  Here the accessors are characterised by the
  bytes they read and write, from which follow the round trips, that both overloads agree, and
  that swapping the bytes of a line turns a big-endian access into a little-endian one.

  A byte offset has the width of \<open>mfb_byteoffset_t\<close>, 6 bits, and becomes a bit offset of 9 bits;
  \<open>o_bit + 63\<close> is computed in \<open>int\<close>.  An access that reaches past the end of the line is outside
  of what \<open>ap_uint\<close> allows; every lemma excludes it.
\<close>

section \<open>Definitions\<close>

type_synonym mfb_byteoffset = "6 word"
type_synonym mfb_bitoffset = "9 word"

definition MFB_TOBITOFFSET :: "mfb_byteoffset \<Rightarrow> mfb_bitoffset" where
  "MFB_TOBITOFFSET byteo = push_bit 3 (ucast byteo)"

definition mtl_set64le_at :: "membus \<Rightarrow> mfb_byteoffset \<Rightarrow> u64 \<Rightarrow> membus" where
  "mtl_set64le_at busline lowest_byte v =
     (let p0 = (0 :: u64);
          p1 = set_range p0 7 0 (drop_bit 0 v);
          p2 = set_range p1 15 8 (drop_bit 8 v);
          p3 = set_range p2 23 16 (drop_bit 16 v);
          p4 = set_range p3 31 24 (drop_bit 24 v);
          p5 = set_range p4 39 32 (drop_bit 32 v);
          p6 = set_range p5 47 40 (drop_bit 40 v);
          p7 = set_range p6 55 48 (drop_bit 48 v);
          pattern = set_range p7 63 56 (drop_bit 56 v);
          o_bit = unat (MFB_TOBITOFFSET lowest_byte)
      in set_range busline (o_bit + 63) o_bit pattern)"

definition mtl_set64le :: "membus \<Rightarrow> nat \<Rightarrow> u64 \<Rightarrow> membus" where
  "mtl_set64le busline lowest_byte v =
     (let p0 = (0 :: u64);
          p1 = set_range p0 7 0 (drop_bit 0 v);
          p2 = set_range p1 15 8 (drop_bit 8 v);
          p3 = set_range p2 23 16 (drop_bit 16 v);
          p4 = set_range p3 31 24 (drop_bit 24 v);
          p5 = set_range p4 39 32 (drop_bit 32 v);
          p6 = set_range p5 47 40 (drop_bit 40 v);
          p7 = set_range p6 55 48 (drop_bit 48 v);
          pattern = set_range p7 63 56 (drop_bit 56 v);
          o_bit = 8 * lowest_byte
      in set_range busline (o_bit + 63) o_bit pattern)"

definition mtl_set64be_at :: "membus \<Rightarrow> mfb_byteoffset \<Rightarrow> u64 \<Rightarrow> membus" where
  "mtl_set64be_at busline lowest_byte v =
     (let p0 = (0 :: u64);
          p1 = set_range p0 7 0 (drop_bit 56 v);
          p2 = set_range p1 15 8 (drop_bit 48 v);
          p3 = set_range p2 23 16 (drop_bit 40 v);
          p4 = set_range p3 31 24 (drop_bit 32 v);
          p5 = set_range p4 39 32 (drop_bit 24 v);
          p6 = set_range p5 47 40 (drop_bit 16 v);
          p7 = set_range p6 55 48 (drop_bit 8 v);
          pattern = set_range p7 63 56 (drop_bit 0 v);
          o_bit = unat (MFB_TOBITOFFSET lowest_byte)
      in set_range busline (o_bit + 63) o_bit pattern)"

definition mtl_get64le :: "membus \<Rightarrow> mfb_byteoffset \<Rightarrow> u64" where
  "mtl_get64le busline lowest_byte =
     (let o_bit = unat (MFB_TOBITOFFSET lowest_byte);
          pattern = (get_range busline (o_bit + 63) o_bit :: u64) in
        push_bit 0 (get_range pattern 7 0) + push_bit 8 (get_range pattern 15 8)
      + push_bit 16 (get_range pattern 23 16) + push_bit 24 (get_range pattern 31 24)
      + push_bit 32 (get_range pattern 39 32) + push_bit 40 (get_range pattern 47 40)
      + push_bit 48 (get_range pattern 55 48) + push_bit 56 (get_range pattern 63 56))"

definition mtl_get64be_at :: "membus \<Rightarrow> mfb_byteoffset \<Rightarrow> u64" where
  "mtl_get64be_at busline lowest_byte =
     (let o_bit = unat (MFB_TOBITOFFSET lowest_byte);
          pattern = (get_range busline (o_bit + 63) o_bit :: u64) in
        push_bit 56 (get_range pattern 7 0) + push_bit 48 (get_range pattern 15 8)
      + push_bit 40 (get_range pattern 23 16) + push_bit 32 (get_range pattern 31 24)
      + push_bit 24 (get_range pattern 39 32) + push_bit 16 (get_range pattern 47 40)
      + push_bit 8 (get_range pattern 55 48) + push_bit 0 (get_range pattern 63 56))"

definition mtl_set32le :: "membus \<Rightarrow> mfb_byteoffset \<Rightarrow> u32 \<Rightarrow> membus" where
  "mtl_set32le busline lowest_byte v =
     (let p0 = (0 :: u32);
          p1 = set_range p0 7 0 (drop_bit 0 v);
          p2 = set_range p1 15 8 (drop_bit 8 v);
          p3 = set_range p2 23 16 (drop_bit 16 v);
          pattern = set_range p3 31 24 (drop_bit 24 v);
          o_bit = unat (MFB_TOBITOFFSET lowest_byte)
      in set_range busline (o_bit + 31) o_bit pattern)"

definition mtl_set32be_at :: "membus \<Rightarrow> mfb_byteoffset \<Rightarrow> u32 \<Rightarrow> membus" where
  "mtl_set32be_at busline lowest_byte v =
     (let p0 = (0 :: u32);
          p1 = set_range p0 7 0 (drop_bit 24 v);
          p2 = set_range p1 15 8 (drop_bit 16 v);
          p3 = set_range p2 23 16 (drop_bit 8 v);
          pattern = set_range p3 31 24 (drop_bit 0 v);
          o_bit = unat (MFB_TOBITOFFSET lowest_byte)
      in set_range busline (o_bit + 31) o_bit pattern)"

definition mtl_get32le :: "membus \<Rightarrow> mfb_byteoffset \<Rightarrow> u32" where
  "mtl_get32le busline lowest_byte =
     (let o_bit = unat (MFB_TOBITOFFSET lowest_byte);
          pattern = (get_range busline (o_bit + 31) o_bit :: u32) in
        push_bit 0 (get_range pattern 7 0) + push_bit 8 (get_range pattern 15 8)
      + push_bit 16 (get_range pattern 23 16) + push_bit 24 (get_range pattern 31 24))"

definition mtl_get32be_at :: "membus \<Rightarrow> mfb_byteoffset \<Rightarrow> u32" where
  "mtl_get32be_at busline lowest_byte =
     (let o_bit = unat (MFB_TOBITOFFSET lowest_byte);
          pattern = (get_range busline (o_bit + 31) o_bit :: u32) in
        push_bit 24 (get_range pattern 7 0) + push_bit 16 (get_range pattern 15 8)
      + push_bit 8 (get_range pattern 23 16) + push_bit 0 (get_range pattern 31 24))"

definition mtl_set16le :: "membus \<Rightarrow> mfb_byteoffset \<Rightarrow> u16 \<Rightarrow> membus" where
  "mtl_set16le busline lowest_byte v =
     (let p0 = (0 :: u16);
          p1 = set_range p0 7 0 (drop_bit 0 v);
          pattern = set_range p1 15 8 (drop_bit 8 v);
          o_bit = unat (MFB_TOBITOFFSET lowest_byte)
      in set_range busline (o_bit + 15) o_bit pattern)"

definition mtl_set16be :: "membus \<Rightarrow> mfb_byteoffset \<Rightarrow> u16 \<Rightarrow> membus" where
  "mtl_set16be busline lowest_byte v =
     (let p0 = (0 :: u16);
          p1 = set_range p0 7 0 (drop_bit 8 v);
          pattern = set_range p1 15 8 (drop_bit 0 v);
          o_bit = unat (MFB_TOBITOFFSET lowest_byte)
      in set_range busline (o_bit + 15) o_bit pattern)"

definition mtl_get16le :: "membus \<Rightarrow> mfb_byteoffset \<Rightarrow> u16" where
  "mtl_get16le busline lowest_byte =
     (let o_bit = unat (MFB_TOBITOFFSET lowest_byte);
          pattern = (get_range busline (o_bit + 15) o_bit :: u16) in
        push_bit 0 (get_range pattern 7 0) + push_bit 8 (get_range pattern 15 8))"

definition mtl_get16be :: "membus \<Rightarrow> mfb_byteoffset \<Rightarrow> u16" where
  "mtl_get16be busline lowest_byte =
     (let o_bit = unat (MFB_TOBITOFFSET lowest_byte);
          pattern = (get_range busline (o_bit + 15) o_bit :: u16) in
        push_bit 8 (get_range pattern 7 0) + push_bit 0 (get_range pattern 15 8))"

definition mtl_set8 :: "membus \<Rightarrow> mfb_byteoffset \<Rightarrow> u8 \<Rightarrow> membus" where
  "mtl_set8 busline lowest_byte v =
     (let o_bit = unat (MFB_TOBITOFFSET lowest_byte) in set_range busline (o_bit + 7) (o_bit + 0) v)"

definition mtl_get8 :: "membus \<Rightarrow> nat \<Rightarrow> u8" where
  "mtl_get8 busline lowest_byte =
     (let o_bit = 8 * lowest_byte in get_range busline (o_bit + 7) (o_bit + 0))"

definition mtl_get8_at :: "membus \<Rightarrow> mfb_byteoffset \<Rightarrow> u8" where
  "mtl_get8_at busline lowest_byte =
     (let o_bit = unat (MFB_TOBITOFFSET lowest_byte) in get_range busline (o_bit + 7) (o_bit + 0))"

text \<open>The comma of \<open>ap_uint\<close> concatenates, the first operand on top.\<close>

definition ap_concat :: "u8 list \<Rightarrow> membus" where
  "ap_concat bs = foldl (\<lambda>w b. push_bit 8 w OR ucast b) 0 bs"

definition swap_membus_endianness :: "membus \<Rightarrow> membus" where
  "swap_membus_endianness v = ap_concat (map (mtl_get8 v) [0..<64])"

section \<open>Offsets and bytes\<close>

lemma unat_offset [simp]: "unat (MFB_TOBITOFFSET k) = 8 * unat k"
proof -
  have "unat k < 64" using unsigned_less [of k] by simp
  then show ?thesis
    by (simp add: MFB_TOBITOFFSET_def push_bit_eq_mult unat_word_ariths unsigned_ucast_eq take_bit_nat_def)
qed

lemma line_eqI: "(\<And>i. i < 64 \<Longrightarrow> line_byte v i = line_byte w i) \<Longrightarrow> v = w"
proof (rule bit_word_eqI)
  fix n assume eq: "\<And>i. i < 64 \<Longrightarrow> line_byte v i = line_byte w i" and n: "n < LENGTH(512)"
  then have "bit (line_byte v (n div 8)) (n mod 8) = bit (line_byte w (n div 8)) (n mod 8)" by simp
  then show "bit v n = bit w n" by (simp add: line_byte_def bit_ucast_iff bit_drop_bit_eq)
qed

text \<open>The reversed bytes of a word are its big-endian form, the bytes in order its little-endian form.\<close>

lemma pattern_le:
  "set_range (set_range (set_range (set_range (set_range (set_range (set_range (set_range
      (0 :: u64) 7 0 (drop_bit 0 v)) 15 8 (drop_bit 8 v)) 23 16 (drop_bit 16 v)) 31 24 (drop_bit 24 v))
      39 32 (drop_bit 32 v)) 47 40 (drop_bit 40 v)) 55 48 (drop_bit 48 v)) 63 56 (drop_bit 56 v) = v"
  "set_range (set_range (set_range (set_range
      (0 :: u32) 7 0 (drop_bit 0 w)) 15 8 (drop_bit 8 w)) 23 16 (drop_bit 16 w)) 31 24 (drop_bit 24 w) = w"
  "set_range (set_range (0 :: u16) 7 0 (drop_bit 0 x)) 15 8 (drop_bit 8 x) = x"
  by (rule bit_word_eqI, auto simp: bit_set_range bit_drop_bit_eq)+

lemma set_le_range:
  "mtl_set64le line k v = set_range line (8 * k + 63) (8 * k) v"
  "mtl_set64le_at line o1 v = set_range line (8 * unat o1 + 63) (8 * unat o1) v"
  "mtl_set32le line o1 w = set_range line (8 * unat o1 + 31) (8 * unat o1) w"
  "mtl_set16le line o1 x = set_range line (8 * unat o1 + 15) (8 * unat o1) x"
  by (simp_all only: mtl_set64le_def mtl_set64le_at_def mtl_set32le_def mtl_set16le_def Let_def
      pattern_le unat_offset)

text \<open>The overloads agree.\<close>

lemma at_overloads:
  "mtl_set64le_at line o1 v = mtl_set64le line (unat o1) v"
  "mtl_set64be_at line o1 v = mtl_set64be line (unat o1) v"
  "mtl_get64be_at line o1 = mtl_get64be line (unat o1)"
  "mtl_set32be_at line o1 w = mtl_set32be line (unat o1) w"
  "mtl_get32be_at line o1 = mtl_get32be line (unat o1)"
  "mtl_get8_at line o1 = mtl_get8 line (unat o1)"
  by (simp_all only: mtl_set64le_def mtl_set64le_at_def mtl_set64be_at_def mtl_set64be_def
      mtl_get64be_at_def mtl_get64be_def mtl_set32be_at_def mtl_set32be_def mtl_get32be_at_def
      mtl_get32be_def mtl_get8_at_def mtl_get8_def unat_offset)

lemma mtl_get8_byte: "i < 64 \<Longrightarrow> mtl_get8 line i = line_byte line i"
  unfolding mtl_get8_def Let_def by (rule bit_word_eqI) (simp add: bit_get_range line_byte_def bit_simps)

lemma line_byte_set8:
  "i < 64 \<Longrightarrow> line_byte (mtl_set8 line k v) i = (if i = unat k then v else line_byte line i)"
proof -
  assume i: "i < 64"
  have "unat k < 64" using unsigned_less [of k] by simp
  then have "line_byte (mtl_set8 line k v) i =
      (if unat k \<le> i \<and> i < unat k + 1 then ucast (drop_bit (8 * (i - unat k)) v) else line_byte line i)"
    using i unfolding mtl_set8_def Let_def by (simp add: line_byte_set_range [where n = 1])
  then show ?thesis by auto
qed

section \<open>Little-endian words\<close>

lemma mtl_get64le_bytes:
  assumes "unat k + 8 \<le> 64"
  shows "mtl_get64le line k = dec64 (map (line_byte line) [unat k..<unat k + 8])"
proof -
  let ?p = "get_range line (8 * unat k + 63) (8 * unat k) :: u64"
  have b: "bit ?p n = bit line (8 * unat k + n)" if "n < 64" for n
    using that by (simp add: bit_get_range)
  have r: "(get_range ?p hi lo :: u64) = ucast (line_byte line (unat k + lo div 8))"
    if "lo \<in> {0, 8, 16, 24, 32, 40, 48, 56}" "hi = lo + 7" for hi lo
    by (rule get_range_byte) (use that assms in \<open>auto intro!: b simp: add.assoc\<close>)
  let ?k = "unat k"
  have u: "[?k..<?k + 8] = [?k, ?k+1, ?k+2, ?k+3, ?k+4, ?k+5, ?k+6, ?k+7]"
    by (simp add: upt_rec numeral_eq_Suc)
  show ?thesis
    unfolding mtl_get64le_def Let_def u list.map be64_sum [symmetric] unat_offset
    by (simp add: r del: push_bit_numeral)
qed

lemma mtl_get32le_bytes:
  assumes "unat k + 4 \<le> 64"
  shows "mtl_get32le line k = dec32 (map (line_byte line) [unat k..<unat k + 4])"
proof -
  let ?k = "unat k"
  let ?p = "get_range line (8 * ?k + 31) (8 * ?k) :: u32"
  have b: "bit ?p n = bit line (8 * ?k + n)" if "n < 32" for n
    using that by (simp add: bit_get_range)
  have r: "(get_range ?p hi lo :: u32) = ucast (line_byte line (?k + lo div 8))"
    if "lo \<in> {0, 8, 16, 24}" "hi = lo + 7" for hi lo
    by (rule get_range_byte) (use that assms in \<open>auto intro!: b simp: add.assoc\<close>)
  have u: "[?k..<?k + 4] = [?k, ?k+1, ?k+2, ?k+3]"
    by (simp add: upt_rec numeral_eq_Suc)
  show ?thesis
    unfolding mtl_get32le_def Let_def u list.map be32_sum [symmetric] unat_offset
    by (simp add: r del: push_bit_numeral)
qed

lemma enc_nth:
  "j < 8 \<Longrightarrow> enc64 v ! j = ucast (drop_bit (8 * j) v)"
  "j < 4 \<Longrightarrow> enc32 w ! j = ucast (drop_bit (8 * j) w)"
  by (simp_all only: enc64_def enc32_def le_bytes_nth ucast_drop_bit)

section \<open>Words of 16 bits\<close>

text \<open>Both accessors of 16-bit words in terms of the two bytes.\<close>

lemma get16_bytes:
  fixes line :: membus and k :: mfb_byteoffset
  assumes "unat k + 2 \<le> 64"
  defines "a \<equiv> line_byte line (unat k)" and "b \<equiv> line_byte line (unat k + 1)"
  shows "mtl_get16le line k = ucast a + push_bit 8 (ucast b)"
    and "mtl_get16be line k = push_bit 8 (ucast a) + ucast b"
proof -
  let ?p = "get_range line (8 * unat k + 15) (8 * unat k) :: u16"
  have b: "bit ?p n = bit line (8 * unat k + n)" if "n < 16" for n
    using that by (simp add: bit_get_range)
  have r: "(get_range ?p 7 0 :: u16) = ucast a" "(get_range ?p 15 8 :: u16) = ucast b"
    using get_range_byte [of 7 0 "unat k" ?p line, where 'b = 16]
      get_range_byte [of 15 8 "unat k" ?p line, where 'b = 16] assms(1) b
    by (simp_all add: a_def b_def add.assoc)
  show "mtl_get16le line k = ucast a + push_bit 8 (ucast b)"
    "mtl_get16be line k = push_bit 8 (ucast a) + ucast b"
    unfolding mtl_get16le_def mtl_get16be_def Let_def unat_offset r by simp_all
qed

lemma split16: "ucast (ucast x :: u8) + push_bit 8 (ucast (ucast (drop_bit 8 x) :: u8)) = (x :: u16)"
proof -
  have "and (ucast (ucast x :: u8)) (push_bit 8 (ucast (ucast (drop_bit 8 x) :: u8))) = (0 :: u16)"
    by (rule bit_word_eqI) (auto simp: bit_simps)
  then have "ucast (ucast x :: u8) + push_bit 8 (ucast (ucast (drop_bit 8 x) :: u8)) =
      (or (ucast (ucast x :: u8)) (push_bit 8 (ucast (ucast (drop_bit 8 x) :: u8))) :: u16)"
    by (rule disjunctive_add_eq_or)
  also have "\<dots> = x" by (rule bit_word_eqI) (auto simp: bit_simps)
  finally show ?thesis .
qed

lemma pattern_be16:
  fixes x :: u16
  defines "p \<equiv> set_range (set_range (0 :: u16) 7 0 (drop_bit 8 x)) 15 8 (drop_bit 0 x)"
  shows "(ucast p :: u8) = ucast (drop_bit 8 x)" "(ucast (drop_bit 8 p) :: u8) = ucast x"
  unfolding p_def by (rule bit_word_eqI, simp add: bit_set_range bit_simps)+

lemma bytes16:
  assumes "unat k + 2 \<le> 64"
  shows "line_byte (mtl_set16le line k x) (unat k) = ucast x"
    "line_byte (mtl_set16le line k x) (unat k + 1) = ucast (drop_bit 8 x)"
    "line_byte (mtl_set16be line k x) (unat k) = ucast (drop_bit 8 x)"
    "line_byte (mtl_set16be line k x) (unat k + 1) = ucast x"
  using assms unfolding mtl_set16be_def set_le_range Let_def unat_offset
  by (simp_all add: line_byte_set_range [where n = 2] pattern_be16 [simplified])

section \<open>Round trips\<close>

text \<open>Every accessor reads back what its counterpart wrote at the same offset.\<close>

theorem line_roundtrips:
  fixes k :: mfb_byteoffset
  shows "unat k + 8 \<le> 64 \<Longrightarrow> mtl_get64le (mtl_set64le_at line k v) k = v"
    and "unat k + 8 \<le> 64 \<Longrightarrow> mtl_get64be_at (mtl_set64be_at line k v) k = v"
    and "unat k + 4 \<le> 64 \<Longrightarrow> mtl_get32le (mtl_set32le line k w) k = w"
    and "unat k + 4 \<le> 64 \<Longrightarrow> mtl_get32be_at (mtl_set32be_at line k w) k = w"
    and "unat k + 2 \<le> 64 \<Longrightarrow> mtl_get16le (mtl_set16le line k x) k = x"
    and "unat k + 2 \<le> 64 \<Longrightarrow> mtl_get16be (mtl_set16be line k x) k = x"
    and "mtl_get8_at (mtl_set8 line k y) k = y"
proof -
  assume k: "unat k + 8 \<le> 64"
  have "map (line_byte (mtl_set64le_at line k v)) [unat k..<unat k + 8] = enc64 v"
    by (rule nth_equalityI) (use k in \<open>simp_all add: set_le_range line_byte_set_range [where n = 8] enc_nth\<close>)
  with k show "mtl_get64le (mtl_set64le_at line k v) k = v" by (simp add: mtl_get64le_bytes)
next
  assume k: "unat k + 8 \<le> 64"
  show "mtl_get64be_at (mtl_set64be_at line k v) k = v"
    unfolding at_overloads
    by (rule mtl_get64be_eqI) (use k in \<open>simp_all add: line_byte_set64be htobe64_nth\<close>)
next
  assume k: "unat k + 4 \<le> 64"
  have "map (line_byte (mtl_set32le line k w)) [unat k..<unat k + 4] = enc32 w"
    by (rule nth_equalityI) (use k in \<open>simp_all add: set_le_range line_byte_set_range [where n = 4] enc_nth\<close>)
  with k show "mtl_get32le (mtl_set32le line k w) k = w" by (simp add: mtl_get32le_bytes)
next
  assume k: "unat k + 4 \<le> 64"
  show "mtl_get32be_at (mtl_set32be_at line k w) k = w"
    unfolding at_overloads
    by (rule mtl_get32be_eqI) (use k in \<open>simp_all add: line_byte_set32be htobe32_nth\<close>)
next
  assume "unat k + 2 \<le> 64"
  then show "mtl_get16le (mtl_set16le line k x) k = x" "mtl_get16be (mtl_set16be line k x) k = x"
    using split16 [of x] by (simp_all only: get16_bytes bytes16 add.commute [of "push_bit 8 (_ :: u16)"])
next
  have "unat k < 64" using unsigned_less [of k] by simp
  then show "mtl_get8_at (mtl_set8 line k y) k = y"
    by (simp add: at_overloads mtl_get8_byte line_byte_set8)
qed

section \<open>Swapping a line\<close>

lemma line_byte_concat:
  assumes "i < 64" "length bs \<le> 64"
  shows "line_byte (ap_concat bs) i = (if i < length bs then rev bs ! i else 0)"
  using assms
proof (induction bs arbitrary: i rule: rev_induct)
  case Nil
  then show ?case by (simp add: ap_concat_def line_byte_def)
next
  case (snoc b bs)
  have c: "ap_concat (bs @ [b]) = push_bit 8 (ap_concat bs) OR ucast b" by (simp add: ap_concat_def)
  show ?case
  proof (cases i)
    case 0
    have "line_byte (push_bit 8 w OR ucast b) 0 = b" for w :: membus
      by (rule bit_word_eqI) (auto simp: line_byte_def bit_simps)
    with 0 show ?thesis by (simp add: c)
  next
    case (Suc j)
    have "line_byte (push_bit 8 w OR ucast b) (Suc j) = line_byte w j" if "Suc j < 64" for w :: membus
      by (rule bit_word_eqI) (use that in \<open>auto simp: line_byte_def bit_simps ac_simps dest: bit_imp_le_length\<close>)
    with Suc snoc show ?thesis by (simp add: c)
  qed
qed

lemma line_byte_swap: "i < 64 \<Longrightarrow> line_byte (swap_membus_endianness v) i = line_byte v (63 - i)"
  by (simp add: swap_membus_endianness_def line_byte_concat rev_nth mtl_get8_byte)

text \<open>
  Swapping twice gives the line back, and a big-endian word of a line is the little-endian word
  of the swapped line at the mirrored offset.
\<close>

theorem swap_membus_mirror:
  "swap_membus_endianness (swap_membus_endianness v) = v"
  "unat k + 8 \<le> 64 \<Longrightarrow> mtl_get64le (swap_membus_endianness v) k = mtl_get64be v (56 - unat k)"
proof -
  show "swap_membus_endianness (swap_membus_endianness v) = v"
    by (rule line_eqI) (simp add: line_byte_swap)
  assume k: "unat k + 8 \<le> 64"
  have "map (line_byte (swap_membus_endianness v)) [unat k..<unat k + 8] =
      rev (map (line_byte v) [56 - unat k..<56 - unat k + 8])"
    by (rule nth_equalityI) (use k in \<open>simp_all add: line_byte_swap rev_nth\<close>)
  with k show "mtl_get64le (swap_membus_endianness v) k = mtl_get64be v (56 - unat k)"
    by (simp add: mtl_get64le_bytes mtl_get64be_bytes)
qed

end
