(* ===== verification/Spec2Isabelle.thy ===== *)
theory Spec2Isabelle
  imports Fuse_Props Protocol_Props Messages Hls_Stream Endian
begin

text \<open>
  \<^bold>\<open>Verification of Metal FS\<close>

  Metal FS makes the operators of an FPGA card usable from a shell.  Operators appear as executables
  below a FUSE mount, files live on the card, and \<open>cat x | op1 | op2 > y\<close> becomes one pipeline on the
  FPGA.  The program has five parts, which the theories follow:

  \<^item> the file system library \<open>src/src/metal-filesystem\<close> (C): names, inodes, extents and a heap of
    free extents, all kept in an LMDB environment, and a storage backend for the contents;
  \<^item> the action on the FPGA, \<open>src/targets/SNAP/_internal/action/hw/hls\<close> (C++ for HLS): extent
    maps, data source and sink, stream switch, performance monitor and the jobs the host sends; with
    the library for operators \<open>src/buildpacks/hls\<close> and an example operator;
  \<^item> the host's pipelines \<open>src/src/metal-pipeline\<close> and \<open>src/src/metal-filesystem-pipeline\<close> (C++):
    jobs through the SNAP library, operators and their options, runners, files of the card as data
    sources and sinks;
  \<^item> the driver \<open>src/src/metal-driver\<close>: FUSE handlers, and a server with which the operator processes
    register, which finds complete pipelines, builds them and runs them in a loop;
  \<^item> the operator process \<open>src/src/metal-driver-placeholder\<close> and the messages between process and
    driver \<open>src/src/metal-driver-messages\<close>.

  \<^bold>\<open>How the code is modelled\<close>

  Every function is a HOL function of the same name on explicit state; a class is a record, and its
  virtual functions are fields of a record (\<open>fuse_handler\<close>, \<open>DataSourceContext\<close>, \<open>DataSinkContext\<close>).
  Machine integers are words of their width.  A C function that returns a code returns an \<^typ>\<open>int\<close>;
  an exception is \<open>Inl\<close> of an error.  The value \<open>None\<close> of a result means that the call does not
  return a defined result: it waits or recurses for ever, reads unwritten memory, or leaves an
  array; the loops that need not end are \<open>partial_function (option)\<close>, the others are proved to
  terminate.  Out parameters that a failing function leaves unwritten are options.

  Code outside of the repository is an argument, and what the sources rely on of it are the
  assumptions of a locale: LMDB (record \<open>mdb_ops\<close>, locale \<open>lmdb\<close>), the SNAP library with the card
  behind it (\<open>snap_lib\<close>, \<open>snap_card\<close>), the JSON library (\<open>json_lib\<close>), the command line parser
  (\<open>cxxopts_lib\<close>), the operating system (\<open>os_lib\<close>, \<open>world\<close>) and the encoding of protobuf messages.
  \<open>Lmdb.ref\<close> and \<open>Lmdb.inplace\<close> interpret \<open>lmdb\<close> on association lists, \<open>Snap.fcard\<close> interprets \<open>snap_card\<close> on the
  model of the FPGA's action itself, so that statements about jobs run host code against FPGA code.
  Interfaces inside the program are locales too: \<open>heap_contract\<close> (Heap, used by the allocator) and
  \<open>directory_contract\<close> (Inode, used by the file system) are provided by every \<open>lmdb\<close> through
  \<open>sublocale\<close>, \<open>storage_contract\<close> (Storage) is interpreted by the in-memory backend.

  \<^bold>\<open>The theories\<close>

  \<^descr>[Metal\_Prelude, Lmdb] machine integers, byte order, return codes; the store, in which keys are
    ordered as byte strings.
  \<^descr>[Heap, Tiling, Extent, Extent\_Props] \<open>heap.c\<close>, \<open>extent.c\<close>.  Tiling is the abstract view: tiles that
    cover the storage, every block once.  The lemmas show that initialising, reserving, truncating
    and freeing keep a tiling and change the set of free blocks by exactly the blocks of the result,
    and under which conditions they do not.
  \<^descr>[Inode, Path, Metal, Names] \<open>inode.c\<close>, \<open>meta.c\<close>, \<open>metal.c\<close> and the C library's \<open>dirname\<close> and
    \<open>basename\<close>.  A directory's bytes are refined to a list of names and inodes (\<open>is_dir\<close>), the
    store to a map of inodes (\<open>inodes_of\<close>); path resolution is a walk (\<open>reaches\<close>), and create,
    mkdir, rename, rmdir and unlink are described by what they do to that graph.
  \<^descr>[Growth, Storage, Contents] \<open>mtl_expand_inode\<close>, \<open>storage_in_memory.c\<close>, and reading and writing of
    files: growth ends, what is written is read back, other files keep their contents.
  \<^descr>[Fuse, Fuse\_Props] \<open>filesystem_fuse_handler.cpp\<close>, \<open>operator_fuse_handler.cpp\<close>,
    \<open>socket_fuse_handler.cpp\<close>, \<open>combined_fuse_handler.cpp\<close>, \<open>metal_fuse_operations.cpp\<close> and the mounts
    that \<open>main\<close> of \<open>metal_fs.cpp\<close> adds.
  \<^descr>[Fpga\_Base, Endian, Extmap, Op\_Mem, Transfers, Jobs, Job\_Props] \<open>snap_action_metal.h\<close>,
    \<open>mtl_endian.h\<close>, \<open>mtl_extmap.cpp\<close>, \<open>mtl_op_mem.cpp\<close>, \<open>mtl_jobs.cpp\<close>, \<open>axi_switch.cpp\<close>,
    \<open>axi_perfmon.cpp\<close>, \<open>operators.cpp\<close>, \<open>hls_action.cpp\<close>.  Extent maps refine the block list of a file;
    partial transfers name the storage bytes of a range in order, and the blocks a transfer over
    several extents visits are given; every stage returns once its commands are answered; the jobs
    write the registers and the memory as described.
  \<^descr>[Hls\_Stream] \<open>metal/stream.h\<close>, the change-case operator and the data generator.
  \<^descr>[Snap, Operators, Pipeline, Pipeline\_Props] \<open>snap_action.cpp\<close>, \<open>operator*.cpp\<close>, \<open>pipeline.cpp\<close>,
    \<open>snap_pipeline_runner.cpp\<close>, \<open>profiling_pipeline_runner.cpp\<close>: the host
    reads the image of the card, operators have the options of their manifests, and the jobs that the
    host prepares have the meant effect on the FPGA.
  \<^descr>[File\_Contexts, File\_Props] \<open>file_data_source_context.cpp\<close>, \<open>file_data_sink_context.cpp\<close>,
    \<open>metal_pipeline_storage.cpp\<close>: from the extents in the store to the maps of the FPGA, and the runs
    over a file.  The file system on NVMe sees the one in the card's DRAM, which holds its page files.
  \<^descr>[Agents, Agents\_Props, Builder, Loop] \<open>operator_agent.cpp\<close>, \<open>agent_pool.cpp\<close>, \<open>server.cpp\<close>,
    \<open>pipeline_builder.cpp\<close>, \<open>pseudo_operators.cpp\<close>, \<open>agent_data_source_context.cpp\<close>,
    \<open>agent_data_sink_context.cpp\<close>, \<open>pipeline_loop.cpp\<close>, \<open>buffer.cpp\<close>.
  \<^descr>[Messages, Placeholder, Protocol, Protocol\_Props] \<open>message_header.cpp\<close>, \<open>socket.hpp\<close>, and the
    process.  Protocol is the only step relation: process and driver run interleaved, with messages
    in flight and two shared buffers of two halves each; an invariant over the reachable states
    gives that the exchange ends and that input and output arrive in order.

  \<^bold>\<open>Bounds\<close>

  \<^item> Freeing is characterised for storages of at most 256 blocks, priorities of the heap for values
    below 256: keys are little-endian integers compared as byte strings, and beyond one byte the
    order is not the numerical one, which is proved as a property of the code and not assumed away.
  \<^item> The in-memory backend has 32768 blocks of 4096 bytes and passes at most 512 extents.
  \<^item> The FPGA's maps have 512 extents, a block there has 2^18 bytes; buffers shared with processes
    have halves of 64 MiB (\<open>BufferSize\<close>).
  \<^item> An exchange over \<open>n\<close> rounds takes at most \<open>6 * n + 2\<close> steps; no other statement uses fuel.

  \<^bold>\<open>Choices\<close>

  \<^item> The memory LMDB returns is a value.  Where the sources read it after an update of the same
    transaction (\<open>extent.c:174\<close>, \<open>metal.c:555\<close>, \<open>metal.c:618\<close>), what they see is given by LMDB
    (\<open>mdb_reread\<close>); all that is assumed is that it is the value as long as nothing was updated.
    \<open>ref\<close> shows the old value, as after a copy of the page, \<open>inplace\<close> the new one, as after
    overwriting it.
  \<^item> The driver takes the stream numbers of operators as they are; one of 8 or more leaves the array
    of \<open>configureSwitch\<close>, one of 32 or more the width of a shift, and there is no result then.
  \<^item> A stream of the FPGA is a list, and a read of an exhausted one waits for ever; the stages of the
    data source and sink run one after the other, as in a simulation of the sources.  Whether the
    image has NVMe is an argument instead of a preprocessor symbol.
  \<^item> Registers of the FPGA's peripherals are recorded as the sequence of writes; what is read from
    them is an input.
  \<^item> Unordered containers are lists in the order of insertion.
  \<^item> In Protocol the FPGA reads its input half and writes its output half in one step at the end of a
    run; the process uses other halves in the meantime, or waits.
  \<^item> \<open>serve\<close> is \<open>Server::start\<close> for the finitely many connections accepted so far.

  \<^bold>\<open>Not modelled\<close>

  Parsing of the driver's command line and the start of FUSE in \<open>metal_fs.cpp\<close>, setting up the
  listening socket, and the creation of the metadata directory in \<open>filesystem_context.cpp\<close> are
  input and output without logic of their own.  \<open>formatProfilingResults\<close>, which makes text of the
  counters in floating point, is an argument, as are all log messages.  \<open>mtl_dump_extents\<close> only
  prints.  The hardware described in VHDL and Verilog is the boundary of the FPGA's model.  Tests, the
  vendored \<open>catch.hpp\<close> and the code that protobuf generates are left out.
\<close>

end
